(* ===== verification/Prelude.thy ===== *)
theory Prelude
  imports Complex_Main "HOL-Library.AList" "HOL-Library.Multiset"
begin

text \<open>
  Shared vocabulary of the development: Go's fixed-width integers, maps, pointers that may be
  nil, error results and slices, and the generic facts about them that the component proofs use.

  \<^item> An \<open>int\<close>, \<open>int64\<close> or \<open>int32\<close> of the program is an HOL \<^typ>\<open>int\<close>; arithmetic that can leave
    the range goes through \<open>wrap64\<close>, which is two's complement.
  \<^item> A Go map with string keys is an association list with distinct keys (\<open>wf_map\<close>). Reading a
    missing key gives the zero value of the element type, as the language says.
  \<^item> A pointer or interface that may be nil is an \<open>option\<close>.
  \<^item> A function returning \<open>(T, error)\<close> returns \<open>error + 'a\<close>.
  \<^item> \<open>pos\<close> names a point of an execution. Values the runtime or the outside world picks freshly at
    each point (the order of a \<open>range\<close> over a map, a clock reading, the answer of an API call) are
    functions of such a position.
\<close>

named_theorems go_simps "unfolding rules for the plain operations of the model"
named_theorems go_intros "introduction rules for the invariants of the model"

subsection \<open>Fixed-width integers\<close>

definition wrap64 :: "int \<Rightarrow> int" where
  "wrap64 x = (x + 2 ^ 63) mod 2 ^ 64 - 2 ^ 63"

definition in_int64 :: "int \<Rightarrow> bool" where
  "in_int64 x \<longleftrightarrow> - (2 ^ 63) \<le> x \<and> x < 2 ^ 63"

definition in_int32 :: "int \<Rightarrow> bool" where
  "in_int32 x \<longleftrightarrow> - (2 ^ 31) \<le> x \<and> x < 2 ^ 31"

lemma wrap64_id [simp]: "in_int64 x \<Longrightarrow> wrap64 x = x"
  by (simp add: wrap64_def in_int64_def)

lemma in_int64_wrap64 [simp]: "in_int64 (wrap64 x)"
proof -
  have "0 \<le> (x + 2 ^ 63) mod 2 ^ 64" and "(x + 2 ^ 63) mod 2 ^ 64 < (2 ^ 64 :: int)"
    by simp_all
  then show ?thesis by (simp add: wrap64_def in_int64_def)
qed

lemma wrap64_add: "wrap64 (wrap64 a + wrap64 b) = wrap64 (a + b)"
proof -
  have "(x mod m + y mod m - c) mod m = (x + y - c) mod m" for x y c m :: int
    by (metis mod_add_eq mod_diff_left_eq)
  from this [of "a + 2 ^ 63" "2 ^ 64" "b + 2 ^ 63" "2 ^ 63"] show ?thesis
    by (simp add: wrap64_def algebra_simps)
qed

lemma in_int32_int64: "in_int32 x \<Longrightarrow> in_int64 x"
  by (simp add: in_int32_def in_int64_def)

text \<open>Go's integer division truncates towards zero.\<close>

definition go_div :: "int \<Rightarrow> int \<Rightarrow> int" where
  "go_div a b = sgn a * sgn b * (\<bar>a\<bar> div \<bar>b\<bar>)"

lemma go_div_nonneg: "0 \<le> a \<Longrightarrow> 0 < b \<Longrightarrow> go_div a b = a div b"
  by (cases "a = 0") (simp_all add: go_div_def)

lemma go_div_neg: "a < 0 \<Longrightarrow> 0 < b \<Longrightarrow> go_div a b \<le> 0"
  by (simp add: go_div_def pos_imp_zdiv_nonneg_iff)

subsection \<open>Time\<close>

text \<open>
  A \<open>time.Time\<close> is a number of nanoseconds, with the zero \<open>Time\<close> as origin; a \<open>time.Duration\<close> is a
  64-bit number of nanoseconds. \<open>Time.Sub\<close> saturates at the ends of the \<open>Duration\<close> range.
\<close>

type_synonym gotime = int
type_synonym duration = int

definition second :: duration where "second = 1000000000"
definition minute :: duration where "minute = 60 * second"
definition hour :: duration where "hour = 60 * minute"

lemmas duration_defs [go_simps] = second_def minute_def hour_def

lemma hour_pos [simp]: "0 < hour" and minute_pos [simp]: "0 < minute" and second_pos [simp]: "0 < second"
  by (simp_all add: duration_defs)

definition time_sub :: "gotime \<Rightarrow> gotime \<Rightarrow> duration" where
  "time_sub t u = max (- (2 ^ 63)) (min (2 ^ 63 - 1) (t - u))"

definition isZeroTime :: "gotime \<Rightarrow> bool" where
  "isZeroTime t \<longleftrightarrow> t = 0"

lemma time_sub_less_iff: "in_int64 d \<Longrightarrow> time_sub t u < d \<longleftrightarrow> t - u < d \<and> - (2 ^ 63) < d"
  by (auto simp: time_sub_def in_int64_def)

subsection \<open>Go maps with string keys\<close>

type_synonym 'v gomap = "(string \<times> 'v) list"
type_synonym labels = "string gomap"
type_synonym pos = "nat list"

definition wf_map :: "('k \<times> 'v) list \<Rightarrow> bool" where
  "wf_map m \<longleftrightarrow> distinct (map fst m)"

text \<open>\<open>m[k]\<close> for a map of strings: the empty string when the key is missing.\<close>

definition str_at :: "labels \<Rightarrow> string \<Rightarrow> string" where
  "str_at m k = (case map_of m k of None \<Rightarrow> [] | Some v \<Rightarrow> v)"

text \<open>\<open>m[k]\<close> for a map of integers: 0 when the key is missing.\<close>

definition int_at :: "int gomap \<Rightarrow> string \<Rightarrow> int" where
  "int_at m k = (case map_of m k of None \<Rightarrow> 0 | Some v \<Rightarrow> v)"

text \<open>\<open>m[k]\<close> for a map of slices: the nil slice when the key is missing.\<close>

definition slice_at :: "('k \<times> 'a list) list \<Rightarrow> 'k \<Rightarrow> 'a list" where
  "slice_at m k = (case map_of m k of None \<Rightarrow> [] | Some v \<Rightarrow> v)"

lemma wf_map_Nil [simp]: "wf_map []"
  by (simp add: wf_map_def)

lemma wf_map_update [simp, go_intros]: "wf_map m \<Longrightarrow> wf_map (AList.update k v m)"
  by (simp add: wf_map_def distinct_update)

lemma map_of_update: "map_of (AList.update k v m) = (map_of m)(k \<mapsto> v)"
  by (rule update_conv')

lemma int_at_update [simp]:
  "int_at (AList.update k v m) j = (if j = k then v else int_at m j)"
  by (simp add: int_at_def map_of_update)

lemma int_at_Nil [simp]: "int_at [] k = 0"
  by (simp add: int_at_def)

lemma slice_at_update [simp]:
  "slice_at (AList.update k v m) j = (if j = k then v else slice_at m j)"
  by (simp add: slice_at_def map_of_update)

lemma slice_at_Nil [simp]: "slice_at [] k = []"
  by (simp add: slice_at_def)

lemma wf_map_map_of_SomeI: "wf_map m \<Longrightarrow> (k, v) \<in> set m \<Longrightarrow> map_of m k = Some v"
  by (simp add: wf_map_def)

lemma wf_map_mem_iff: "wf_map m \<Longrightarrow> (k, v) \<in> set m \<longleftrightarrow> map_of m k = Some v"
  by (auto simp: wf_map_def dest: map_of_SomeD)

lemma wf_map_eqI: "wf_map m \<Longrightarrow> wf_map n \<Longrightarrow> set m = set n \<Longrightarrow> map_of m k = map_of n k"
  by (cases "map_of m k") (metis wf_map_mem_iff not_None_eq, metis wf_map_mem_iff)

lemma wf_map_filter: "wf_map m \<Longrightarrow> wf_map (filter P m)"
  by (induction m) (auto simp: wf_map_def)

lemma fst_update_mem: "k \<in> fst ` set m \<Longrightarrow> map fst (AList.update k v m) = map fst m"
  by (simp add: update_keys)

subsection \<open>Slices filtered in place\<close>

text \<open>
  The planner prunes a history slice with \<open>filtered := history[:0]\<close> followed by appends inside a
  \<open>range\<close> over \<open>history\<close>: reader and writer share one backing array. \<open>compact_loop\<close> is that loop on
  the array itself, with the read index and the write index.
\<close>

fun compact_loop :: "('a \<Rightarrow> bool) \<Rightarrow> nat \<Rightarrow> nat \<Rightarrow> nat \<Rightarrow> 'a list \<Rightarrow> 'a list \<times> nat" where
  "compact_loop P 0 i j arr = (arr, j)"
| "compact_loop P (Suc n) i j arr =
     (if P (arr ! i) then compact_loop P n (Suc i) (Suc j) (arr[j := arr ! i])
      else compact_loop P n (Suc i) j arr)"

definition compact_in_place :: "('a \<Rightarrow> bool) \<Rightarrow> 'a list \<Rightarrow> 'a list" where
  "compact_in_place P xs = (case compact_loop P (length xs) 0 0 xs of (arr, j) \<Rightarrow> take j arr)"

lemma compact_loop_filter:
  "j \<le> i \<Longrightarrow> i + n = length arr \<Longrightarrow> compact_loop P n i j arr = (arr', j') \<Longrightarrow>
   take j' arr' = take j arr @ filter P (drop i arr)"
proof (induction n arbitrary: i j arr)
  case 0
  then show ?case by simp
next
  case (Suc n)
  have lt: "i < length arr" using Suc.prems(2) by simp
  then have split: "drop i arr = arr ! i # drop (Suc i) arr"
    by (simp add: Cons_nth_drop_Suc)
  show ?case
  proof (cases "P (arr ! i)")
    case False
    have "take j' arr' = take j arr @ filter P (drop (Suc i) arr)"
      using Suc.prems False by (intro Suc.IH) auto
    then show ?thesis using split False by simp
  next
    case True
    let ?arr = "arr[j := arr ! i]"
    have run: "compact_loop P n (Suc i) (Suc j) ?arr = (arr', j')"
      using Suc.prems(3) True by simp
    have "take j' arr' = take (Suc j) ?arr @ filter P (drop (Suc i) ?arr)"
      by (rule Suc.IH [OF _ _ run]) (use Suc.prems in auto)
    moreover have "take (Suc j) ?arr = take j arr @ [arr ! i]"
      using lt Suc.prems(1) by (simp add: take_Suc_conv_app_nth)
    moreover have "drop (Suc i) ?arr = drop (Suc i) arr"
      using Suc.prems(1) by simp
    ultimately show ?thesis using split True by simp
  qed
qed

lemma compact_in_place_filter [simp]: "compact_in_place P xs = filter P xs"
proof -
  obtain arr j where run: "compact_loop P (length xs) 0 0 xs = (arr, j)"
    by (cases "compact_loop P (length xs) 0 0 xs")
  have "take j arr = take 0 xs @ filter P (drop 0 xs)"
    by (rule compact_loop_filter [OF _ _ run]) simp_all
  then show ?thesis by (simp add: compact_in_place_def run)
qed

subsection \<open>Generic facts on lists\<close>

lemma length_filter_mono: "(\<And>x. P x \<Longrightarrow> Q x) \<Longrightarrow> length (filter P xs) \<le> length (filter Q xs)"
  by (induction xs) auto

lemma count_list_filter_le: "length (filter P (filter Q xs)) \<le> length (filter P xs)"
  by (induction xs) auto

lemma sum_list_nonneg_int: "(\<And>x. x \<in> set xs \<Longrightarrow> 0 \<le> x) \<Longrightarrow> 0 \<le> sum_list (xs :: int list)"
  by (induction xs) auto

lemma mset_map_of_keys:
  assumes "wf_map m" and "mset ks = mset (map fst m)"
  shows "mset (List.map_filter (\<lambda>k. map_option (Pair k) (map_of m k)) ks) = mset m"
proof -
  have keys: "set ks = fst ` set m"
    using assms(2) by (metis list.set_map set_mset_mset)
  have total: "\<And>k. k \<in> set ks \<Longrightarrow> map_of m k \<noteq> None"
    by (simp add: keys map_of_eq_None_iff)
  have "List.map_filter (\<lambda>k. map_option (Pair k) (map_of m k)) ks
        = map (\<lambda>k. (k, the (map_of m k))) ks"
    using total by (induction ks) (fastforce simp: List.map_filter_def)+
  then have "mset (List.map_filter (\<lambda>k. map_option (Pair k) (map_of m k)) ks)
        = image_mset (\<lambda>k. (k, the (map_of m k))) (mset (map fst m))"
    using assms(2) by simp
  also have "\<dots> = image_mset (\<lambda>e. (fst e, the (map_of m (fst e)))) (mset m)"
    by (simp add: multiset.map_comp comp_def)
  also have "\<dots> = image_mset id (mset m)"
    using assms(1) by (intro image_mset_cong) (auto simp: wf_map_def)
  finally show ?thesis by simp
qed

end
