(* ===== verification/GoFloat.thy ===== *)
theory GoFloat
  imports Prelude "HOL-Library.Log_Nat"
begin

text \<open>
  Go's \<open>float64\<close>: IEEE 754 binary64 with round-to-nearest-even, as Go computes it on amd64 (no
  fused multiply-add). A finite value is the rational number it denotes; the results of operations
  are rounded by \<open>fl\<close> to 53 significant bits, with gradual underflow and with overflow to an
  infinity. The two zeros are one value: they are equal for every comparison, and the program
  divides by converted integers only, whose zero is positive, which \<open>fdiv\<close> uses.

  The lemmas give the order of the non-NaN values, that rounding is monotone, exact on short dyadic
  numbers and preserves sign, and from these the sign and monotonicity of the operations.
\<close>

datatype float64 = NaN | PInf | NInf | Fin rat

subsection \<open>Rounding\<close>

text \<open>\<open>rat_exp x\<close> is the binary exponent of a positive rational: \<open>2 ^ e \<le> x < 2 ^ (e + 1)\<close>.\<close>

definition rat_exp :: "rat \<Rightarrow> int" where
  "rat_exp x = (if 1 \<le> x then bitlen \<lfloor>x\<rfloor> - 1 else - bitlen (\<lceil>1 / x\<rceil> - 1))"

definition round_half_even :: "rat \<Rightarrow> int" where
  "round_half_even x = (let f = \<lfloor>x\<rfloor>; d = x - of_int f in
     if d < 1 / 2 then f else if 1 / 2 < d then f + 1 else if even f then f else f + 1)"

definition pow2 :: "int \<Rightarrow> rat" where
  "pow2 e = (if 0 \<le> e then 2 ^ nat e else 1 / 2 ^ nat (- e))"

text \<open>The exponent of the last place kept for a number of magnitude \<open>x\<close>.\<close>

definition ulp_exp :: "rat \<Rightarrow> int" where
  "ulp_exp x = max (rat_exp x - 52) (- 1074)"

definition round53 :: "rat \<Rightarrow> rat" where
  "round53 x = (if x = 0 then 0 else
     of_int (round_half_even (x / pow2 (ulp_exp \<bar>x\<bar>))) * pow2 (ulp_exp \<bar>x\<bar>))"

definition fl :: "rat \<Rightarrow> float64" where
  "fl x = (let r = round53 x in
     if 2 ^ 1024 \<le> r then PInf else if r \<le> - (2 ^ 1024) then NInf else Fin r)"

subsection \<open>Operations\<close>

fun fneg :: "float64 \<Rightarrow> float64" where
  "fneg NaN = NaN"
| "fneg PInf = NInf"
| "fneg NInf = PInf"
| "fneg (Fin a) = Fin (- a)"

fun fadd :: "float64 \<Rightarrow> float64 \<Rightarrow> float64" where
  "fadd NaN y = NaN"
| "fadd x NaN = NaN"
| "fadd PInf NInf = NaN"
| "fadd NInf PInf = NaN"
| "fadd PInf y = PInf"
| "fadd NInf y = NInf"
| "fadd (Fin a) PInf = PInf"
| "fadd (Fin a) NInf = NInf"
| "fadd (Fin a) (Fin b) = fl (a + b)"

definition fsub :: "float64 \<Rightarrow> float64 \<Rightarrow> float64" where
  "fsub x y = fadd x (fneg y)"

text \<open>The infinity with the sign of a rational; NaN for 0, as for \<open>0 * Inf\<close> and \<open>0 / 0\<close>.\<close>

definition inf_sgn :: "rat \<Rightarrow> float64" where
  "inf_sgn a = (if a = 0 then NaN else if 0 < a then PInf else NInf)"

fun fmul :: "float64 \<Rightarrow> float64 \<Rightarrow> float64" where
  "fmul NaN y = NaN"
| "fmul x NaN = NaN"
| "fmul (Fin a) (Fin b) = fl (a * b)"
| "fmul (Fin a) PInf = inf_sgn a"
| "fmul (Fin a) NInf = inf_sgn (- a)"
| "fmul PInf (Fin b) = inf_sgn b"
| "fmul NInf (Fin b) = inf_sgn (- b)"
| "fmul PInf PInf = PInf"
| "fmul NInf NInf = PInf"
| "fmul PInf NInf = NInf"
| "fmul NInf PInf = NInf"

fun fdiv :: "float64 \<Rightarrow> float64 \<Rightarrow> float64" where
  "fdiv NaN y = NaN"
| "fdiv x NaN = NaN"
| "fdiv (Fin a) (Fin b) = (if b = 0 then inf_sgn a else fl (a / b))"
| "fdiv (Fin a) PInf = Fin 0"
| "fdiv (Fin a) NInf = Fin 0"
| "fdiv PInf (Fin b) = (if 0 \<le> b then PInf else NInf)"
| "fdiv NInf (Fin b) = (if 0 \<le> b then NInf else PInf)"
| "fdiv x y = NaN"

fun fabs :: "float64 \<Rightarrow> float64" where
  "fabs NaN = NaN"
| "fabs (Fin a) = Fin \<bar>a\<bar>"
| "fabs x = PInf"

subsection \<open>Comparisons\<close>

text \<open>\<open><\<close>, \<open><=\<close> and \<open>==\<close> of Go: false when an operand is NaN.\<close>

fun flt :: "float64 \<Rightarrow> float64 \<Rightarrow> bool" where
  "flt NaN y = False"
| "flt x NaN = False"
| "flt NInf y = (y \<noteq> NInf)"
| "flt x NInf = False"
| "flt PInf y = False"
| "flt (Fin a) PInf = True"
| "flt (Fin a) (Fin b) = (a < b)"

definition feq :: "float64 \<Rightarrow> float64 \<Rightarrow> bool" where
  "feq x y \<longleftrightarrow> x \<noteq> NaN \<and> x = y"

definition fle :: "float64 \<Rightarrow> float64 \<Rightarrow> bool" where
  "fle x y \<longleftrightarrow> flt x y \<or> feq x y"

abbreviation fgt :: "float64 \<Rightarrow> float64 \<Rightarrow> bool" where "fgt x y \<equiv> flt y x"
abbreviation fge :: "float64 \<Rightarrow> float64 \<Rightarrow> bool" where "fge x y \<equiv> fle y x"

text \<open>\<open>math.Max\<close> and \<open>math.Min\<close>: an infinity on the winning side beats NaN.\<close>

definition math_Max :: "float64 \<Rightarrow> float64 \<Rightarrow> float64" where
  "math_Max x y = (if x = PInf \<or> y = PInf then PInf else if x = NaN \<or> y = NaN then NaN
     else if fgt x y then x else y)"

definition math_Min :: "float64 \<Rightarrow> float64 \<Rightarrow> float64" where
  "math_Min x y = (if x = NInf \<or> y = NInf then NInf else if x = NaN \<or> y = NaN then NaN
     else if flt x y then x else y)"

definition math_MaxFloat64 :: float64 where
  "math_MaxFloat64 = Fin ((2 ^ 53 - 1) * 2 ^ 971)"

subsection \<open>Conversions\<close>

definition float_of_int :: "int \<Rightarrow> float64" where
  "float_of_int n = fl (of_int n)"

text \<open>\<open>int64(f)\<close> truncates; out of range the language leaves the result to the implementation (\<open>oor\<close>).\<close>

definition trunc_rat :: "rat \<Rightarrow> int" where
  "trunc_rat a = (if 0 \<le> a then \<lfloor>a\<rfloor> else \<lceil>a\<rceil>)"

fun int_of_float :: "(float64 \<Rightarrow> int) \<Rightarrow> float64 \<Rightarrow> int" where
  "int_of_float oor (Fin a) = (if in_int64 (trunc_rat a) then trunc_rat a else oor (Fin a))"
| "int_of_float oor x = oor x"

subsection \<open>Rounding is monotone, odd and sign preserving\<close>

lemma pow2_powi: "pow2 e = 2 powi e"
  by (simp add: pow2_def power_int_def field_simps)

lemma pow2_pos [simp]: "0 < pow2 e"
  by (simp add: pow2_def)

lemma pow2_add: "pow2 (a + b) = pow2 a * pow2 b"
  by (simp add: pow2_powi power_int_add)

lemma pow2_diff: "pow2 (a - b) = pow2 a / pow2 b"
  by (simp add: pow2_powi power_int_diff)

lemma pow2_nat: "pow2 (int n) = 2 ^ n"
  by (simp add: pow2_def)

lemma pow2_strict_mono: "a < b \<Longrightarrow> pow2 a < pow2 b"
  by (simp add: pow2_powi power_int_strict_increasing)

lemma pow2_less_iff: "pow2 a < pow2 b \<longleftrightarrow> a < b"
  by (metis linorder_neqE_linordered_idom order_less_asym order_less_irrefl pow2_strict_mono)

lemma pow2_le_iff: "pow2 a \<le> pow2 b \<longleftrightarrow> a \<le> b"
  by (simp add: pow2_less_iff flip: not_less)

lemma rat_exp_bounds:
  assumes "0 < x"
  shows "pow2 (rat_exp x) \<le> x \<and> x < pow2 (rat_exp x + 1)"
proof (cases "1 \<le> x")
  case True
  then have pos: "0 < \<lfloor>x\<rfloor>" by simp
  let ?b = "bitlen \<lfloor>x\<rfloor>"
  have bl: "1 \<le> ?b" using pos by (simp add: bitlen_def floorlog_def) 
  have "2 ^ nat (?b - 1) \<le> \<lfloor>x\<rfloor>" and "\<lfloor>x\<rfloor> < 2 ^ nat ?b"
    using bitlen_bounds [OF pos] by auto
  then have "(2::rat) ^ nat (?b - 1) \<le> x" and "x < 2 ^ nat ?b"
    by (simp_all add: le_floor_iff floor_less_iff)
  with True bl show ?thesis by (simp add: rat_exp_def pow2_def)
next
  case False
  let ?n = "\<lceil>1 / x\<rceil> - 1" and ?b = "bitlen (\<lceil>1 / x\<rceil> - 1)"
  have "1 < 1 / x" using False assms by simp
  then have "1 < \<lceil>1 / x\<rceil>" by linarith
  then have pos: "0 < ?n" by simp
  have bl: "1 \<le> ?b" using pos by (simp add: bitlen_def floorlog_def)
  have lo: "2 ^ nat (?b - 1) \<le> ?n" and hi: "?n < 2 ^ nat ?b"
    using bitlen_bounds [OF pos] by auto
  have "2 ^ nat (?b - 1) < \<lceil>1 / x\<rceil>" using lo by linarith
  then have "(2::rat) ^ nat (?b - 1) < 1 / x" by (simp add: less_ceiling_iff)
  then have up: "x < 1 / 2 ^ nat (?b - 1)" using assms by (simp add: field_simps)
  have "\<lceil>1 / x\<rceil> \<le> 2 ^ nat ?b" using hi by linarith
  then have "1 / x \<le> (2::rat) ^ nat ?b" by (simp add: ceiling_le_iff)
  then have dn: "1 / 2 ^ nat ?b \<le> x" using assms by (simp add: field_simps)
  show ?thesis
  proof (cases "?b = 1")
    case True
    with up dn False show ?thesis by (simp add: rat_exp_def pow2_def)
  next
    case False
    with up dn bl \<open>\<not> 1 \<le> x\<close> show ?thesis by (auto simp: rat_exp_def pow2_def)
  qed
qed

lemma rat_exp_mono:
  assumes "0 < x" and "x \<le> y"
  shows "rat_exp x \<le> rat_exp y"
proof -
  have "pow2 (rat_exp x) < pow2 (rat_exp y + 1)"
    using rat_exp_bounds [of x] rat_exp_bounds [of y] assms by linarith
  then show ?thesis by (simp add: pow2_less_iff)
qed

lemma round_half_even_of_int [simp]: "round_half_even (of_int n) = n"
  by (simp add: round_half_even_def)

lemma round_half_even_bounds: "x - 1 / 2 \<le> of_int (round_half_even x) \<and> of_int (round_half_even x) \<le> x + 1 / 2"
proof -
  have "of_int \<lfloor>x\<rfloor> \<le> x" "x < of_int \<lfloor>x\<rfloor> + 1" by linarith+
  then show ?thesis unfolding round_half_even_def Let_def of_int_add of_int_1
    by (simp only: split: if_split) linarith
qed

lemma round_half_even_mono:
  assumes "x \<le> y" shows "round_half_even x \<le> round_half_even y"
proof (cases "\<lfloor>x\<rfloor> = \<lfloor>y\<rfloor>")
  case True
  with assms show ?thesis by (auto simp: round_half_even_def Let_def)
next
  case False
  with assms have lt: "\<lfloor>x\<rfloor> + 1 \<le> \<lfloor>y\<rfloor>" using floor_mono [OF assms] by linarith
  have "round_half_even x \<le> \<lfloor>x\<rfloor> + 1" and "\<lfloor>y\<rfloor> \<le> round_half_even y"
    by (simp_all add: round_half_even_def Let_def)
  with lt show ?thesis by linarith
qed

lemma round_half_even_nonneg: "0 \<le> x \<Longrightarrow> 0 \<le> round_half_even x"
  using round_half_even_mono [of 0 x] round_half_even_of_int [of 0] by simp

lemma round_half_even_uminus: "round_half_even (- x) = - round_half_even x"
proof (cases "x = of_int \<lfloor>x\<rfloor>")
  case True
  then show ?thesis
    by (metis of_int_minus round_half_even_of_int)
next
  case False
  then have "\<lfloor>- x\<rfloor> = - \<lfloor>x\<rfloor> - 1" by linarith
  then show ?thesis by (auto simp: round_half_even_def Let_def)
qed

lemma round53_0 [simp]: "round53 0 = 0"
  by (simp add: round53_def)

lemma round53_uminus: "round53 (- x) = - round53 x"
  by (simp add: round53_def round_half_even_uminus)

lemma round53_nonneg: "0 \<le> x \<Longrightarrow> 0 \<le> round53 x"
  by (simp add: round53_def round_half_even_nonneg divide_nonneg_pos less_imp_le)

lemma round53_mono_pos:
  assumes "0 < x" and "x \<le> y"
  shows "round53 x \<le> round53 y"
proof (cases "ulp_exp x = ulp_exp y")
  case True
  have "x / pow2 (ulp_exp x) \<le> y / pow2 (ulp_exp x)"
    using assms by (simp add: divide_right_mono less_imp_le)
  then have "round_half_even (x / pow2 (ulp_exp x)) \<le> round_half_even (y / pow2 (ulp_exp x))"
    by (rule round_half_even_mono)
  with True assms show ?thesis
    by (simp add: round53_def mult_right_mono less_imp_le)
next
  case False
  let ?qx = "ulp_exp x" and ?qy = "ulp_exp y" and ?ey = "rat_exp y"
  have "rat_exp x \<le> ?ey" using assms by (rule rat_exp_mono)
  with False have qy: "?qy = ?ey - 52" and exy: "rat_exp x + 1 \<le> ?ey" and qx: "?qx \<le> ?ey"
    by (auto simp: ulp_exp_def)
  have x_up: "x \<le> pow2 ?ey"
    using rat_exp_bounds [OF assms(1)] exy pow2_le_iff [of "rat_exp x + 1" ?ey] by linarith
  have y_lo: "pow2 ?ey \<le> y" using rat_exp_bounds [of y] assms by linarith
  have quot: "pow2 ?ey / pow2 q = of_int (2 ^ nat (?ey - q))" if "q \<le> ?ey" for q
  proof -
    have "pow2 ?ey / pow2 q = pow2 (?ey - q)" by (simp add: pow2_diff)
    also have "\<dots> = of_int (2 ^ nat (?ey - q))" using that by (simp add: pow2_def)
    finally show ?thesis .
  qed
  have "x / pow2 ?qx \<le> of_int (2 ^ nat (?ey - ?qx))"
    using x_up by (simp only: quot [OF qx, symmetric]) (simp add: divide_right_mono less_imp_le)
  then have "round_half_even (x / pow2 ?qx) \<le> 2 ^ nat (?ey - ?qx)"
    using round_half_even_mono round_half_even_of_int by metis
  then have "of_int (round_half_even (x / pow2 ?qx)) \<le> (pow2 ?ey / pow2 ?qx)"
    by (simp only: quot [OF qx] of_int_le_iff)
  then have 1: "round53 x \<le> pow2 ?ey"
    using assms by (simp add: round53_def pos_le_divide_eq)
  have qye: "?qy \<le> ?ey" using qy by simp
  have "of_int (2 ^ nat (?ey - ?qy)) \<le> y / pow2 ?qy"
    using y_lo by (simp only: quot [OF qye, symmetric]) (simp add: divide_right_mono less_imp_le)
  then have "2 ^ nat (?ey - ?qy) \<le> round_half_even (y / pow2 ?qy)"
    using round_half_even_mono round_half_even_of_int by metis
  then have "pow2 ?ey / pow2 ?qy \<le> of_int (round_half_even (y / pow2 ?qy))"
    by (simp only: quot [OF qye] of_int_le_iff)
  then have 2: "pow2 ?ey \<le> round53 y"
    using assms by (simp add: round53_def pos_divide_le_eq)
  from 1 2 show ?thesis by (rule order_trans)
qed

lemma round53_mono: 
  assumes "x \<le> y" shows "round53 x \<le> round53 y"
proof -
  consider "0 < x" | "y < 0" | "x \<le> 0" "0 \<le> y" by linarith
  then show ?thesis
  proof cases
    case 1
    then show ?thesis using assms by (rule round53_mono_pos)
  next
    case 2
    then have "round53 (- y) \<le> round53 (- x)" using assms by (intro round53_mono_pos) auto
    then show ?thesis by (simp add: round53_uminus)
  next
    case 3
    then have "0 \<le> round53 (- x)" and "0 \<le> round53 y" by (simp_all add: round53_nonneg)
    then show ?thesis by (simp add: round53_uminus)
  qed
qed

lemma fl_0 [simp]: "fl 0 = Fin 0"
  by (simp add: fl_def)

lemma fl_not_NaN [simp]: "fl x \<noteq> NaN" "NaN \<noteq> fl x"
  by (simp_all add: fl_def Let_def)

lemma fl_in_range: "\<bar>round53 x\<bar> < B \<Longrightarrow> B = 2 ^ 1024 \<Longrightarrow> fl x = Fin (round53 x)"
  by (simp only: fl_def Let_def) (auto simp: abs_less_iff)

lemma pow2_Suc: "pow2 (e + 1) = 2 * pow2 e"
  using pow2_add [of e 1] by (simp add: pow2_def [of 1])

lemma fl_uminus: "fl (- x) = fneg (fl x)"
  by (auto simp: fl_def Let_def round53_uminus)

subsection \<open>Exact results\<close>

lemma round53_on_grid:
  assumes "x \<noteq> 0" and "x / pow2 (ulp_exp \<bar>x\<bar>) = of_int k"
  shows "round53 x = x"
proof -
  have "of_int k * pow2 (ulp_exp \<bar>x\<bar>) = x"
    using assms(2) pow2_pos [of "ulp_exp \<bar>x\<bar>"] by (metis nonzero_divide_eq_eq order_less_irrefl)
  with assms show ?thesis by (simp add: round53_def)
qed

lemma round53_exact:
  assumes "\<bar>n\<bar> \<le> 2 ^ 53" and "- 1074 \<le> e"
  shows "round53 (of_int n * pow2 e) = of_int n * pow2 e"
proof (cases "n = 0")
  case False
  let ?x = "of_int n * pow2 e" and ?m = "of_int \<bar>n\<bar> * pow2 e"
  let ?q = "ulp_exp ?m"
  have abs_x: "\<bar>?x\<bar> = ?m" by (simp add: abs_mult abs_of_pos)
  have m_pos: "0 < ?m" using False by simp
  have q_le: "?q \<le> e \<or> (?q = e + 1 \<and> \<bar>n\<bar> = 2 ^ 53)"
  proof (rule ccontr)
    assume neg: "\<not> ?thesis"
    then have q: "?q = rat_exp ?m - 52" and "e < ?q"
      using assms(2) by (auto simp: ulp_exp_def)
    then have lo: "pow2 (e + 53) \<le> pow2 (rat_exp ?m)" by (simp add: pow2_le_iff)
    have "pow2 (rat_exp ?m) \<le> ?m" using rat_exp_bounds [OF m_pos] by simp
    with lo have "2 ^ 53 * pow2 e \<le> ?m" 
      using pow2_add [of 53 e] by (simp add: pow2_def add.commute)
    then have "(2 ^ 53 :: rat) \<le> of_int \<bar>n\<bar>" by (metis mult_le_cancel_right_pos pow2_pos)
    then have "(of_int (2 ^ 53) :: rat) \<le> of_int \<bar>n\<bar>" by simp
    then have "(2 ^ 53 :: int) \<le> \<bar>n\<bar>" by (simp only: of_int_le_iff)
    with assms(1) have n: "\<bar>n\<bar> = 2 ^ 53" by simp
    then have "?m = pow2 (e + 53)" using pow2_add [of 53 e] by (simp add: pow2_def add.commute)
    then have "pow2 (rat_exp ?m) \<le> pow2 (e + 53)" using rat_exp_bounds [OF m_pos] by simp
    then have "rat_exp ?m \<le> e + 53" by (simp add: pow2_le_iff)
    with q \<open>e < ?q\<close> n neg show False by simp
  qed
  have "\<exists>k. ?x / pow2 ?q = of_int k"
    using q_le
  proof
    assume le: "?q \<le> e"
    have "?x / pow2 ?q = of_int n * pow2 (e - ?q)" by (simp add: pow2_diff)
    also have "\<dots> = of_int (n * 2 ^ nat (e - ?q))" using le by (simp add: pow2_def)
    finally show ?thesis by blast
  next
    assume q: "?q = e + 1 \<and> \<bar>n\<bar> = 2 ^ 53"
    have "pow2 ?q = 2 * pow2 e" using q by (metis pow2_Suc)
    then have "pow2 e / pow2 ?q = 1 / 2" by (metis nonzero_divide_mult_cancel_right pow2_pos order_less_irrefl)
    then have "?x / pow2 ?q = of_int n / 2" by simp
    moreover have "even \<bar>n\<bar>" using q by simp
    then have "n = 2 * (n div 2)" by simp
    ultimately have "?x / pow2 ?q = of_int (n div 2)"
      by (metis nonzero_mult_div_cancel_left of_int_mult of_int_numeral zero_neq_numeral)
    then show ?thesis by blast
  qed
  then obtain k where k: "?x / pow2 ?q = of_int k" ..
  moreover have "?x \<noteq> 0" using m_pos abs_x by fastforce
  ultimately show ?thesis by (intro round53_on_grid [where k = k]) (simp_all add: abs_x)
qed simp

fun num_log :: "num \<Rightarrow> nat option" where
  "num_log num.One = Some 0"
| "num_log (num.Bit0 n) = map_option Suc (num_log n)"
| "num_log (num.Bit1 n) = None"

lemma num_log_Some: "num_log d = Some k \<Longrightarrow> numeral d = (2 ^ k :: rat)"
proof (induction d arbitrary: k)
  case (Bit0 d)
  then obtain j where "num_log d = Some j" and k: "k = Suc j" by auto
  then have "numeral d = (2 ^ j :: rat)" by (intro Bit0.IH)
  then have "numeral d + numeral d = (2 ^ k :: rat)" by (simp only: k power_Suc mult_2)
  then show ?case by (simp only: numeral_Bit0)
qed auto

lemma fl_exact:
  assumes "\<bar>n\<bar> \<le> 2 ^ 53" and "num_log d = Some k" and "k \<le> 1074"
  shows "fl (of_int n / numeral d) = Fin (of_int n / numeral d)"
proof -
  have d: "of_int n / numeral d = of_int n * pow2 (- int k)"
    using num_log_Some [OF assms(2)] by (cases "k = 0") (simp_all add: pow2_def)
  have r: "round53 (of_int n / numeral d) = of_int n / numeral d"
    unfolding d using assms by (intro round53_exact) auto
  have d1: "(1 :: rat) \<le> numeral d" by simp
  have "\<bar>of_int n / numeral d\<bar> = \<bar>of_int n :: rat\<bar> / numeral d" by simp
  also have "\<dots> \<le> \<bar>of_int n :: rat\<bar> / 1" using d1 by (intro divide_left_mono) auto
  also have "\<dots> = of_int \<bar>n\<bar>" by simp
  also have "\<dots> \<le> of_int (2 ^ 53)" using assms(1) by (simp only: of_int_le_iff)
  also have "\<dots> = (2 ^ 53 :: rat)" by (simp only: of_int_power of_int_numeral)
  also have "\<dots> < 2 ^ 1024" by (rule power_strict_increasing) simp_all
  finally have "\<bar>round53 (of_int n / numeral d)\<bar> < 2 ^ 1024" by (simp only: r)
  then have "fl (of_int n / numeral d) = Fin (round53 (of_int n / numeral d))"
    by (rule fl_in_range) (rule refl)
  then show ?thesis by (simp only: r)
qed

lemma fl_frac [simp]:
  "numeral n \<le> (2 ^ 53 :: int) \<Longrightarrow> num_log d = Some k \<Longrightarrow> k \<le> 1074 \<Longrightarrow>
   fl (numeral n / numeral d) = Fin (numeral n / numeral d)"
  using fl_exact [of "numeral n" d k] by simp

lemma fl_one_frac [simp]:
  "num_log d = Some k \<Longrightarrow> k \<le> 1074 \<Longrightarrow> fl (1 / numeral d) = Fin (1 / numeral d)"
  using fl_exact [of 1 d k] by simp

lemma fl_numeral [simp]: "numeral n \<le> (2 ^ 53 :: int) \<Longrightarrow> fl (numeral n) = Fin (numeral n)"
  using fl_exact [of "numeral n" num.One 0] by simp

lemma fl_1 [simp]: "fl 1 = Fin 1"
  using fl_exact [of 1 num.One 0] by simp

lemma fl_neg [simp]:
  "fl (- numeral n) = fneg (fl (numeral n))"
  "fl (- (numeral n / numeral d)) = fneg (fl (numeral n / numeral d))"
  "fl (- numeral n / numeral d) = fneg (fl (numeral n / numeral d))"
  "fl (- (1 / numeral d)) = fneg (fl (1 / numeral d))"
  "fl (- 1 / numeral d) = fneg (fl (1 / numeral d))"
  by (simp_all flip: fl_uminus)

subsection \<open>Order of the values\<close>
lemma flt_irrefl [simp]: "\<not> flt x x"
  by (cases x) auto

lemma flt_trans: "flt x y \<Longrightarrow> flt y z \<Longrightarrow> flt x z"
  by (cases x; cases y; cases z) auto

lemma flt_asym: "flt x y \<Longrightarrow> \<not> flt y x"
  by (cases x; cases y) auto

lemma flt_NaN [simp]: "\<not> flt NaN x" "\<not> flt x NaN"
  by (cases x; simp)+

lemma fle_NaN [simp]: "\<not> fle NaN x" "\<not> fle x NaN"
  by (auto simp: fle_def feq_def)

lemma fle_Fin [simp]: "fle (Fin a) (Fin b) \<longleftrightarrow> a \<le> b"
  by (auto simp: fle_def feq_def)

lemma fle_infs [simp]: "fle x PInf \<longleftrightarrow> x \<noteq> NaN" "fle NInf x \<longleftrightarrow> x \<noteq> NaN"
  "fle PInf x \<longleftrightarrow> x = PInf" "fle x NInf \<longleftrightarrow> x = NInf"
  by (cases x; auto simp: fle_def feq_def)+

lemma fle_refl: "x \<noteq> NaN \<Longrightarrow> fle x x"
  by (simp add: fle_def feq_def)

lemma flt_total: "x \<noteq> NaN \<Longrightarrow> y \<noteq> NaN \<Longrightarrow> flt x y \<or> x = y \<or> flt y x"
  by (cases x; cases y) auto

lemma not_flt: "x \<noteq> NaN \<Longrightarrow> y \<noteq> NaN \<Longrightarrow> \<not> flt x y \<longleftrightarrow> fle y x"
  using flt_total [of x y] by (auto simp: fle_def feq_def dest: flt_asym)

lemma not_fle: "x \<noteq> NaN \<Longrightarrow> y \<noteq> NaN \<Longrightarrow> \<not> fle x y \<longleftrightarrow> flt y x"
  using not_flt [of y x] by auto

lemma fle_trans: "fle x y \<Longrightarrow> fle y z \<Longrightarrow> fle x z"
  by (auto simp: fle_def feq_def intro: flt_trans)

lemma flt_fle_trans: "flt x y \<Longrightarrow> fle y z \<Longrightarrow> flt x z"
  by (auto simp: fle_def feq_def intro: flt_trans)

lemma fle_flt_trans: "fle x y \<Longrightarrow> flt y z \<Longrightarrow> flt x z"
  by (auto simp: fle_def feq_def intro: flt_trans)

lemma fle_antisym: "fle x y \<Longrightarrow> fle y x \<Longrightarrow> x = y"
  by (auto simp: fle_def feq_def dest: flt_asym)

lemma flt_not_NaN: "flt x y \<Longrightarrow> x \<noteq> NaN \<and> y \<noteq> NaN"
  by auto

lemma fle_not_NaN: "fle x y \<Longrightarrow> x \<noteq> NaN \<and> y \<noteq> NaN"
  by auto

lemmas float_order = flt_trans flt_fle_trans fle_flt_trans fle_trans

lemma fl_mono: "x \<le> y \<Longrightarrow> fle (fl x) (fl y)"
proof -
  assume "x \<le> y"
  then have m: "round53 x \<le> round53 y" by (rule round53_mono)
  define B where "B = (2 ^ 1024 :: rat)"
  have "0 < B" by (simp add: B_def)
  with m show ?thesis
    unfolding fl_def Let_def B_def [symmetric] by auto
qed

subsection \<open>Signs\<close>

text \<open>\<open>nonneg_or_nan x\<close>: the value is not below zero, as \<open>x < 0\<close> of the program sees it.\<close>

definition nonneg_or_nan :: "float64 \<Rightarrow> bool" where
  "nonneg_or_nan x \<longleftrightarrow> \<not> flt x (Fin 0)"

lemma nonneg_or_nan_iff [simp]:
  "nonneg_or_nan NaN" "nonneg_or_nan PInf" "\<not> nonneg_or_nan NInf" "nonneg_or_nan (Fin a) \<longleftrightarrow> 0 \<le> a"
  by (auto simp: nonneg_or_nan_def)

lemma nonneg_fl: "0 \<le> x \<Longrightarrow> nonneg_or_nan (fl x)"
proof -
  assume "0 \<le> x"
  then have "fle (Fin 0) (fl x)" using fl_mono [of 0 x] by simp
  then show ?thesis by (auto simp: nonneg_or_nan_def dest: fle_flt_trans)
qed

lemma nonneg_fadd [go_intros]: "nonneg_or_nan x \<Longrightarrow> nonneg_or_nan y \<Longrightarrow> nonneg_or_nan (fadd x y)"
  by (cases x; cases y) (auto simp: nonneg_fl)

lemma nonneg_fmul [go_intros]: "nonneg_or_nan x \<Longrightarrow> nonneg_or_nan y \<Longrightarrow> nonneg_or_nan (fmul x y)"
  by (cases x; cases y) (auto simp: nonneg_fl inf_sgn_def)

lemma nonneg_fdiv [go_intros]: "nonneg_or_nan x \<Longrightarrow> nonneg_or_nan y \<Longrightarrow> nonneg_or_nan (fdiv x y)"
  by (cases x; cases y) (auto simp: nonneg_fl inf_sgn_def)

lemma nonneg_fsquare [go_intros]: "nonneg_or_nan (fmul x x)"
  by (cases x) (auto simp: nonneg_fl)

lemma nonneg_float_of_int [go_intros]: "0 \<le> n \<Longrightarrow> nonneg_or_nan (float_of_int n)"
  by (simp add: float_of_int_def nonneg_fl)

subsection \<open>Monotonicity of the operations\<close>

lemma fadd_mono:
  assumes "fle x x'" and "fle y y'" and "fadd x y \<noteq> NaN" and "fadd x' y' \<noteq> NaN"
  shows "fle (fadd x y) (fadd x' y')"
  using assms by (cases x; cases x'; cases y; cases y') (auto intro!: fl_mono)

lemma fmul_mono_right:
  assumes "fle x y" and "0 \<le> c"
    and "fmul x (Fin c) \<noteq> NaN" and "fmul y (Fin c) \<noteq> NaN"
  shows "fle (fmul x (Fin c)) (fmul y (Fin c))"
  using assms
  by (cases x; cases y) (auto intro!: fl_mono mult_right_mono simp: inf_sgn_def split: if_splits)

lemma fdiv_mono:
  assumes "fle x y" and "0 < c"
  shows "fle (fdiv x (Fin c)) (fdiv y (Fin c))"
  using assms by (cases x; cases y) (auto intro!: fl_mono divide_right_mono)

lemma float_of_int_mono: "m \<le> n \<Longrightarrow> fle (float_of_int m) (float_of_int n)"
  by (simp add: float_of_int_def fl_mono)

lemma float_of_int_0 [simp]: "float_of_int 0 = Fin 0"
  by (simp add: float_of_int_def)

lemma float_of_int_numeral [simp]:
  "numeral n \<le> (2 ^ 53 :: int) \<Longrightarrow> float_of_int (numeral n) = Fin (numeral n)"
  by (simp add: float_of_int_def)

lemma float_of_int_1 [simp]: "float_of_int 1 = Fin 1"
  by (simp add: float_of_int_def)

lemma float_of_int_neg [simp]: "float_of_int (- n) = fneg (float_of_int n)"
  by (simp add: float_of_int_def fl_uminus)

subsection \<open>Magnitude\<close>

text \<open>Finite and at most \<open>2 ^ k\<close>.\<close>

definition magnitude :: "nat \<Rightarrow> float64 \<Rightarrow> bool" where
  "magnitude k x \<longleftrightarrow> (\<exists>a. x = Fin a \<and> \<bar>a\<bar> \<le> 2 ^ k)"

lemma fl_pow2: "k \<le> 1023 \<Longrightarrow> fl (2 ^ k) = Fin (2 ^ k)"
proof -
  assume k: "k \<le> 1023"
  have r: "round53 (2 ^ k) = 2 ^ k" using round53_exact [of 1 "int k"] by (simp add: pow2_nat)
  have "(2 :: rat) ^ k < 2 ^ 1024" using k by (intro power_strict_increasing) simp_all
  then have "\<bar>round53 (2 ^ k)\<bar> < 2 ^ 1024" by (simp only: r) simp
  then have "fl (2 ^ k) = Fin (round53 (2 ^ k))" by (rule fl_in_range) (rule refl)
  then show ?thesis by (simp only: r)
qed

lemma magnitude_fl: "\<bar>a\<bar> \<le> 2 ^ k \<Longrightarrow> k \<le> 1023 \<Longrightarrow> magnitude k (fl a)"
proof -
  assume a: "\<bar>a\<bar> \<le> 2 ^ k" and k: "k \<le> 1023"
  have hi: "fle (fl a) (Fin (2 ^ k))" using fl_mono [of a "2 ^ k"] a k by (simp only: fl_pow2)
  have "fle (fl (- (2 ^ k))) (fl a)" using a by (intro fl_mono) simp
  then have lo: "fle (Fin (- (2 ^ k))) (fl a)" using k by (simp only: fl_uminus fl_pow2 fneg.simps)
  show ?thesis using hi lo by (cases "fl a") (auto simp: magnitude_def)
qed

lemma magnitude_weaken: "magnitude j x \<Longrightarrow> j \<le> k \<Longrightarrow> magnitude k x"
proof -
  assume "magnitude j x" and "j \<le> k"
  then obtain a where "x = Fin a" and "\<bar>a\<bar> \<le> 2 ^ j" by (auto simp: magnitude_def)
  moreover have "(2 :: rat) ^ j \<le> 2 ^ k" using \<open>j \<le> k\<close> by (intro power_increasing) simp_all
  ultimately show ?thesis by (auto simp: magnitude_def intro: order_trans)
qed

lemma magnitude_fadd: "magnitude k x \<Longrightarrow> magnitude k y \<Longrightarrow> Suc k \<le> 1023 \<Longrightarrow> magnitude (Suc k) (fadd x y)"
proof -
  assume "magnitude k x" "magnitude k y" and k: "Suc k \<le> 1023"
  then obtain a b where "x = Fin a" "y = Fin b" and "\<bar>a\<bar> \<le> 2 ^ k" "\<bar>b\<bar> \<le> 2 ^ k" by (auto simp: magnitude_def)
  moreover from this have "\<bar>a + b\<bar> \<le> 2 ^ Suc k" by simp
  ultimately show ?thesis using magnitude_fl [OF _ k] by simp
qed

lemma magnitude_fneg: "magnitude k x \<Longrightarrow> magnitude k (fneg x)"
  by (auto simp: magnitude_def)

lemma magnitude_Fin: "magnitude k (Fin a) \<longleftrightarrow> \<bar>a\<bar> \<le> 2 ^ k"
  by (simp add: magnitude_def)

lemma magnitude_0 [simp]: "magnitude k (Fin 0)"
  by (simp add: magnitude_def)

lemma magnitude_fdiv: "magnitude k x \<Longrightarrow> 1 / 2 ^ j \<le> c \<Longrightarrow> k + j \<le> 1023 \<Longrightarrow> magnitude (k + j) (fdiv x (Fin c))"
proof -
  assume "magnitude k x" and c: "1 / 2 ^ j \<le> c" and kj: "k + j \<le> 1023"
  then obtain a where x: "x = Fin a" and a: "\<bar>a\<bar> \<le> 2 ^ k" by (auto simp: magnitude_def)
  have "(0 :: rat) < 1 / 2 ^ j" by simp
  then have pos: "0 < c" using c by linarith
  have "\<bar>a / c\<bar> = \<bar>a\<bar> / c" using pos by simp
  also have "\<dots> \<le> 2 ^ k / (1 / 2 ^ j)" using a c by (intro frac_le) simp_all
  also have "\<dots> = 2 ^ (k + j)" by (simp add: power_add)
  finally show ?thesis using magnitude_fl [OF _ kj] pos by (simp add: x)
qed

lemma magnitude_float_of_int: "in_int64 n \<Longrightarrow> magnitude 63 (float_of_int n)"
proof -
  assume "in_int64 n"
  then have "\<bar>n\<bar> \<le> 2 ^ 63" by (auto simp: in_int64_def)
  then have "\<bar>of_int n :: rat\<bar> \<le> of_int (2 ^ 63)" by (simp only: of_int_abs [symmetric] of_int_le_iff)
  then have "\<bar>of_int n :: rat\<bar> \<le> 2 ^ 63" by (simp only: of_int_power of_int_numeral)
  then show ?thesis unfolding float_of_int_def by (rule magnitude_fl) simp
qed

lemma magnitude_times_0 [simp]: "magnitude k x \<Longrightarrow> fmul x (Fin 0) = Fin 0"
  by (auto simp: magnitude_def)

subsection \<open>Clamping\<close>

lemma clamp_bounds:
  assumes "lo \<le> hi" and "v \<noteq> NaN"
  shows "fle (Fin lo) (math_Max (Fin lo) (math_Min (Fin hi) v)) \<and>
         fle (math_Max (Fin lo) (math_Min (Fin hi) v)) (Fin hi)"
  using assms by (cases v) (auto simp: math_Max_def math_Min_def)

subsection \<open>Finite numbers\<close>

definition finite_float :: "float64 \<Rightarrow> bool" where
  "finite_float x \<longleftrightarrow> (\<exists>a. x = Fin a)"

lemma finite_Fin [simp]: "finite_float (Fin a)"
  by (simp add: finite_float_def)

lemma finite_float_simps [simp]: "\<not> finite_float NaN" "\<not> finite_float PInf" "\<not> finite_float NInf"
  by (simp_all add: finite_float_def)

lemma finite_magnitude: "magnitude k x \<Longrightarrow> finite_float x"
  by (auto simp: magnitude_def)

end
