(* ===== verification/GoRuntime.thy ===== *)
theory GoRuntime
  imports GoFloat
begin

text \<open>
  What the Go runtime and standard library decide or compute for the program, and is not written in
  the program itself.

  \<^item> \<open>range_order\<close>: the order in which a \<open>range\<close> over a map visits the keys. The language leaves it
    open and it may differ from one loop to the next, so it is a function of the position.
  \<^item> \<open>sort_order\<close>: \<open>sort.Slice\<close> is deterministic but not stable; its result depends on the length of
    the slice and on the answers of the comparison only. It is the permutation of the indices that
    the sort produces. The law \<open>sorted\<close> holds for comparisons that are strict weak orders, which is
    what the package asks of them.
  \<^item> \<open>now_at\<close>: the clock reading at each position.
  \<^item> \<open>float_oor\<close>: the implementation-defined result of converting an out-of-range float to \<open>int64\<close>.

  The locale \<open>go_sort\<close> states the contract of \<open>sort.Slice\<close>, \<open>go_runtime\<close> the contracts of all of
  them; the first is interpreted on the insertion sort the package runs on short slices, the second
  on a runtime built from it.
\<close>

record runtime =
  range_order :: "pos \<Rightarrow> string list \<Rightarrow> string list"
  sort_order :: "nat \<Rightarrow> (nat \<Rightarrow> nat \<Rightarrow> bool) \<Rightarrow> nat list"
  now_at :: "pos \<Rightarrow> gotime"
  float_oor :: "float64 \<Rightarrow> int"

subsection \<open>Ranging over a map\<close>

definition go_range :: "'z runtime_scheme \<Rightarrow> pos \<Rightarrow> 'v gomap \<Rightarrow> (string \<times> 'v) list" where
  "go_range E p m = List.map_filter (\<lambda>k. map_option (Pair k) (map_of m k)) (range_order E p (map fst m))"

subsection \<open>sort.Slice\<close>

text \<open>The comparison is asked about indices of the slice only.\<close>

definition less_at :: "('a \<Rightarrow> 'a \<Rightarrow> bool) \<Rightarrow> 'a list \<Rightarrow> nat \<Rightarrow> nat \<Rightarrow> bool" where
  "less_at lt xs i j \<longleftrightarrow> i < length xs \<and> j < length xs \<and> lt (xs ! i) (xs ! j)"

definition sort_slice :: "'z runtime_scheme \<Rightarrow> ('a \<Rightarrow> 'a \<Rightarrow> bool) \<Rightarrow> 'a list \<Rightarrow> 'a list" where
  "sort_slice E lt xs = map (\<lambda>i. xs ! i) (sort_order E (length xs) (less_at lt xs))"

definition strict_weak_on :: "'a set \<Rightarrow> ('a \<Rightarrow> 'a \<Rightarrow> bool) \<Rightarrow> bool" where
  "strict_weak_on A lt \<longleftrightarrow>
     (\<forall>x\<in>A. \<not> lt x x) \<and>
     (\<forall>x\<in>A. \<forall>y\<in>A. \<forall>z\<in>A. lt x y \<longrightarrow> lt y z \<longrightarrow> lt x z) \<and>
     (\<forall>x\<in>A. \<forall>y\<in>A. \<forall>z\<in>A. \<not> lt x y \<longrightarrow> \<not> lt y z \<longrightarrow> \<not> lt x z)"

lemma strict_weak_onI:
  assumes "\<And>x. x \<in> A \<Longrightarrow> \<not> lt x x"
    and "\<And>x y z. x \<in> A \<Longrightarrow> y \<in> A \<Longrightarrow> z \<in> A \<Longrightarrow> lt x y \<Longrightarrow> lt y z \<Longrightarrow> lt x z"
    and "\<And>x y z. x \<in> A \<Longrightarrow> y \<in> A \<Longrightarrow> z \<in> A \<Longrightarrow> \<not> lt x y \<Longrightarrow> \<not> lt y z \<Longrightarrow> \<not> lt x z"
  shows "strict_weak_on A lt"
  unfolding strict_weak_on_def using assms by (intro conjI ballI impI)

lemma strict_weak_on_irrefl: "strict_weak_on A lt \<Longrightarrow> x \<in> A \<Longrightarrow> \<not> lt x x"
  by (simp add: strict_weak_on_def)

lemma strict_weak_on_trans:
  "strict_weak_on A lt \<Longrightarrow> x \<in> A \<Longrightarrow> y \<in> A \<Longrightarrow> z \<in> A \<Longrightarrow> lt x y \<Longrightarrow> lt y z \<Longrightarrow> lt x z"
  unfolding strict_weak_on_def by (elim conjE) (drule bspec; assumption | blast)

lemma strict_weak_on_negtrans:
  "strict_weak_on A lt \<Longrightarrow> x \<in> A \<Longrightarrow> y \<in> A \<Longrightarrow> z \<in> A \<Longrightarrow> \<not> lt x y \<Longrightarrow> \<not> lt y z \<Longrightarrow> \<not> lt x z"
  unfolding strict_weak_on_def by (elim conjE) (drule bspec; assumption | blast)

lemma strict_weak_on_asym:
  "strict_weak_on A lt \<Longrightarrow> x \<in> A \<Longrightarrow> y \<in> A \<Longrightarrow> lt x y \<Longrightarrow> \<not> lt y x"
  using strict_weak_on_trans strict_weak_on_irrefl by metis

lemma strict_weak_on_mono:
  assumes sw: "strict_weak_on B lt" and sub: "A \<subseteq> B"
  shows "strict_weak_on A lt"
proof (rule strict_weak_onI)
  show "\<not> lt x x" if "x \<in> A" for x
    using strict_weak_on_irrefl [OF sw] sub that by auto
  show "lt x z" if "x \<in> A" "y \<in> A" "z \<in> A" "lt x y" "lt y z" for x y z
    using strict_weak_on_trans [OF sw, of x y z] sub that by auto
  show "\<not> lt x z" if "x \<in> A" "y \<in> A" "z \<in> A" "\<not> lt x y" "\<not> lt y z" for x y z
    using strict_weak_on_negtrans [OF sw, of x y z] sub that by auto
qed

lemma strict_weak_on_image:
  assumes sw: "strict_weak_on (f ` A) lt"
  shows "strict_weak_on A (\<lambda>x y. lt (f x) (f y))"
proof (rule strict_weak_onI)
  show "\<not> lt (f x) (f x)" if "x \<in> A" for x
    using strict_weak_on_irrefl [OF sw] that by simp
  show "lt (f x) (f z)" if "x \<in> A" "y \<in> A" "z \<in> A" "lt (f x) (f y)" "lt (f y) (f z)" for x y z
    using strict_weak_on_trans [OF sw, of "f x" "f y" "f z"] that by simp
  show "\<not> lt (f x) (f z)" if "x \<in> A" "y \<in> A" "z \<in> A" "\<not> lt (f x) (f y)" "\<not> lt (f y) (f z)" for x y z
    using strict_weak_on_negtrans [OF sw, of "f x" "f y" "f z"] that by simp
qed

lemma strict_weak_on_agree:
  assumes sw: "strict_weak_on A lt" and agree: "\<And>x y. x \<in> A \<Longrightarrow> y \<in> A \<Longrightarrow> lt' x y \<longleftrightarrow> lt x y"
  shows "strict_weak_on A lt'"
proof (rule strict_weak_onI)
  show "\<not> lt' x x" if "x \<in> A" for x
    using strict_weak_on_irrefl [OF sw] agree that by simp
  show "lt' x z" if "x \<in> A" "y \<in> A" "z \<in> A" "lt' x y" "lt' y z" for x y z
    using strict_weak_on_trans [OF sw, of x y z] agree that by simp
  show "\<not> lt' x z" if "x \<in> A" "y \<in> A" "z \<in> A" "\<not> lt' x y" "\<not> lt' y z" for x y z
    using strict_weak_on_negtrans [OF sw, of x y z] agree that by simp
qed

lemma strict_weak_on_flt: "NaN \<notin> A \<Longrightarrow> strict_weak_on A flt"
  by (rule strict_weak_onI) (metis flt_irrefl, metis flt_trans, metis not_flt fle_trans)

lemma strict_weak_on_fgt: "NaN \<notin> A \<Longrightarrow> strict_weak_on A fgt"
  by (rule strict_weak_onI) (metis flt_irrefl, metis flt_trans, metis not_flt fle_trans)

lemma strict_weak_on_linorder: "strict_weak_on A (\<lambda>x y. x < (y :: 'b::linorder))"
  by (rule strict_weak_onI) auto

lemma strict_weak_on_key:
  assumes "\<And>x. x \<in> A \<Longrightarrow> key x \<noteq> NaN"
  shows "strict_weak_on A (\<lambda>x y. flt (key x) (key y))"
    and "strict_weak_on A (\<lambda>x y. fgt (key x) (key y))"
proof -
  have n: "NaN \<notin> key ` A" using assms by force
  show "strict_weak_on A (\<lambda>x y. flt (key x) (key y))"
    by (rule strict_weak_on_image [where lt = flt]) (rule strict_weak_on_flt [OF n])
  show "strict_weak_on A (\<lambda>x y. fgt (key x) (key y))"
    by (rule strict_weak_on_image [where lt = fgt]) (rule strict_weak_on_fgt [OF n])
qed

lemma strict_weak_on_key_linorder: "strict_weak_on A (\<lambda>x y. (key x :: 'b::linorder) < key y)"
  by (rule strict_weak_on_image [where lt = "(<)"]) (rule strict_weak_on_linorder)

locale go_sort =
  fixes ord :: "nat \<Rightarrow> (nat \<Rightarrow> nat \<Rightarrow> bool) \<Rightarrow> nat list"
  assumes perm: "mset (ord n lt) = mset [0..<n]"
    and sorted: "strict_weak_on {..<n} lt \<Longrightarrow> sorted_wrt (\<lambda>i j. \<not> lt j i) (ord n lt)"
begin

lemma set_ord [simp]: "set (ord n lt) = {..<n}"
  by (metis atLeast_upt perm set_mset_mset)

lemma mset_apply: "mset (map ((!) xs) (ord (length xs) lt)) = mset xs"
proof -
  have "mset (map ((!) xs) (ord (length xs) lt)) = image_mset ((!) xs) (mset [0..<length xs])"
    by (simp add: perm)
  also have "\<dots> = mset (map ((!) xs) [0..<length xs])" by simp
  also have "\<dots> = mset xs" by (simp only: map_nth)
  finally show ?thesis .
qed

lemma sorted_apply:
  assumes "strict_weak_on (set xs) lt"
  shows "sorted_wrt (\<lambda>x y. \<not> lt y x)
    (map ((!) xs) (ord (length xs) (less_at lt xs)))"
proof -
  have "set xs = (!) xs ` {..<length xs}"
    by (auto simp: set_conv_nth)
  then have "strict_weak_on {..<length xs} (\<lambda>i j. lt (xs ! i) (xs ! j))"
    using assms by (metis strict_weak_on_image)
  then have "strict_weak_on {..<length xs} (less_at lt xs)"
    by (rule strict_weak_on_agree) (simp add: less_at_def)
  then have "sorted_wrt (\<lambda>i j. \<not> less_at lt xs j i) (ord (length xs) (less_at lt xs))"
    by (rule sorted)
  then show ?thesis
    unfolding sorted_wrt_map
    by (rule sorted_wrt_mono_rel [rotated]) (simp add: less_at_def)
qed

end

text \<open>
  \<open>insertionSort_func\<close> of the package \<open>sort\<close>, which \<open>Slice\<close> runs on slices of up to 12 elements:
  each element moves left while it is less than its neighbour. \<open>ins_left\<close> works on the reversed
  prefix, so that the neighbour is at the head.
\<close>

fun ins_left :: "('a \<Rightarrow> 'a \<Rightarrow> bool) \<Rightarrow> 'a \<Rightarrow> 'a list \<Rightarrow> 'a list" where
  "ins_left lt x [] = [x]"
| "ins_left lt x (y # ys) = (if lt x y then y # ins_left lt x ys else x # y # ys)"

definition insertion_order :: "nat \<Rightarrow> (nat \<Rightarrow> nat \<Rightarrow> bool) \<Rightarrow> nat list" where
  "insertion_order n lt = rev (fold (ins_left lt) [0..<n] [])"

lemma mset_ins_left [simp]: "mset (ins_left lt x ys) = add_mset x (mset ys)"
  by (induction ys) auto

lemma set_ins_left [simp]: "set (ins_left lt x ys) = insert x (set ys)"
  by (induction ys) auto

lemma mset_fold_ins_left: "mset (fold (ins_left lt) xs ys) = mset xs + mset ys"
  by (induction xs arbitrary: ys) auto

lemma set_fold_ins_left [simp]: "set (fold (ins_left lt) xs ys) = set xs \<union> set ys"
  by (induction xs arbitrary: ys) auto

lemma sorted_ins_left:
  assumes "strict_weak_on (insert x (set ys)) lt"
    and "sorted_wrt (\<lambda>i j. \<not> lt i j) ys"
  shows "sorted_wrt (\<lambda>i j. \<not> lt i j) (ins_left lt x ys)"
  using assms
proof (induction ys)
  case (Cons y ys)
  have sw: "strict_weak_on (insert x (set ys)) lt"
    by (rule strict_weak_on_mono [OF Cons.prems(1)]) auto
  have sorted: "sorted_wrt (\<lambda>i j. \<not> lt i j) ys" and head: "\<forall>z\<in>set ys. \<not> lt y z"
    using Cons.prems(2) by auto
  show ?case
  proof (cases "lt x y")
    case True
    have "\<not> lt y x" by (rule strict_weak_on_asym [OF Cons.prems(1) _ _ True]) simp_all
    with True head Cons.IH [OF sw sorted] show ?thesis by simp
  next
    case False
    have "\<not> lt x z" if "z \<in> set ys" for z
      by (rule strict_weak_on_negtrans [OF Cons.prems(1), of x y]) (use False head that in auto)
    with False head sorted show ?thesis by simp
  qed
qed simp

lemma sorted_fold_ins_left:
  "strict_weak_on (set xs \<union> set ys) lt \<Longrightarrow> sorted_wrt (\<lambda>i j. \<not> lt i j) ys \<Longrightarrow>
   sorted_wrt (\<lambda>i j. \<not> lt i j) (fold (ins_left lt) xs ys)"
proof (induction xs arbitrary: ys)
  case (Cons x xs)
  have "strict_weak_on (insert x (set ys)) lt"
    by (rule strict_weak_on_mono [OF Cons.prems(1)]) auto
  then have "sorted_wrt (\<lambda>i j. \<not> lt i j) (ins_left lt x ys)"
    using Cons.prems(2) by (rule sorted_ins_left)
  moreover have "strict_weak_on (set xs \<union> set (ins_left lt x ys)) lt"
    using Cons.prems(1) by simp
  ultimately show ?case using Cons.IH by simp
qed simp

interpretation insertion: go_sort insertion_order
proof unfold_locales
  fix n :: nat and lt
  show "mset (insertion_order n lt) = mset [0..<n]"
    by (simp add: insertion_order_def mset_fold_ins_left)
  assume "strict_weak_on {..<n} lt"
  then have "sorted_wrt (\<lambda>i j. \<not> lt i j) (fold (ins_left lt) [0..<n] [])"
    by (intro sorted_fold_ins_left) (simp_all add: atLeast_upt)
  then show "sorted_wrt (\<lambda>i j. \<not> lt j i) (insertion_order n lt)"
    by (simp add: insertion_order_def sorted_wrt_rev)
qed

subsection \<open>The contract of the runtime\<close>

locale go_runtime = go_sort "sort_order E" for E :: "'z runtime_scheme" +
  assumes range_perm: "mset (range_order E p ks) = mset ks"
begin

lemma mset_go_range: "wf_map m \<Longrightarrow> mset (go_range E p m) = mset m"
  unfolding go_range_def by (rule mset_map_of_keys) (simp_all add: range_perm)

lemma set_go_range: "wf_map m \<Longrightarrow> set (go_range E p m) = set m"
  by (metis mset_go_range set_mset_mset)

lemma wf_map_go_range: "wf_map m \<Longrightarrow> wf_map (go_range E p m)"
  unfolding wf_map_def
  by (metis mset_go_range mset_map mset_eq_imp_distinct_iff wf_map_def)

lemma map_of_go_range: "wf_map m \<Longrightarrow> map_of (go_range E p m) k = map_of m k"
  by (rule wf_map_eqI) (simp_all add: wf_map_go_range set_go_range)

lemma mset_sort_slice [simp]: "mset (sort_slice E lt xs) = mset xs"
  unfolding sort_slice_def by (rule mset_apply)

lemma set_sort_slice [simp]: "set (sort_slice E lt xs) = set xs"
  by (metis mset_sort_slice set_mset_mset)

lemma length_sort_slice [simp]: "length (sort_slice E lt xs) = length xs"
  by (metis mset_sort_slice size_mset)

lemma distinct_sort_slice [simp]: "distinct (sort_slice E lt xs) = distinct xs"
  by (metis mset_sort_slice mset_eq_imp_distinct_iff)

lemma distinct_map_sort_slice [simp]:
  "distinct (map f (sort_slice E lt xs)) = distinct (map f xs)"
  by (metis mset_sort_slice mset_map mset_eq_imp_distinct_iff)

lemma sorted_sort_slice:
  "strict_weak_on (set xs) lt \<Longrightarrow> sorted_wrt (\<lambda>x y. \<not> lt y x) (sort_slice E lt xs)"
  unfolding sort_slice_def by (rule sorted_apply)

text \<open>Sorting by what a change of the elements leaves alone commutes with the change.\<close>

lemma sort_slice_map:
  assumes "\<And>x y. lt (f x) (f y) \<longleftrightarrow> lt x y"
  shows "sort_slice E lt (map f xs) = map f (sort_slice E lt xs)"
proof -
  have "less_at lt (map f xs) = less_at lt xs"
    by (intro ext) (auto simp: less_at_def assms)
  then show ?thesis by (simp add: sort_slice_def)
qed

end

text \<open>A runtime that ranges over maps in insertion order and reads one fixed clock.\<close>

definition plain_runtime :: "gotime \<Rightarrow> runtime" where
  "plain_runtime t = \<lparr>range_order = (\<lambda>p ks. ks), sort_order = insertion_order,
     now_at = (\<lambda>p. t), float_oor = (\<lambda>x. - (2 ^ 63))\<rparr>"

lemma go_runtimeI:
  "sort_order E = insertion_order \<Longrightarrow> (\<And>p ks. range_order E p ks = ks) \<Longrightarrow> go_runtime E"
  by unfold_locales (simp_all add: insertion.perm insertion.sorted)

interpretation plain: go_runtime "plain_runtime t" for t
  by (rule go_runtimeI) (simp_all add: plain_runtime_def)

end
