(* ===== verification/GoStrconv.thy ===== *)
theory GoStrconv
  imports GoRuntime
begin

text \<open>
  The conversions between numbers and decimal text the program uses: \<open>strconv.ParseInt(s, 10, 64)\<close>,
  the decimal form of an integer, and the verb \<open>%.4f\<close> of \<open>fmt.Sprintf\<close>. Strings are byte strings.
  The lemmas show that parsing inverts printing, accepts values of \<open>int64\<close> only, and how a fixed-point
  number reads.
\<close>

subsection \<open>Decimal digits\<close>

definition digit_chars :: string where
  "digit_chars = ''0123456789''"

text \<open>A byte \<open>c\<close> with \<open>'0' <= c && c <= '9'\<close> stands for \<open>c - '0'\<close>.\<close>

fun digit_val :: "char \<Rightarrow> int option" where
  "digit_val c = (let d = of_char c - 48 in if 0 \<le> d \<and> d \<le> 9 then Some d else None)"

fun digits_val :: "int \<Rightarrow> string \<Rightarrow> int option" where
  "digits_val acc [] = Some acc"
| "digits_val acc (c # cs) = (case digit_val c of None \<Rightarrow> None | Some d \<Rightarrow> digits_val (10 * acc + d) cs)"

text \<open>
  \<open>ParseInt\<close> reports an error for an empty number, a byte that is no digit, and a value outside
  \<open>int64\<close>; the callers only look at whether there was an error.
\<close>

definition parseUint :: "string \<Rightarrow> int option" where
  "parseUint s = (if s = [] then None else digits_val 0 s)"

definition parseInt64 :: "string \<Rightarrow> int option" where
  "parseInt64 s =
     (case s of
        [] \<Rightarrow> None
      | c # cs \<Rightarrow>
          (case parseUint (if c = CHR ''+'' \<or> c = CHR ''-'' then cs else s) of
             None \<Rightarrow> None
           | Some un \<Rightarrow>
               if c = CHR ''-'' then (if un \<le> 2 ^ 63 then Some (- un) else None)
               else (if un < 2 ^ 63 then Some un else None)))"

fun show_nat :: "nat \<Rightarrow> string" where
  "show_nat n = (if n < 10 then [digit_chars ! n] else show_nat (n div 10) @ [digit_chars ! (n mod 10)])"

declare show_nat.simps [simp del]

definition show_int :: "int \<Rightarrow> string" where
  "show_int n = (if n < 0 then CHR ''-'' # show_nat (nat (- n)) else show_nat (nat n))"

subsection \<open>Fixed-point text\<close>

definition pad4 :: "nat \<Rightarrow> string" where
  "pad4 n = [digit_chars ! (n div 1000 mod 10), digit_chars ! (n div 100 mod 10),
             digit_chars ! (n div 10 mod 10), digit_chars ! (n mod 10)]"

text \<open>\<open>fmt.Sprintf("%.4f", x)\<close>: the exact value rounded to four places, ties to even.\<close>

fun sprintf_4f :: "float64 \<Rightarrow> string" where
  "sprintf_4f NaN = ''NaN''"
| "sprintf_4f PInf = ''+Inf''"
| "sprintf_4f NInf = ''-Inf''"
| "sprintf_4f (Fin a) =
     (let n = nat (round_half_even (\<bar>a\<bar> * 10000)) in
      (if a < 0 then ''-'' else []) @ show_nat (n div 10000) @ ''.'' @ pad4 (n mod 10000))"

subsection \<open>Printing and parsing\<close>

lemma digit_val_chars [simp]: "n < 10 \<Longrightarrow> digit_val (digit_chars ! n) = Some (int n)"
proof -
  have "list_all (\<lambda>k. digit_val (digit_chars ! k) = Some (int k)) [0..<10]"
    by (simp add: digit_chars_def upt_rec)
  then show "n < 10 \<Longrightarrow> digit_val (digit_chars ! n) = Some (int n)"
    by (simp add: list_all_iff)
qed

lemma digit_val_range: "digit_val c = Some d \<Longrightarrow> 0 \<le> d \<and> d < 10"
  by (auto simp: Let_def split: if_splits)

declare digit_val.simps [simp del]

lemma digits_val_append:
  "digits_val acc (xs @ ys) = (case digits_val acc xs of None \<Rightarrow> None | Some a \<Rightarrow> digits_val a ys)"
  by (induction xs arbitrary: acc) (auto split: option.splits)

lemma digits_val_show_nat: "digits_val 0 (show_nat n) = Some (int n)"
proof (induction n rule: show_nat.induct)
  case (1 n)
  show ?case
  proof (cases "n < 10")
    case True
    then show ?thesis by (simp add: show_nat.simps [of n])
  next
    case False
    with "1.IH" have "digits_val 0 (show_nat (n div 10)) = Some (int (n div 10))" by simp
    with False show ?thesis
      by (simp add: show_nat.simps [of n] digits_val_append) (metis mult_div_mod_eq of_nat_add of_nat_mult of_nat_numeral)
  qed
qed

lemma digit_val_sign [simp]: "digit_val CHR ''-'' = None" "digit_val CHR ''+'' = None"
  by (simp_all add: digit_val.simps)

lemma digits_val_nonneg: "0 \<le> acc \<Longrightarrow> digits_val acc s = Some n \<Longrightarrow> 0 \<le> n"
proof (induction s arbitrary: acc)
  case (Cons c s)
  then obtain d where "digit_val c = Some d" and d: "digits_val (10 * acc + d) s = Some n"
    by (auto split: option.splits)
  then have "0 \<le> 10 * acc + d" using Cons.prems(1) digit_val_range by fastforce
  then show ?case using d by (rule Cons.IH)
qed simp

lemma parseUint_nonneg: "parseUint s = Some n \<Longrightarrow> 0 \<le> n"
  by (auto simp del: digits_val.simps simp: parseUint_def split: if_splits intro: digits_val_nonneg [of 0])

lemma show_nat_not_Nil [simp]: "show_nat n \<noteq> []"
  by (simp add: show_nat.simps [of n])

lemma show_nat_head: "show_nat n = c # cs \<Longrightarrow> c \<noteq> CHR ''-'' \<and> c \<noteq> CHR ''+''"
  using digits_val_show_nat [of n] by auto

lemma parseInt64_show_int:
  assumes "in_int64 n"
  shows "parseInt64 (show_int n) = Some n"
proof (cases "n < 0")
  case True
  with assms show ?thesis
    by (simp add: parseInt64_def show_int_def parseUint_def digits_val_show_nat in_int64_def)
next
  case False
  obtain c cs where s: "show_nat (nat n) = c # cs"
    by (metis list.exhaust show_nat_not_Nil)
  have "digits_val 0 (c # cs) = Some n" using False digits_val_show_nat [of "nat n"] by (simp add: s)
  with show_nat_head [OF s] False assms show ?thesis
    by (simp add: parseInt64_def show_int_def parseUint_def s in_int64_def del: digits_val.simps)
qed

lemma parseInt64_range: "parseInt64 s = Some n \<Longrightarrow> in_int64 n"
  by (auto simp: parseInt64_def in_int64_def split: list.splits option.splits if_splits
      dest: parseUint_nonneg)

lemma parseInt64_Nil [simp]: "parseInt64 [] = None"
  by (simp add: parseInt64_def)

end
