(* ===== verification/KubeTypes.thy ===== *)
theory KubeTypes
  imports GoStrconv
begin

text \<open>
  The Kubernetes objects the program reads (packages \<open>corev1\<close>, \<open>policyv1\<close>, \<open>schedulingv1\<close> and
  \<open>metav1\<close>), with the fields it uses, and the operations of those packages it calls. The packages
  are not part of the repository: their operations are the fields of \<open>kube_env\<close>, and every
  definition that calls one takes the environment as an argument.

  A \<open>resource.Quantity\<close> is a fixed-point number; it is represented in units of 10^-9, the finest scale
  of the package. What \<open>Value\<close>, \<open>MilliValue\<close> and \<open>Add\<close> compute from it is left to the environment. A
  compiled \<open>labels.Selector\<close> is the predicate on label sets its method \<open>Matches\<close> computes.
\<close>

type_synonym quantity = int
type_synonym resource_list = "quantity gomap"
type_synonym nsname = "string \<times> string"
type_synonym selector = "labels \<Rightarrow> bool"

record taint =
  taint_key :: string
  taint_value :: string
  taint_effect :: string

record toleration =
  tol_key :: string
  tol_operator :: string
  tol_value :: string
  tol_effect :: string

text \<open>Both \<open>corev1.NodeSelectorRequirement\<close> and \<open>metav1.LabelSelectorRequirement\<close>.\<close>

record selector_req =
  req_key :: string
  req_operator :: string
  req_values :: "string list"

record node_selector_term =
  term_expressions :: "selector_req list"
  term_fields :: "selector_req list"

record label_selector =
  sel_labels :: labels
  sel_expressions :: "selector_req list"

record pod_affinity_term =
  aff_selector :: "label_selector option"
  aff_namespaces :: "string list"
  aff_topologyKey :: string

text \<open>
  \<open>nodeAffinity\<close> is the pointer to \<open>corev1.NodeAffinity\<close>, which holds the pointer to its required
  node selector (a list of terms); the two pod affinities hold their required terms.
\<close>

record affinity =
  nodeAffinity :: "node_selector_term list option option"
  podAffinity :: "pod_affinity_term list option"
  podAntiAffinity :: "pod_affinity_term list option"

record container =
  c_requests :: resource_list
  c_limits :: resource_list

text \<open>A volume source that is set: \<open>emptyDir\<close> with its optional size limit, \<open>hostPath\<close> with its path.\<close>

record volume =
  emptyDir :: "quantity option option"
  hostPath :: "string option"

record pod_condition =
  cond_type :: string
  cond_status :: string
  cond_transition :: gotime

record owner_reference =
  owner_kind :: string
  owner_name :: string
  owner_uid :: string
  owner_controller :: "bool option"

record pod =
  pod_name :: string
  pod_namespace :: string
  pod_uid :: string
  pod_labels :: labels
  pod_annotations :: labels
  pod_owners :: "owner_reference list"
  pod_nodeName :: string
  pod_priority :: "int option"
  pod_priorityClass :: string
  pod_containers :: "container list"
  pod_tolerations :: "toleration list"
  pod_nodeSelector :: labels
  pod_affinity :: "affinity option"
  pod_volumes :: "volume list"
  pod_conditions :: "pod_condition list"

record node =
  node_name :: string
  node_labels :: labels
  node_taints :: "taint list"
  node_allocatable :: resource_list

record pdb =
  pdb_namespace :: string
  pdb_selector :: "label_selector option"
  pdb_allowed :: int

record priority_class =
  pc_name :: string
  pc_value :: int

subsection \<open>The packages the program calls\<close>

text \<open>
  \<^item> \<open>cpu_milli\<close>: \<open>list.Cpu().MilliValue()\<close>, an \<open>int64\<close>;
  \<^item> \<open>mem_value\<close>: \<open>list.Memory().Value()\<close>, an \<open>int64\<close>;
  \<^item> \<open>qty_value\<close>: \<open>q.Value()\<close>, an \<open>int64\<close>;
  \<^item> \<open>qty_add\<close>: the value of \<open>q\<close> after \<open>q.Add(v)\<close>;
  \<^item> \<open>as_selector\<close>: \<open>metav1.LabelSelectorAsSelector\<close>, \<open>None\<close> when it returns an error.
\<close>

record kube_env = runtime +
  cpu_milli :: "resource_list \<Rightarrow> int"
  mem_value :: "resource_list \<Rightarrow> int"
  qty_value :: "quantity \<Rightarrow> int"
  qty_add :: "quantity \<Rightarrow> quantity \<Rightarrow> quantity"
  as_selector :: "label_selector \<Rightarrow> selector option"

text \<open>\<open>labels.Everything()\<close>, the selector that matches every label set.\<close>

definition labels_Everything :: selector where
  "labels_Everything = (\<lambda>ls. True)"

text \<open>
  An environment to run examples in: quantities are read as whole numbers of bytes and of
  milli-units, a selector matches when every listed label has the listed value, and one with
  expressions does not compile.
\<close>

definition plain_env :: "gotime \<Rightarrow> kube_env" where
  "plain_env t = \<lparr>range_order = (\<lambda>p ks. ks), sort_order = insertion_order,
     now_at = (\<lambda>p. t), float_oor = (\<lambda>x. - (2 ^ 63)),
     cpu_milli = (\<lambda>rl. case map_of rl ''cpu'' of None \<Rightarrow> 0 | Some q \<Rightarrow> q div 1000000),
     mem_value = (\<lambda>rl. case map_of rl ''memory'' of None \<Rightarrow> 0 | Some q \<Rightarrow> q div 1000000000),
     qty_value = (\<lambda>q. q div 1000000000),
     qty_add = (+),
     as_selector = (\<lambda>s. if sel_expressions s = []
       then Some (\<lambda>ls. \<forall>(k, v) \<in> set (sel_labels s). map_of ls k = Some v) else None)\<rparr>"

lemma plain_env_sel [simp]:
  "range_order (plain_env t) p ks = ks"
  "sort_order (plain_env t) = insertion_order"
  "now_at (plain_env t) p = t"
  "float_oor (plain_env t) x = - (2 ^ 63)"
  "cpu_milli (plain_env t) rl = (case map_of rl ''cpu'' of None \<Rightarrow> 0 | Some q \<Rightarrow> q div 1000000)"
  "mem_value (plain_env t) rl = (case map_of rl ''memory'' of None \<Rightarrow> 0 | Some q \<Rightarrow> q div 1000000000)"
  "qty_value (plain_env t) q = q div 1000000000"
  "qty_add (plain_env t) = (+)"
  by (simp_all add: plain_env_def)

lemma plain_env_selector [simp]:
  "as_selector (plain_env t) s = (if sel_expressions s = []
     then Some (\<lambda>ls. \<forall>(k, v) \<in> set (sel_labels s). map_of ls k = Some v) else None)"
  by (simp add: plain_env_def)

interpretation plain_env: go_runtime "plain_env t" for t
  by (rule go_runtimeI) simp_all

lemma go_runtime_plain_env: "go_runtime (plain_env t)"
  by (rule plain_env.go_runtime_axioms)

subsection \<open>Errors\<close>

text \<open>
  \<open>ErrNew\<close> is an error with a message only, \<open>ErrStatus\<close> an API status with reason, HTTP code and
  message, \<open>ErrWrap\<close> the result of \<open>fmt.Errorf("prefix: %w", err)\<close>.
\<close>

datatype err = ErrNew string | ErrStatus string int string | ErrWrap string err

fun err_msg :: "err \<Rightarrow> string" where
  "err_msg (ErrNew m) = m"
| "err_msg (ErrStatus r c m) = m"
| "err_msg (ErrWrap pre e) = pre @ '': '' @ err_msg e"

text \<open>\<open>v, err := r; if err != nil { return wrap(err) }\<close>\<close>

definition attempt :: "(err \<Rightarrow> err) \<Rightarrow> err + 'a \<Rightarrow> ('a \<Rightarrow> err + 'b) \<Rightarrow> err + 'b" where
  "attempt wrap r f = (case r of Inl e \<Rightarrow> Inl (wrap e) | Inr v \<Rightarrow> f v)"

lemma attempt_simps [simp]: "attempt wrap (Inl e) f = Inl (wrap e)" "attempt wrap (Inr v) f = f v"
  by (simp_all add: attempt_def)

lemma attempt_InrE:
  assumes "attempt wrap r f = Inr b"
  obtains a where "r = Inr a" and "f a = Inr b"
  using assms by (cases r) auto

text \<open>Every pointer-free object has a zero value; these are the ones examples start from.\<close>

definition blank_pod :: pod where
  "blank_pod = \<lparr>pod_name = [], pod_namespace = [], pod_uid = [], pod_labels = [], pod_annotations = [],
     pod_owners = [], pod_nodeName = [], pod_priority = None, pod_priorityClass = [], pod_containers = [],
     pod_tolerations = [], pod_nodeSelector = [], pod_affinity = None, pod_volumes = [], pod_conditions = []\<rparr>"

definition blank_node :: node where
  "blank_node = \<lparr>node_name = [], node_labels = [], node_taints = [], node_allocatable = []\<rparr>"

lemma go_range_plain_env [simp]:
  "wf_map m \<Longrightarrow> go_range (plain_env t) p m = m"
proof -
  assume "wf_map m"
  have "List.map_filter (\<lambda>k. map_option (Pair k) (map_of m k)) (map fst xs) = xs"
    if "set xs \<subseteq> set m" for xs
    using that
  proof (induction xs)
    case (Cons e xs)
    obtain k v where e: "e = (k, v)" by (cases e)
    then have "map_of m k = Some v" using Cons.prems \<open>wf_map m\<close> by (simp add: wf_map_map_of_SomeI)
    with Cons e show ?case by (simp add: List.map_filter_def)
  qed (simp add: List.map_filter_def)
  then show ?thesis by (simp add: go_range_def)
qed

end
