(* ===== verification/ApiTypes.thy ===== *)
theory ApiTypes
  imports KubeTypes
begin

text \<open>
  The program's own data: the custom resources of \<open>api/v1\<close>, the usage figures of \<open>pkg/metrics/types.go\<close>
  and the types of \<open>controllers/planner/planner.go\<close>. A Go struct is a record with a field per member;
  \<open>metav1.TypeMeta\<close> and the object metadata nobody reads are left out.

  \<open>Snapshot.Nodes\<close> is a map of pointers to \<open>NodeState\<close>, and the planner passes those pointers around
  in its lists of hot and cold nodes. The map is the only owner, so it serves as the store: a pointer
  is the key under which the map holds the node (\<open>node_ref\<close>), and writing through a pointer updates
  the map. \<open>Snapshot.Pods\<close> is a list whose elements are written once, by \<open>filterCandidates\<close>.
\<close>

subsection \<open>Custom resources (\<open>api/v1\<close>)\<close>

record namespace_selector =
  ns_include :: "string list"
  ns_exclude :: "string list"

record resource_weights =
  weight_cpu :: float64
  weight_memory :: float64

record policy_spec =
  targetVariance :: float64
  hotThreshold :: float64
  coldThreshold :: float64
  hysteresis :: float64
  maxEvictionsPerMinute :: int
  namespaces :: namespace_selector
  workloadSelectors :: "label_selector list"
  resourceWeights :: resource_weights
  respectPodPriority :: bool
  respectPDB :: bool
  dryRun :: bool
  backoffDuration :: "duration option"
  maxEvictionsPerNamespace :: int
  nodeClassPreference :: "string list"

record plan_status =
  st_hotNodes :: int
  st_coldNodes :: int
  st_variance :: float64
  st_planned :: int
  st_executed :: int
  st_lastExecution :: "gotime option"
  st_dryRun :: bool
  st_message :: string

record policy_status =
  observedGeneration :: int
  status_plan :: plan_status

record policy =
  policy_name :: string
  policy_generation :: int
  policy_spec :: policy_spec
  policy_status :: policy_status

record workload_slo =
  slo_namespace :: string
  maxDisruptionsPerHour :: int
  minReadySeconds :: int
  allowStatefulSetEviction :: bool
  protectedLabels :: labels

record node_class =
  class_name :: string
  class_labels :: labels
  class_expressions :: "selector_req list"
  preferredFor :: "string list"
  class_weight :: int

subsection \<open>Usage figures (\<open>pkg/metrics/types.go\<close>)\<close>

text \<open>A nil \<open>Custom\<close> map is \<open>None\<close>: the provider tells it from an empty one.\<close>

record usage =
  cpuCores :: float64
  memoryBytes :: int
  window :: duration
  timestamp :: gotime
  custom :: "float64 gomap option"

definition zero_usage :: usage where
  "zero_usage = \<lparr>cpuCores = Fin 0, memoryBytes = 0, window = 0, timestamp = 0, custom = None\<rparr>"

subsection \<open>Planner types (\<open>controllers/planner/planner.go\<close>)\<close>

text \<open>\<open>NodeUnset\<close> is the empty string a node carries before it has been classified.\<close>

datatype node_temperature = NodeUnset | NodeCold | NodeOK | NodeHot

instantiation node_temperature :: linorder
begin

fun temperature_rank :: "node_temperature \<Rightarrow> nat" where
  "temperature_rank NodeUnset = 0"
| "temperature_rank NodeCold = 1"
| "temperature_rank NodeOK = 2"
| "temperature_rank NodeHot = 3"

definition less_eq_node_temperature :: "node_temperature \<Rightarrow> node_temperature \<Rightarrow> bool" where
  "less_eq_node_temperature a b \<longleftrightarrow> temperature_rank a \<le> temperature_rank b"

definition less_node_temperature :: "node_temperature \<Rightarrow> node_temperature \<Rightarrow> bool" where
  "less_node_temperature a b \<longleftrightarrow> temperature_rank a < temperature_rank b"

instance
proof
  fix x y z :: node_temperature
  show "x < y \<longleftrightarrow> x \<le> y \<and> \<not> y \<le> x"
    by (auto simp: less_eq_node_temperature_def less_node_temperature_def)
  show "x \<le> x" by (simp add: less_eq_node_temperature_def)
  show "x \<le> y \<Longrightarrow> y \<le> z \<Longrightarrow> x \<le> z" by (simp add: less_eq_node_temperature_def)
  show "x \<le> y \<Longrightarrow> y \<le> x \<Longrightarrow> x = y"
    by (cases x; cases y) (simp_all add: less_eq_node_temperature_def)
  show "x \<le> y \<or> y \<le> x" by (auto simp: less_eq_node_temperature_def)
qed

end

record utilization =
  util_cpu :: float64
  util_memory :: float64
  util_weighted :: float64

definition zero_utilization :: utilization where
  "zero_utilization = \<lparr>util_cpu = Fin 0, util_memory = Fin 0, util_weighted = Fin 0\<rparr>"

record node_state =
  ns_object :: node
  ns_usage :: usage
  ns_utilization :: utilization
  ns_classification :: node_temperature
  ns_lastUpdated :: gotime
  ns_classes :: "string list"

type_synonym node_ref = string

record pod_state =
  ps_object :: pod
  ps_priority :: int
  ps_requests :: resource_list
  ps_limits :: resource_list
  ps_controllerKind :: string
  ps_controllerName :: string
  ps_ownerUID :: string
  ps_nodeName :: string
  ps_customMetrics :: "float64 gomap option"
  ps_lastEvicted :: "gotime option"
  ps_slo :: "workload_slo option"
  ps_matchesPolicy :: bool
  ps_backoffRemaining :: duration

record snapshot =
  snap_nodes :: "node_state gomap"
  snap_pods :: "pod_state list"
  snap_pdbs :: "pdb list"
  snap_slos :: "workload_slo gomap"
  snap_nodeClasses :: "node_class gomap"
  snap_priorityClasses :: "priority_class gomap"

record plan_eviction =
  ev_pod :: pod
  ev_fromNode :: string
  ev_targets :: "string list"
  ev_score :: float64
  ev_reason :: string
  ev_allowed :: bool
  ev_namespace :: string

record plan_stats =
  stat_hotNodes :: int
  stat_coldNodes :: int
  stat_variance :: float64
  stat_targetVariance :: float64

record plan =
  plan_evictions :: "plan_eviction list"
  plan_requeueAfter :: duration
  plan_stats :: plan_stats
  plan_budgets :: "int gomap"

text \<open>The part of \<open>Planner\<close> that changes: eviction times per pod and per namespace, and its option.\<close>

record planner =
  history :: "(nsname \<times> gotime) list"
  nsHistory :: "gotime list gomap"
  emptyDirLimitGi :: int

text \<open>The key under which the evictions of a pod are recorded.\<close>

definition pod_key :: "pod \<Rightarrow> nsname" where
  "pod_key p = (pod_namespace p, pod_name p)"

text \<open>Zero values that examples start from.\<close>

definition blank_pod_state :: pod_state where
  "blank_pod_state = \<lparr>ps_object = blank_pod, ps_priority = 0, ps_requests = [], ps_limits = [],
     ps_controllerKind = [], ps_controllerName = [], ps_ownerUID = [], ps_nodeName = [],
     ps_customMetrics = None, ps_lastEvicted = None, ps_slo = None, ps_matchesPolicy = False,
     ps_backoffRemaining = 0\<rparr>"

definition blank_node_state :: node_state where
  "blank_node_state = \<lparr>ns_object = blank_node, ns_usage = zero_usage, ns_utilization = zero_utilization,
     ns_classification = NodeUnset, ns_lastUpdated = 0, ns_classes = []\<rparr>"

definition blank_snapshot :: snapshot where
  "blank_snapshot = \<lparr>snap_nodes = [], snap_pods = [], snap_pdbs = [], snap_slos = [],
     snap_nodeClasses = [], snap_priorityClasses = []\<rparr>"

lemmas blank_defs = blank_pod_def blank_node_def blank_pod_state_def blank_node_state_def
  blank_snapshot_def zero_usage_def zero_utilization_def

end
