(* ===== verification/EvictionHistory.thy ===== *)
theory EvictionHistory
  imports ApiTypes
begin

text \<open>
  The planner's memory of evictions (\<open>New\<close>, \<open>lastEvicted\<close>, \<open>RecordEviction\<close>, \<open>canDisruptNamespace\<close> and
  \<open>remainingNamespaceBudget\<close> of \<open>controllers/planner/planner.go\<close>). Each method takes the planner
  state and the clock reading it makes, and returns the new state; the mutex makes each of them one
  step.

  The locale \<open>eviction_history\<close> states what the rest of the planner relies on: the last eviction of a
  pod, and the number of evictions of a namespace in the last hour, as functions of the sequence of
  recordings, whatever pruning happens in between; \<open>OperatorLog\<close> applies it to whole runs. It is interpreted on the planner's own functions.
\<close>

definition DefaultEmptyDirThresholdGi :: int where
  "DefaultEmptyDirThresholdGi = 2"

definition defaultBackoff :: duration where
  "defaultBackoff = 15 * minute"

text \<open>\<open>New\<close>, for the option that is a number; a missing clock becomes the real one.\<close>

definition New :: "int \<Rightarrow> planner" where
  "New emptyDirLimit = \<lparr>history = [], nsHistory = [],
     emptyDirLimitGi = (if emptyDirLimit = 0 then DefaultEmptyDirThresholdGi else emptyDirLimit)\<rparr>"

definition lastEvicted :: "planner \<Rightarrow> nsname \<Rightarrow> gotime option" where
  "lastEvicted pl name = map_of (history pl) name"

text \<open>The loop over the history of a namespace that three methods share.\<close>

definition pruned :: "gotime \<Rightarrow> gotime list \<Rightarrow> gotime list" where
  "pruned now hist = (let cutoff = now - hour in compact_in_place (\<lambda>ts. ts > cutoff) hist)"

definition RecordEviction :: "gotime \<Rightarrow> nsname \<Rightarrow> planner \<Rightarrow> planner" where
  "RecordEviction now pod pl =
     (let filtered = pruned now (slice_at (nsHistory pl) (fst pod)) @ [now] in
      pl\<lparr>history := AList.update pod now (history pl),
         nsHistory := AList.update (fst pod) filtered (nsHistory pl)\<rparr>)"

definition storePruned :: "gotime \<Rightarrow> string \<Rightarrow> planner \<Rightarrow> planner" where
  "storePruned now ns pl =
     pl\<lparr>nsHistory := AList.update ns (pruned now (slice_at (nsHistory pl) ns)) (nsHistory pl)\<rparr>"

definition canDisruptNamespace ::
    "gotime \<Rightarrow> string \<Rightarrow> policy_spec \<Rightarrow> workload_slo option \<Rightarrow> int \<Rightarrow> planner \<Rightarrow> bool \<times> planner" where
  "canDisruptNamespace now ns spec slo currentPlanCount pl =
     (if maxEvictionsPerNamespace spec > 0 \<and> currentPlanCount \<ge> maxEvictionsPerNamespace spec
      then (False, pl)
      else (case slo of
          None \<Rightarrow> (True, pl)
        | Some s \<Rightarrow>
            if maxDisruptionsPerHour s = 0 then (True, pl)
            else
              let filtered = pruned now (slice_at (nsHistory pl) ns) in
              if int (length filtered) \<ge> maxDisruptionsPerHour s
              then (False, pl\<lparr>nsHistory := AList.update ns filtered (nsHistory pl)\<rparr>)
              else (True, pl\<lparr>nsHistory := AList.update ns filtered (nsHistory pl)\<rparr>)))"

definition remainingNamespaceBudget ::
    "gotime \<Rightarrow> string \<Rightarrow> policy_spec \<Rightarrow> workload_slo option \<Rightarrow> planner \<Rightarrow> int \<times> planner" where
  "remainingNamespaceBudget now ns spec slo pl =
     (let limit = (if maxEvictionsPerNamespace spec > 0 then maxEvictionsPerNamespace spec else - 1) in
      case slo of
        None \<Rightarrow> (limit, pl)
      | Some s \<Rightarrow>
          if maxDisruptionsPerHour s > 0 then
            let filtered = pruned now (slice_at (nsHistory pl) ns);
                pl' = pl\<lparr>nsHistory := AList.update ns filtered (nsHistory pl)\<rparr>;
                left = maxDisruptionsPerHour s - int (length filtered);
                remaining = (if left < 0 then 0 else left) in
            (if limit = - 1 \<or> remaining < limit then remaining else limit, pl')
          else (limit, pl))"

subsection \<open>Interface: a log of evictions\<close>

text \<open>How many evictions of a namespace the planner remembers within the hour before \<open>now\<close>.\<close>

definition recentEvictions :: "planner \<Rightarrow> string \<Rightarrow> gotime \<Rightarrow> nat" where
  "recentEvictions pl ns now = length (filter (\<lambda>ts. ts > now - hour) (slice_at (nsHistory pl) ns))"

datatype log_event = Recorded gotime nsname | Pruned gotime string

fun event_time :: "log_event \<Rightarrow> gotime" where
  "event_time (Recorded t k) = t"
| "event_time (Pruned t ns) = t"

fun apply_event :: "(gotime \<Rightarrow> nsname \<Rightarrow> 's \<Rightarrow> 's) \<Rightarrow> (gotime \<Rightarrow> string \<Rightarrow> 's \<Rightarrow> 's) \<Rightarrow> log_event \<Rightarrow> 's \<Rightarrow> 's" where
  "apply_event rec prn (Recorded t k) s = rec t k s"
| "apply_event rec prn (Pruned t ns) s = prn t ns s"

text \<open>What the log itself says: the last recording of a pod, the recordings of a namespace since a time.\<close>

fun log_last :: "log_event list \<Rightarrow> nsname \<Rightarrow> gotime option" where
  "log_last [] k = None"
| "log_last (e # es) k = (case log_last es k of
     Some t \<Rightarrow> Some t
   | None \<Rightarrow> (case e of Recorded t k' \<Rightarrow> if k' = k then Some t else None | Pruned t ns \<Rightarrow> None))"

fun recorded_since :: "gotime \<Rightarrow> string \<Rightarrow> log_event \<Rightarrow> bool" where
  "recorded_since t ns (Recorded u k) \<longleftrightarrow> fst k = ns \<and> t < u"
| "recorded_since t ns (Pruned u n) \<longleftrightarrow> False"

definition log_recent :: "log_event list \<Rightarrow> string \<Rightarrow> gotime \<Rightarrow> nat" where
  "log_recent es ns now = length (filter (recorded_since (now - hour) ns) es)"

locale eviction_history =
  fixes last :: "'s \<Rightarrow> nsname \<Rightarrow> gotime option"
    and recent :: "'s \<Rightarrow> string \<Rightarrow> gotime \<Rightarrow> nat"
    and rec :: "gotime \<Rightarrow> nsname \<Rightarrow> 's \<Rightarrow> 's"
    and prn :: "gotime \<Rightarrow> string \<Rightarrow> 's \<Rightarrow> 's"
  assumes last_rec: "last (rec t k s) k' = (if k' = k then Some t else last s k')"
    and last_prn: "last (prn t ns s) k = last s k"
    and recent_rec: "t \<le> now \<Longrightarrow>
      recent (rec t k s) ns now = recent s ns now + (if fst k = ns \<and> now - hour < t then 1 else 0)"
    and recent_prn: "t \<le> now \<Longrightarrow> recent (prn t n s) ns now = recent s ns now"
begin

abbreviation "run es s \<equiv> fold (apply_event rec prn) es s"

lemma last_run: "last (run es s) k = (case log_last es k of Some t \<Rightarrow> Some t | None \<Rightarrow> last s k)"
proof (induction es arbitrary: s)
  case (Cons e es)
  then show ?case by (cases e) (auto simp: last_rec last_prn split: option.splits)
qed simp

lemma recent_run:
  "(\<And>e. e \<in> set es \<Longrightarrow> event_time e \<le> now) \<Longrightarrow> recent (run es s) ns now = recent s ns now + log_recent es ns now"
proof (induction es arbitrary: s)
  case (Cons e es)
  have "recent (run es s') ns now = recent s' ns now + log_recent es ns now" for s'
    using Cons.prems by (intro Cons.IH) simp
  moreover have "event_time e \<le> now" using Cons.prems by simp
  ultimately show ?case
    by (cases e) (auto simp: recent_rec recent_prn log_recent_def)
qed (simp add: log_recent_def)

text \<open>A recorded eviction is never forgotten and never moves back in time.\<close>

lemma last_run_ge:
  assumes "\<And>e. e \<in> set es \<Longrightarrow> t \<le> event_time e" and "last s k = Some t"
  shows "\<exists>t'. last (run es s) k = Some t' \<and> t \<le> t'"
proof -
  have "\<forall>e\<in>set es. t \<le> event_time e" using assms(1) by blast
  then have "t \<le> u" if "log_last es k = Some u" for u
    using that
  proof (induction es)
    case (Cons e es)
    then show ?case by (cases e) (auto split: option.splits if_splits)
  qed simp
  with assms(2) show ?thesis by (auto simp: last_run split: option.splits)
qed

end

lemma pruned_filter [simp]: "pruned now h = filter (\<lambda>ts. ts > now - hour) h"
  by (simp add: pruned_def)

lemma filter_window_later:
  "t \<le> now \<Longrightarrow> filter (\<lambda>ts. ts > now - hour) (filter (\<lambda>ts. ts > t - hour) h) = filter (\<lambda>ts. ts > now - hour) (h :: int list)"
  by (auto simp: filter_filter intro!: filter_cong)

interpretation planner_log: eviction_history lastEvicted recentEvictions RecordEviction storePruned
proof unfold_locales
  fix t now :: gotime and k k' :: nsname and s :: planner and ns n :: string
  show "lastEvicted (RecordEviction t k s) k' = (if k' = k then Some t else lastEvicted s k')"
    by (simp add: lastEvicted_def RecordEviction_def map_of_update)
  show "lastEvicted (storePruned t ns s) k = lastEvicted s k"
    by (simp add: lastEvicted_def storePruned_def)
  assume "t \<le> now"
  then show "recentEvictions (RecordEviction t k s) ns now =
      recentEvictions s ns now + (if fst k = ns \<and> now - hour < t then 1 else 0)"
    by (auto simp: recentEvictions_def RecordEviction_def Let_def filter_window_later simp del: filter_filter)
  show "recentEvictions (storePruned t n s) ns now = recentEvictions s ns now"
    using \<open>t \<le> now\<close>
    by (auto simp: recentEvictions_def storePruned_def filter_window_later simp del: filter_filter)
qed

subsection \<open>The budget questions as functions of the log\<close>

text \<open>A budget question changes the planner only by pruning the history of its namespace.\<close>

lemma snd_canDisruptNamespace:
  "snd (canDisruptNamespace now ns spec slo c pl) \<in> {pl, storePruned now ns pl}"
  by (auto simp: canDisruptNamespace_def storePruned_def Let_def split: option.splits)

lemma snd_remainingNamespaceBudget:
  "snd (remainingNamespaceBudget now ns spec slo pl) \<in> {pl, storePruned now ns pl}"
  by (auto simp: remainingNamespaceBudget_def storePruned_def Let_def split: option.splits)

lemma fst_canDisruptNamespace:
  "fst (canDisruptNamespace now ns spec slo c pl) \<longleftrightarrow>
     \<not> (maxEvictionsPerNamespace spec > 0 \<and> c \<ge> maxEvictionsPerNamespace spec)
     \<and> (\<forall>s. slo = Some s \<longrightarrow> maxDisruptionsPerHour s = 0
           \<or> int (recentEvictions pl ns now) < maxDisruptionsPerHour s)"
  by (auto simp: canDisruptNamespace_def recentEvictions_def Let_def split: option.splits)

lemma recentEvictions_New [simp]: "recentEvictions (New n) ns now = 0"
  by (simp add: recentEvictions_def New_def)

lemma lastEvicted_New [simp]: "lastEvicted (New n) k = None"
  by (simp add: lastEvicted_def New_def)

definition events_until :: "gotime \<Rightarrow> log_event list \<Rightarrow> bool" where
  "events_until now es \<longleftrightarrow> (\<forall>e\<in>set es. event_time e \<le> now)"

lemma recent_events_until:
  "events_until now es \<Longrightarrow>
   recentEvictions (fold (apply_event RecordEviction storePruned) es pl) ns now
     = recentEvictions pl ns now + log_recent es ns now"
  by (rule planner_log.recent_run) (simp add: events_until_def)

text \<open>
  The planner's pruned histories refine the full log. After any sequence of recordings and prunings
  made no later than \<open>now\<close>, the last eviction of a pod is its last recording in the log, and the
  number of remembered evictions of a namespace in the last hour is the number of recordings in the
  log that fall in it: pruning in place never loses one that still counts.
\<close>

lemma planner_refines_log:
  assumes "events_until now es"
  shows "lastEvicted (fold (apply_event RecordEviction storePruned) es (New n)) k = log_last es k
    \<and> recentEvictions (fold (apply_event RecordEviction storePruned) es (New n)) ns now
        = log_recent es ns now"
  using recent_events_until [OF assms] by (simp add: planner_log.last_run split: option.splits)

text \<open>
  The namespace gate as a function of the log. It opens exactly when the per-plan cap is off or not
  reached, and the namespace has no hourly cap or fewer logged evictions in the last hour than the cap.
\<close>

lemma canDisruptNamespace_log:
  assumes "events_until now es"
  shows "fst (canDisruptNamespace now ns spec slo c
      (fold (apply_event RecordEviction storePruned) es (New n))) \<longleftrightarrow>
    (maxEvictionsPerNamespace spec \<le> 0 \<or> c < maxEvictionsPerNamespace spec)
    \<and> (case slo of None \<Rightarrow> True
        | Some s \<Rightarrow> maxDisruptionsPerHour s = 0 \<or> int (log_recent es ns now) < maxDisruptionsPerHour s)"
  using recent_events_until [OF assms]
  by (auto simp: fst_canDisruptNamespace split: option.splits)

definition example_spec :: policy_spec where
  "example_spec = \<lparr>targetVariance = Fin 0, hotThreshold = Fin (3/4), coldThreshold = Fin (1/2),
     hysteresis = Fin 0, maxEvictionsPerMinute = 3,
     namespaces = \<lparr>ns_include = [''*''], ns_exclude = [''kube-system'']\<rparr>, workloadSelectors = [],
     resourceWeights = \<lparr>weight_cpu = Fin (3/4), weight_memory = Fin (1/4)\<rparr>, respectPodPriority = True,
     respectPDB = True, dryRun = False, backoffDuration = None, maxEvictionsPerNamespace = 0,
     nodeClassPreference = []\<rparr>"

definition example_slo :: workload_slo where
  "example_slo = \<lparr>slo_namespace = ''prod'', maxDisruptionsPerHour = 1, minReadySeconds = 0,
     allowStatefulSetEviction = False, protectedLabels = []\<rparr>"

lemma fst_remainingNamespaceBudget:
  "fst (remainingNamespaceBudget now ns spec slo pl) =
     (let cap = maxEvictionsPerNamespace spec;
          left = (\<lambda>s. max 0 (maxDisruptionsPerHour s - int (recentEvictions pl ns now))) in
      case slo of
        None \<Rightarrow> if cap > 0 then cap else - 1
      | Some s \<Rightarrow> if maxDisruptionsPerHour s > 0
          then (if cap > 0 then min cap (left s) else left s)
          else (if cap > 0 then cap else - 1))"
  by (auto simp: remainingNamespaceBudget_def recentEvictions_def Let_def split: option.splits)

text \<open>
  The reported budget and the gate agree. For the caps the API admits, the remaining budget is -1
  exactly when nothing limits the namespace, is otherwise at least 0 and within each cap that applies,
  and is 0 exactly when the gate refuses the first eviction of a plan.
\<close>

lemma remainingNamespaceBudget_gate:
  assumes "\<And>s. slo = Some s \<Longrightarrow> 0 \<le> maxDisruptionsPerHour s"
  shows "let r = fst (remainingNamespaceBudget now ns spec slo pl) in
    (r = - 1 \<longleftrightarrow> maxEvictionsPerNamespace spec \<le> 0
        \<and> (\<forall>s. slo = Some s \<longrightarrow> maxDisruptionsPerHour s = 0))
    \<and> - 1 \<le> r
    \<and> (maxEvictionsPerNamespace spec > 0 \<longrightarrow> r \<le> maxEvictionsPerNamespace spec)
    \<and> (\<forall>s. slo = Some s \<longrightarrow> maxDisruptionsPerHour s > 0 \<longrightarrow> r \<le> maxDisruptionsPerHour s)
    \<and> (r = 0 \<longleftrightarrow> \<not> fst (canDisruptNamespace now ns spec slo 0 pl))"
  using assms
  by (auto simp: fst_remainingNamespaceBudget fst_canDisruptNamespace Let_def split: option.splits)

end
