(* ===== verification/SnapshotBuild.thy ===== *)
theory SnapshotBuild
  imports EvictionHistory
begin

text \<open>
  Building the snapshot (\<open>Snapshot\<close>, \<open>buildPodState\<close>, \<open>controllerRef\<close>, \<open>addResourceLists\<close> and
  \<open>nodeMatchesClass\<close> of \<open>controllers/planner/planner.go\<close>). The answers of the two metrics queries and
  the six list calls are the fields of \<open>cluster_reads\<close>, in the order the code asks for them.

  The lemmas show the shape the planner relies on (\<open>wf_snapshot\<close>), that a pod's requests are the sums
  over its containers whatever order the resource maps are visited in, the membership of node classes,
  and how errors are reported.
\<close>

subsection \<open>Pods\<close>

fun controllerRef :: "owner_reference list \<Rightarrow> string \<times> string \<times> string" where
  "controllerRef [] = ([], [], [])"
| "controllerRef (owner # owners) =
     (if owner_controller owner = Some True
      then (owner_kind owner, owner_name owner, owner_uid owner) else controllerRef owners)"

fun addResourceLists_loop :: "'z kube_env_scheme \<Rightarrow> resource_list \<Rightarrow> (string \<times> quantity) list \<Rightarrow> resource_list" where
  "addResourceLists_loop E dst [] = dst"
| "addResourceLists_loop E dst ((k, v) # rest) =
     addResourceLists_loop E (AList.update k (qty_add E (int_at dst k) v) dst) rest"

definition addResourceLists :: "'z kube_env_scheme \<Rightarrow> pos \<Rightarrow> resource_list \<Rightarrow> resource_list \<Rightarrow> resource_list" where
  "addResourceLists E p dst src = addResourceLists_loop E dst (go_range E p src)"

fun sumContainers :: "'z kube_env_scheme \<Rightarrow> pos \<Rightarrow> nat \<Rightarrow> container list \<Rightarrow> resource_list \<times> resource_list \<Rightarrow>
    resource_list \<times> resource_list" where
  "sumContainers E p i [] acc = acc"
| "sumContainers E p i (c # cs) (requests, limits) =
     sumContainers E p (Suc i) cs
       (addResourceLists E (0 # i # p) requests (c_requests c),
        addResourceLists E (1 # i # p) limits (c_limits c))"

definition buildPodState ::
    "'z kube_env_scheme \<Rightarrow> pos \<Rightarrow> pod \<Rightarrow> usage \<Rightarrow> workload_slo option \<Rightarrow> gotime option \<Rightarrow> pod_state" where
  "buildPodState E p pod use slo lastEviction =
     (let (requests, limits) = sumContainers E p 0 (pod_containers pod) ([], []);
          priority = (case pod_priority pod of None \<Rightarrow> 0 | Some v \<Rightarrow> v);
          (kind, name, uid) = controllerRef (pod_owners pod) in
      \<lparr>ps_object = pod, ps_priority = priority, ps_requests = requests, ps_limits = limits,
       ps_controllerKind = kind, ps_controllerName = name, ps_ownerUID = uid,
       ps_nodeName = pod_nodeName pod, ps_customMetrics = custom use, ps_lastEvicted = lastEviction,
       ps_slo = slo, ps_matchesPolicy = False, ps_backoffRemaining = 0\<rparr>)"

subsection \<open>Node classes\<close>

definition nodeMatchesClass :: "'z kube_env_scheme \<Rightarrow> node \<Rightarrow> node_class \<Rightarrow> bool" where
  "nodeMatchesClass E node cls =
     (case as_selector E \<lparr>sel_labels = class_labels cls, sel_expressions = class_expressions cls\<rparr> of
        None \<Rightarrow> False
      | Some compiled \<Rightarrow> compiled (node_labels node))"

fun classesOf :: "'z kube_env_scheme \<Rightarrow> node \<Rightarrow> (string \<times> node_class) list \<Rightarrow> string list \<Rightarrow> string list" where
  "classesOf E node [] acc = acc"
| "classesOf E node ((name, cls) # rest) acc =
     classesOf E node rest (if nodeMatchesClass E node cls then acc @ [name] else acc)"

fun assignClasses :: "'z kube_env_scheme \<Rightarrow> pos \<Rightarrow> nat \<Rightarrow> node_class gomap \<Rightarrow> (string \<times> node_state) list \<Rightarrow>
    node_state gomap \<Rightarrow> node_state gomap" where
  "assignClasses E p i classes [] nodes = nodes"
| "assignClasses E p i classes ((k, ns) # rest) nodes =
     assignClasses E p (Suc i) classes rest
       (AList.update k (ns\<lparr>ns_classes :=
          classesOf E (ns_object ns) (go_range E (i # p) classes) (ns_classes ns)\<rparr>) nodes)"

subsection \<open>The snapshot\<close>

record cluster_reads =
  rd_nodeMetrics :: "err + usage gomap"
  rd_podMetrics :: "err + (nsname \<times> usage) list"
  rd_nodes :: "err + node list"
  rd_pods :: "err + pod list"
  rd_pdbs :: "err + pdb list"
  rd_priorityClasses :: "err + priority_class list"
  rd_slos :: "err + workload_slo list"
  rd_nodeClasses :: "err + node_class list"

definition usage_at :: "('k \<times> usage) list \<Rightarrow> 'k \<Rightarrow> usage" where
  "usage_at m k = (case map_of m k of None \<Rightarrow> zero_usage | Some u \<Rightarrow> u)"

text \<open>\<open>for i := range items { m[key(items[i])] = val(items[i]) }\<close>\<close>

fun index_by :: "('a \<Rightarrow> string) \<Rightarrow> ('a \<Rightarrow> 'v) \<Rightarrow> 'a list \<Rightarrow> 'v gomap \<Rightarrow> 'v gomap" where
  "index_by key val [] m = m"
| "index_by key val (x # xs) m = index_by key val xs (AList.update (key x) (val x) m)"

definition newNodeState :: "usage gomap \<Rightarrow> node \<Rightarrow> node_state" where
  "newNodeState nodeMetrics node =
     (let use = usage_at nodeMetrics (node_name node) in
      \<lparr>ns_object = node, ns_usage = use, ns_utilization = zero_utilization,
       ns_classification = NodeUnset, ns_lastUpdated = timestamp use, ns_classes = []\<rparr>)"

fun buildPods :: "'z kube_env_scheme \<Rightarrow> pos \<Rightarrow> nat \<Rightarrow> planner \<Rightarrow> (nsname \<times> usage) list \<Rightarrow>
    workload_slo gomap \<Rightarrow> pod list \<Rightarrow> pod_state list" where
  "buildPods E p i pl podMetrics slos [] = []"
| "buildPods E p i pl podMetrics slos (pod # pods) =
     buildPodState E (i # p) pod (usage_at podMetrics (pod_key pod)) (map_of slos (pod_namespace pod))
       (lastEvicted pl (pod_key pod))
     # buildPods E p (Suc i) pl podMetrics slos pods"

definition Snapshot :: "'z kube_env_scheme \<Rightarrow> pos \<Rightarrow> cluster_reads \<Rightarrow> planner \<Rightarrow> err + snapshot" where
  "Snapshot E p rd pl =
     attempt id (rd_nodeMetrics rd) (\<lambda>nodeMetrics.
     attempt id (rd_podMetrics rd) (\<lambda>podMetrics.
     attempt (ErrWrap ''list nodes'') (rd_nodes rd) (\<lambda>nodesList.
     attempt (ErrWrap ''list pods'') (rd_pods rd) (\<lambda>podsList.
     attempt (ErrWrap ''list pdbs'') (rd_pdbs rd) (\<lambda>pdbs.
     attempt (ErrWrap ''list priority classes'') (rd_priorityClasses rd) (\<lambda>priorityClasses.
     attempt (ErrWrap ''list workload SLOs'') (rd_slos rd) (\<lambda>sloList.
     attempt (ErrWrap ''list node classes'') (rd_nodeClasses rd) (\<lambda>nodeClassList.
     (let nodeClasses = index_by class_name id nodeClassList [];
          nodes = index_by node_name (newNodeState nodeMetrics) nodesList [];
          workloadSLOs = index_by slo_namespace id sloList [];
          priorityMap = index_by pc_name id priorityClasses [];
          pods = buildPods E (0 # p) 0 pl podMetrics workloadSLOs podsList;
          nodes' = assignClasses E (2 # p) 0 nodeClasses (go_range E (1 # p) nodes) nodes in
      Inr \<lparr>snap_nodes = nodes', snap_pods = pods, snap_pdbs = pdbs, snap_slos = workloadSLOs,
           snap_nodeClasses = nodeClasses, snap_priorityClasses = priorityMap\<rparr>)))))))))"

subsection \<open>Resource totals\<close>

lemma map_of_addResourceLists_loop:
  "wf_map kvs \<Longrightarrow> map_of (addResourceLists_loop E dst kvs) k =
     (case map_of kvs k of None \<Rightarrow> map_of dst k | Some v \<Rightarrow> Some (qty_add E (int_at dst k) v))"
proof (induction kvs arbitrary: dst)
  case (Cons e kvs)
  obtain j v where e: "e = (j, v)" by (cases e)
  have "wf_map kvs" and "map_of kvs j = None"
    using Cons.prems by (auto simp: e wf_map_def map_of_eq_None_iff)
  with Cons.IH show ?case by (auto simp: e map_of_update split: option.splits)
qed simp

lemma map_of_addResourceLists:
  assumes "go_runtime E" and "wf_map src"
  shows "map_of (addResourceLists E p dst src) k =
     (case map_of src k of None \<Rightarrow> map_of dst k | Some v \<Rightarrow> Some (qty_add E (int_at dst k) v))"
  by (simp add: addResourceLists_def map_of_addResourceLists_loop
      go_runtime.wf_map_go_range [OF assms] go_runtime.map_of_go_range [OF assms])

text \<open>What a list of resource maps adds up to for one resource; \<open>None\<close> when no map lists it.\<close>

definition add_total :: "'z kube_env_scheme \<Rightarrow> string \<Rightarrow> quantity option \<Rightarrow> resource_list \<Rightarrow> quantity option" where
  "add_total E k acc m = (case map_of m k of
     None \<Rightarrow> acc
   | Some v \<Rightarrow> Some (qty_add E (case acc of None \<Rightarrow> 0 | Some q \<Rightarrow> q) v))"

definition total_of :: "'z kube_env_scheme \<Rightarrow> string \<Rightarrow> resource_list list \<Rightarrow> quantity option" where
  "total_of E k ms = foldl (add_total E k) None ms"

lemma map_of_sumContainers:
  assumes "go_runtime E" and "\<And>c. c \<in> set cs \<Longrightarrow> wf_map (c_requests c) \<and> wf_map (c_limits c)"
  shows "map_of (fst (sumContainers E p i cs (rq, lm))) k = foldl (add_total E k) (map_of rq k) (map c_requests cs)
    \<and> map_of (snd (sumContainers E p i cs (rq, lm))) k = foldl (add_total E k) (map_of lm k) (map c_limits cs)"
  using assms(2)
proof (induction cs arbitrary: i rq lm)
  case (Cons c cs)
  have step: "map_of (addResourceLists E q dst src) k = add_total E k (map_of dst k) src"
    if "wf_map src" for q dst src
    using map_of_addResourceLists [OF assms(1) that, of q dst k]
    by (simp add: add_total_def int_at_def split: option.splits)
  show ?case using Cons by (simp add: step)
qed simp

text \<open>
  The requests and limits of a pod state are, resource by resource, the sums over the pod's
  containers in order, and do not depend on the order in which the resource maps are visited. A
  resource no container lists is absent.
\<close>

lemma buildPodState_totals:
  assumes "go_runtime E"
    and "\<And>c. c \<in> set (pod_containers pod) \<Longrightarrow> wf_map (c_requests c) \<and> wf_map (c_limits c)"
  shows "map_of (ps_requests (buildPodState E p pod use slo le)) k
       = total_of E k (map c_requests (pod_containers pod))
    \<and> map_of (ps_limits (buildPodState E p pod use slo le)) k
       = total_of E k (map c_limits (pod_containers pod))"
  using map_of_sumContainers [OF assms(1), of "pod_containers pod" p 0 "[]" "[]" k] assms(2)
  by (simp add: buildPodState_def total_of_def case_prod_beta)

definition example_two_containers :: pod where
  "example_two_containers = blank_pod\<lparr>pod_containers :=
     [\<lparr>c_requests = [(''cpu'', 100)], c_limits = []\<rparr>,
      \<lparr>c_requests = [(''memory'', 7), (''cpu'', 150)], c_limits = []\<rparr>]\<rparr>"

lemma example_two_containers_cpu:
  "map_of (ps_requests (buildPodState (plain_env 0) [] example_two_containers use slo le)) ''cpu'' = Some 250"
proof -
  have "map_of (ps_requests (buildPodState (plain_env 0) [] example_two_containers use slo le)) ''cpu''
     = total_of (plain_env 0) ''cpu'' (map c_requests (pod_containers example_two_containers))"
    by (rule buildPodState_totals [THEN conjunct1, OF go_runtime_plain_env])
       (auto simp: example_two_containers_def wf_map_def)
  then show ?thesis by (simp add: example_two_containers_def total_of_def add_total_def)
qed

subsection \<open>The shape of a snapshot\<close>

definition wf_nodes :: "node_state gomap \<Rightarrow> bool" where
  "wf_nodes nodes \<longleftrightarrow> wf_map nodes \<and> (\<forall>k ns. map_of nodes k = Some ns \<longrightarrow> node_name (ns_object ns) = k)"

definition wf_snapshot :: "snapshot \<Rightarrow> bool" where
  "wf_snapshot snap \<longleftrightarrow> wf_nodes (snap_nodes snap) \<and> wf_map (snap_slos snap)
     \<and> wf_map (snap_nodeClasses snap) \<and> wf_map (snap_priorityClasses snap)"

lemma wf_nodes_updateI [go_intros]:
  "wf_nodes nodes \<Longrightarrow> node_name (ns_object ns) = k \<Longrightarrow> wf_nodes (AList.update k ns nodes)"
  by (auto simp: wf_nodes_def map_of_update split: if_splits)

lemma wf_map_index_by [simp]: "wf_map m \<Longrightarrow> wf_map (index_by key val xs m)"
  by (induction xs arbitrary: m) auto

lemma map_of_index_by:
  "map_of (index_by key val xs m) k =
     (case map_of (rev (map (\<lambda>x. (key x, val x)) xs)) k of None \<Rightarrow> map_of m k | Some v \<Rightarrow> Some v)"
  by (induction xs arbitrary: m) (auto simp: map_of_update map_add_def split: option.splits)

lemma map_of_index_by_SomeD:
  "map_of (index_by key val xs []) k = Some v \<Longrightarrow> \<exists>x\<in>set xs. key x = k \<and> v = val x"
  by (auto simp: map_of_index_by split: option.splits dest!: map_of_SomeD)

lemma map_of_index_by_distinct:
  "distinct (map key xs) \<Longrightarrow> x \<in> set xs \<Longrightarrow> map_of (index_by key val xs []) (key x) = Some (val x)"
proof -
  assume dist: "distinct (map key xs)" and mem: "x \<in> set xs"
  let ?m = "rev (map (\<lambda>x. (key x, val x)) xs)"
  have "map_of ?m (key x) = Some (val x)"
    by (rule map_of_is_SomeI) (use dist mem in \<open>auto simp: rev_map [symmetric] comp_def\<close>)
  then show ?thesis by (simp add: map_of_index_by)
qed

text \<open>Assigning classes keeps the objects, the usage and the keys of the nodes.\<close>

lemma set_classesOf:
  "set (classesOf E node cs acc) = set acc \<union> {name. \<exists>cls. (name, cls) \<in> set cs \<and> nodeMatchesClass E node cls}"
proof (induction cs arbitrary: acc)
  case (Cons e cs)
  obtain name cls where e: "e = (name, cls)" by (cases e)
  have "set (classesOf E node (e # cs) acc) =
      set (if nodeMatchesClass E node cls then acc @ [name] else acc)
      \<union> {name. \<exists>cls. (name, cls) \<in> set cs \<and> nodeMatchesClass E node cls}"
    by (simp add: e Cons.IH)
  then show ?case by (auto simp: e split: if_splits)
qed simp

lemma distinct_classesOf:
  "wf_map cs \<Longrightarrow> set acc \<inter> fst ` set cs = {} \<Longrightarrow> distinct acc \<Longrightarrow> distinct (classesOf E node cs acc)"
proof (induction cs arbitrary: acc)
  case (Cons e cs)
  obtain name cls where e: "e = (name, cls)" by (cases e)
  have "wf_map cs" and "name \<notin> fst ` set cs" using Cons.prems(1) by (auto simp: e wf_map_def)
  with Cons show ?case by (auto simp: e)
qed simp

lemma map_of_assignClasses:
  assumes "wf_map rest"
  shows "map_of (assignClasses E p i classes rest nodes) k =
    (case map_of rest k of
       None \<Rightarrow> map_of nodes k
     | Some ns \<Rightarrow> Some (ns\<lparr>ns_classes := classesOf E (ns_object ns)
         (go_range E ((i + length (takeWhile (\<lambda>e. fst e \<noteq> k) rest)) # p) classes) (ns_classes ns)\<rparr>))"
  using assms
proof (induction rest arbitrary: i nodes)
  case (Cons e rest)
  obtain j ns where e: "e = (j, ns)" by (cases e)
  have "wf_map rest" and "map_of rest j = None"
    using Cons.prems by (auto simp: e wf_map_def map_of_eq_None_iff)
  with Cons.IH show ?case by (auto simp: e map_of_update split: option.splits)
qed simp

lemma wf_map_assignClasses: "wf_map nodes \<Longrightarrow> wf_map (assignClasses E p i classes rest nodes)"
  by (induction E p i classes rest nodes rule: assignClasses.induct) auto

text \<open>The parts of a snapshot that was built without error.\<close>

lemma Snapshot_InrE:
  assumes "Snapshot E p rd pl = Inr snap"
  obtains nm pm ns ps cs ss pcs pds where
    "rd_nodeMetrics rd = Inr nm" "rd_podMetrics rd = Inr pm" "rd_nodes rd = Inr ns" "rd_pods rd = Inr ps"
    "rd_nodeClasses rd = Inr cs" "rd_slos rd = Inr ss" "rd_priorityClasses rd = Inr pcs" "rd_pdbs rd = Inr pds"
    "snap = \<lparr>snap_nodes = assignClasses E (2 # p) 0 (index_by class_name id cs [])
         (go_range E (1 # p) (index_by node_name (newNodeState nm) ns []))
         (index_by node_name (newNodeState nm) ns []),
       snap_pods = buildPods E (0 # p) 0 pl pm (index_by slo_namespace id ss []) ps,
       snap_pdbs = pds, snap_slos = index_by slo_namespace id ss [],
       snap_nodeClasses = index_by class_name id cs [], snap_priorityClasses = index_by pc_name id pcs []\<rparr>"
  using assms unfolding Snapshot_def Let_def
  by (elim attempt_InrE) auto

lemma snap_nodes_Snapshot:
  assumes "go_runtime E" and "Snapshot E p rd pl = Inr snap"
    and "rd_nodeMetrics rd = Inr nm" and "rd_nodes rd = Inr ns" and "rd_nodeClasses rd = Inr cs"
  shows "map_of (snap_nodes snap) k =
    (case map_of (index_by node_name (newNodeState nm) ns []) k of
       None \<Rightarrow> None
     | Some st \<Rightarrow> Some (st\<lparr>ns_classes := classesOf E (ns_object st)
         (go_range E (length (takeWhile (\<lambda>e. fst e \<noteq> k)
            (go_range E (1 # p) (index_by node_name (newNodeState nm) ns []))) # 2 # p)
            (index_by class_name id cs [])) (ns_classes st)\<rparr>))"
proof -
  let ?m = "index_by node_name (newNodeState nm) ns []"
  have wf: "wf_map ?m" by simp
  have "snap_nodes snap = assignClasses E (2 # p) 0 (index_by class_name id cs []) (go_range E (1 # p) ?m) ?m"
    using assms(2-5) by (elim Snapshot_InrE) simp
  then show ?thesis
    using map_of_assignClasses [OF go_runtime.wf_map_go_range [OF assms(1) wf, of "1 # p"],
        of E "2 # p" 0 "index_by class_name id cs []" ?m k]
    by (simp add: go_runtime.map_of_go_range [OF assms(1) wf] split: option.splits)
qed

lemma Snapshot_wf:
  assumes "go_runtime E" and "Snapshot E p rd pl = Inr snap"
  shows "wf_snapshot snap"
  using assms(2)
proof (cases rule: Snapshot_InrE)
  case (1 nm pm ns ps cs ss pcs pds)
  have "node_name (ns_object st) = k" if "map_of (snap_nodes snap) k = Some st" for k st
    using that snap_nodes_Snapshot [OF assms 1(1) 1(3) 1(5), of k]
    by (auto simp: newNodeState_def Let_def split: option.splits dest!: map_of_index_by_SomeD)
  moreover have "wf_map (snap_nodes snap)" by (simp add: 1(9) wf_map_assignClasses)
  ultimately show ?thesis by (simp add: wf_snapshot_def wf_nodes_def) (simp add: 1(9))
qed

lemma usage_at_all: "list_all P (map snd m) \<Longrightarrow> P zero_usage \<Longrightarrow> P (usage_at m n)"
  using map_of_SomeD [of m n] by (force simp: usage_at_def list_all_iff split: option.split)

lemma snap_node_of:
  assumes "go_runtime E" and "Snapshot E p rd pl = Inr snap" and "rd_nodeMetrics rd = Inr nm" and "rd_nodes rd = Inr ns"
    and "map_of (snap_nodes snap) k = Some st"
  shows "ns_object st \<in> set ns \<and> node_name (ns_object st) = k \<and> ns_usage st = usage_at nm k"
proof -
  obtain cs where "rd_nodeClasses rd = Inr cs" using assms(2) by (rule Snapshot_InrE)
  from snap_nodes_Snapshot [OF assms(1-4) this, of k] assms(5) show ?thesis
    by (auto simp: newNodeState_def Let_def split: option.splits dest!: map_of_index_by_SomeD)
qed

text \<open>
  C21: in a snapshot built from lists without duplicate names, every listed node is held under its own
  name with its object and its usage, zero when the metrics know nothing of it, and its classes are,
  without repetition, exactly the node classes whose selector matches it.
\<close>

theorem Snapshot_nodes:
  assumes "go_runtime E" and "Snapshot E p rd pl = Inr snap"
    and "rd_nodeMetrics rd = Inr nm" and "rd_nodes rd = Inr ns" and "rd_nodeClasses rd = Inr cs"
    and "distinct (map node_name ns)" and "distinct (map class_name cs)" and "n \<in> set ns"
  shows "\<exists>st. map_of (snap_nodes snap) (node_name n) = Some st \<and> ns_object st = n
    \<and> ns_usage st = usage_at nm (node_name n) \<and> distinct (ns_classes st)
    \<and> set (ns_classes st) = class_name ` {c \<in> set cs. nodeMatchesClass E n c}"
proof -
  let ?cm = "index_by class_name id cs []" and ?nm = "index_by node_name (newNodeState nm) ns []"
  have wf: "wf_map ?cm" by simp
  have cm: "(name, cls) \<in> set ?cm \<longleftrightarrow> cls \<in> set cs \<and> class_name cls = name" for name cls
    using map_of_index_by_distinct [OF assms(7), of cls id] map_of_index_by_SomeD [of class_name id cs name cls]
    by (auto simp: wf_map_mem_iff [OF wf])
  have at: "map_of ?nm (node_name n) = Some (newNodeState nm n)"
    by (rule map_of_index_by_distinct [OF assms(6,8)])
  let ?q = "length (takeWhile (\<lambda>e. fst e \<noteq> node_name n) (go_range E (1 # p) ?nm)) # 2 # p"
  have r: "wf_map (go_range E ?q ?cm)" "set (go_range E ?q ?cm) = set ?cm"
    by (rule go_runtime.wf_map_go_range [OF assms(1) wf] go_runtime.set_go_range [OF assms(1) wf])+
  have "set (classesOf E n (go_range E ?q ?cm) []) = class_name ` {c \<in> set cs. nodeMatchesClass E n c}"
    unfolding set_classesOf r(2) cm by auto
  moreover have "distinct (classesOf E n (go_range E ?q ?cm) [])"
    by (rule distinct_classesOf [OF r(1)]) simp_all
  ultimately show ?thesis
    by (simp add: snap_nodes_Snapshot [OF assms(1-5)] at newNodeState_def Let_def)
qed

definition example_arm :: node where
  "example_arm = blank_node\<lparr>node_name := ''n1'', node_labels := [(''arch'', ''arm64'')]\<rparr>"

definition example_classes :: "node_class list" where
  "example_classes =
     [\<lparr>class_name = ''rpi'', class_labels = [(''arch'', ''arm64'')], class_expressions = [],
       preferredFor = [], class_weight = 0\<rparr>,
      \<lparr>class_name = ''x86'', class_labels = [(''arch'', ''amd64'')], class_expressions = [],
       preferredFor = [], class_weight = 0\<rparr>]"

definition example_reads :: cluster_reads where
  "example_reads = \<lparr>rd_nodeMetrics = Inr [(''n1'', zero_usage\<lparr>memoryBytes := 5\<rparr>)], rd_podMetrics = Inr [],
     rd_nodes = Inr [example_arm],
     rd_pods = Inr [blank_pod\<lparr>pod_name := ''a'', pod_namespace := ''prod''\<rparr>], rd_pdbs = Inr [],
     rd_priorityClasses = Inr [], rd_slos = Inr [], rd_nodeClasses = Inr example_classes\<rparr>"

lemma Snapshot_example: "\<exists>snap. Snapshot (plain_env 0) [] example_reads (New 0) = Inr snap"
  by (simp add: Snapshot_def example_reads_def Let_def)

theorem Snapshot_nodes_witness:
  "\<exists>snap st. Snapshot (plain_env 0) [] example_reads (New 0) = Inr snap
     \<and> map_of (snap_nodes snap) ''n1'' = Some st \<and> set (ns_classes st) = {''rpi''} \<and> memoryBytes (ns_usage st) = 5"
proof -
  obtain snap where s: "Snapshot (plain_env 0) [] example_reads (New 0) = Inr snap"
    using Snapshot_example ..
  have labels: "node_labels example_arm = [(''arch'', ''arm64'')]" by (simp add: example_arm_def)
  have name: "node_name example_arm = ''n1''" by (simp add: example_arm_def)
  have "map class_name (filter (nodeMatchesClass (plain_env 0) example_arm) example_classes) = [''rpi'']"
    by (simp add: example_classes_def nodeMatchesClass_def labels)
  then have "set (map class_name (filter (nodeMatchesClass (plain_env 0) example_arm) example_classes)) = {''rpi''}"
    by simp
  then have cls: "class_name ` {c \<in> set example_classes. nodeMatchesClass (plain_env 0) example_arm c} = {''rpi''}"
    by (simp only: set_map set_filter)
  have "\<exists>st. map_of (snap_nodes snap) (node_name example_arm) = Some st \<and> ns_object st = example_arm
    \<and> ns_usage st = usage_at [(''n1'', zero_usage\<lparr>memoryBytes := 5\<rparr>)] (node_name example_arm)
    \<and> distinct (ns_classes st)
    \<and> set (ns_classes st) = class_name ` {c \<in> set example_classes. nodeMatchesClass (plain_env 0) example_arm c}"
    by (rule Snapshot_nodes [OF go_runtime_plain_env s, where ns = "[example_arm]"])
       (simp_all add: example_reads_def example_classes_def)
  then obtain st where "map_of (snap_nodes snap) ''n1'' = Some st" and "set (ns_classes st) = {''rpi''}"
    and u: "ns_usage st = usage_at [(''n1'', zero_usage\<lparr>memoryBytes := 5\<rparr>)] ''n1''"
    unfolding name cls by (elim exE conjE)
  moreover have "memoryBytes (ns_usage st) = 5" by (simp add: u usage_at_def)
  ultimately show ?thesis using s by blast
qed

lemma buildPods_nth:
  "i < length pods \<Longrightarrow> buildPods E p j pl pm slos pods ! i =
     buildPodState E ((j + i) # p) (pods ! i) (usage_at pm (pod_key (pods ! i)))
       (map_of slos (pod_namespace (pods ! i))) (lastEvicted pl (pod_key (pods ! i)))"
  by (induction pods arbitrary: i j) (auto simp: nth_Cons split: nat.splits)

lemma length_buildPods [simp]: "length (buildPods E p j pl pm slos pods) = length pods"
  by (induction pods arbitrary: j) auto

lemma buildPodState_sel [simp]:
  "ps_object (buildPodState E p pod use slo le) = pod"
  "ps_nodeName (buildPodState E p pod use slo le) = pod_nodeName pod"
  "ps_lastEvicted (buildPodState E p pod use slo le) = le"
  "ps_slo (buildPodState E p pod use slo le) = slo"
  "ps_priority (buildPodState E p pod use slo le) = (case pod_priority pod of None \<Rightarrow> 0 | Some v \<Rightarrow> v)"
  "ps_controllerKind (buildPodState E p pod use slo le) = fst (controllerRef (pod_owners pod))"
  by (simp_all add: buildPodState_def case_prod_beta)

text \<open>A pod state of a snapshot, seen from the planner that built it.\<close>

definition wf_pod_state :: "workload_slo gomap \<Rightarrow> planner \<Rightarrow> pod_state \<Rightarrow> bool" where
  "wf_pod_state slos pl ps \<longleftrightarrow> ps_nodeName ps = pod_nodeName (ps_object ps)
     \<and> ps_lastEvicted ps = lastEvicted pl (pod_key (ps_object ps))
     \<and> ps_slo ps = map_of slos (pod_namespace (ps_object ps))"

text \<open>
  The pods of a snapshot are the listed pods in order, each with its node name, with the time the
  planner last evicted a pod of that namespace and name, and with the objective of its namespace.
\<close>

lemma Snapshot_pods:
  assumes "Snapshot E p rd pl = Inr snap"
  shows "rd_pods rd = Inr (map ps_object (snap_pods snap))
    \<and> list_all (wf_pod_state (snap_slos snap) pl) (snap_pods snap)"
  using assms
proof (cases rule: Snapshot_InrE)
  case (1 nm pm ns ps cs ss pcs pds)
  have "map ps_object (buildPods E q j pl pm slos ps) = ps" for q j slos
    by (rule nth_equalityI) (simp_all add: buildPods_nth)
  then show ?thesis
    by (auto simp: 1 list_all_length buildPods_nth wf_pod_state_def)
qed

end
