(* ===== verification/Predicates.thy ===== *)
theory Predicates
  imports ApiTypes
begin

text \<open>
  The scheduling predicates (\<open>controllers/planner/predicates.go\<close> and \<open>canSchedule\<close> of
  \<open>planner.go\<close>): may a pod run on a node, as far as taints, node selector, node affinity and pod
  (anti-)affinity say. Each function is translated with its loops and early returns.

  The lemmas characterise each predicate without its loop, independently of the order in which the
  node selector map is visited, and compare it with the rule Kubernetes documents (\<open>kube_\<close>
  definitions): where the two agree, and where the code differs.
\<close>

subsection \<open>Taints and tolerations\<close>

fun tolerationMatches :: "taint \<Rightarrow> toleration list \<Rightarrow> bool" where
  "tolerationMatches taint [] = False"
| "tolerationMatches taint (tol # tols) =
     (if tol_key tol \<noteq> taint_key taint then tolerationMatches taint tols
      else if tol_effect tol \<noteq> [] \<and> tol_effect tol \<noteq> taint_effect taint
      then tolerationMatches taint tols
      else if tol_operator tol = ''Exists'' then True
      else if tol_value tol = taint_value taint then True
      else tolerationMatches taint tols)"

fun toleratesTaints_loop :: "taint list \<Rightarrow> toleration list \<Rightarrow> bool" where
  "toleratesTaints_loop [] tols = True"
| "toleratesTaints_loop (taint # taints) tols =
     (if taint_effect taint = ''PreferNoSchedule'' then toleratesTaints_loop taints tols
      else if taint_effect taint \<noteq> ''NoSchedule'' \<and> taint_effect taint \<noteq> ''NoExecute''
      then toleratesTaints_loop taints tols
      else if \<not> tolerationMatches taint tols then False
      else toleratesTaints_loop taints tols)"

definition toleratesTaints :: "pod \<Rightarrow> node \<Rightarrow> bool" where
  "toleratesTaints pod node = (if node_taints node = [] then True
     else toleratesTaints_loop (node_taints node) (pod_tolerations pod))"

subsection \<open>Node selector and node affinity\<close>

fun matchesNodeSelector_loop :: "(string \<times> string) list \<Rightarrow> labels \<Rightarrow> bool" where
  "matchesNodeSelector_loop [] labels = True"
| "matchesNodeSelector_loop ((key, val) # rest) labels =
     (if str_at labels key \<noteq> val then False else matchesNodeSelector_loop rest labels)"

definition matchesNodeSelector :: "'z runtime_scheme \<Rightarrow> pos \<Rightarrow> pod \<Rightarrow> node \<Rightarrow> bool" where
  "matchesNodeSelector E p pod node = (if pod_nodeSelector pod = [] then True
     else matchesNodeSelector_loop (go_range E p (pod_nodeSelector pod)) (node_labels node))"

fun contains :: "string list \<Rightarrow> string \<Rightarrow> bool" where
  "contains [] value = False"
| "contains (v # vs) value = (if v = value then True else contains vs value)"

definition matchNodeSelectorRequirement :: "node \<Rightarrow> selector_req \<Rightarrow> bool" where
  "matchNodeSelectorRequirement node req =
     (let value = str_at (node_labels node) (req_key req); op = req_operator req in
      if op = ''In'' then contains (req_values req) value
      else if op = ''NotIn'' then \<not> contains (req_values req) value
      else if op = ''Exists'' then value \<noteq> []
      else if op = ''DoesNotExist'' then value = []
      else if op = ''Gt'' then
        (case req_values req of
           [] \<Rightarrow> False
         | v # _ \<Rightarrow> (case (parseInt64 value, parseInt64 v) of
             (Some val, Some target) \<Rightarrow> val > target | _ \<Rightarrow> False))
      else if op = ''Lt'' then
        (case req_values req of
           [] \<Rightarrow> False
         | v # _ \<Rightarrow> (case (parseInt64 value, parseInt64 v) of
             (Some val, Some target) \<Rightarrow> val < target | _ \<Rightarrow> False))
      else False)"

definition matchFieldSelectorRequirement :: "node \<Rightarrow> selector_req \<Rightarrow> bool" where
  "matchFieldSelectorRequirement node req =
     (if req_key req \<noteq> ''metadata.name'' then True
      else let value = node_name node; op = req_operator req in
        if op = ''In'' then contains (req_values req) value
        else if op = ''NotIn'' then \<not> contains (req_values req) value
        else if op = ''Exists'' then value \<noteq> []
        else if op = ''DoesNotExist'' then value = []
        else True)"

fun all_requirements :: "(selector_req \<Rightarrow> bool) \<Rightarrow> selector_req list \<Rightarrow> bool" where
  "all_requirements f [] = True"
| "all_requirements f (r # rs) = (if \<not> f r then False else all_requirements f rs)"

definition matchNodeSelectorTerm :: "node \<Rightarrow> node_selector_term \<Rightarrow> bool" where
  "matchNodeSelectorTerm node term =
     (if \<not> all_requirements (matchNodeSelectorRequirement node) (term_expressions term) then False
      else if \<not> all_requirements (matchFieldSelectorRequirement node) (term_fields term) then False
      else True)"

fun matchesAnyTerm :: "node \<Rightarrow> node_selector_term list \<Rightarrow> bool" where
  "matchesAnyTerm node [] = False"
| "matchesAnyTerm node (t # ts) = (if matchNodeSelectorTerm node t then True else matchesAnyTerm node ts)"

definition matchesNodeAffinity :: "pod \<Rightarrow> node \<Rightarrow> bool" where
  "matchesNodeAffinity pod node =
     (case pod_affinity pod of
        None \<Rightarrow> True
      | Some aff \<Rightarrow> (case nodeAffinity aff of
          None \<Rightarrow> True
        | Some None \<Rightarrow> True
        | Some (Some terms) \<Rightarrow> matchesAnyTerm node terms))"

subsection \<open>Pod affinity and anti-affinity\<close>

fun checkPods :: "snapshot \<Rightarrow> pod \<Rightarrow> string list \<Rightarrow> selector \<Rightarrow> string \<Rightarrow> string \<Rightarrow> bool \<Rightarrow>
    pod_state list \<Rightarrow> bool" where
  "checkPods snap pod nss sel topologyKey targetValue positive [] = (\<not> positive)"
| "checkPods snap pod nss sel topologyKey targetValue positive (ps # rest) =
     (let q = ps_object ps;
          continue = checkPods snap pod nss sel topologyKey targetValue positive rest in
      if pod_uid q = pod_uid pod then continue
      else if \<not> contains nss (pod_namespace q) then continue
      else if \<not> sel (pod_labels q) then continue
      else (case map_of (snap_nodes snap) (pod_nodeName q) of
          None \<Rightarrow> continue
        | Some nodeState \<Rightarrow>
            let value = str_at (node_labels (ns_object nodeState)) topologyKey in
            if value = [] then continue
            else if positive then (if value = targetValue then True else continue)
            else (if value = targetValue then False else continue)))"

text \<open>The selector of a term: everything when there is none, \<open>None\<close> when it does not compile.\<close>

definition term_selector :: "'z kube_env_scheme \<Rightarrow> pod_affinity_term \<Rightarrow> selector option" where
  "term_selector E term = (case aff_selector term of
     None \<Rightarrow> Some labels_Everything | Some ls \<Rightarrow> as_selector E ls)"

definition term_topologyKey :: "pod_affinity_term \<Rightarrow> string" where
  "term_topologyKey term =
     (if aff_topologyKey term = [] then ''kubernetes.io/hostname'' else aff_topologyKey term)"

definition term_namespaces :: "pod \<Rightarrow> pod_affinity_term \<Rightarrow> string list" where
  "term_namespaces pod term =
     (if aff_namespaces term = [] then [pod_namespace pod] else aff_namespaces term)"

definition checkPodAffinityTerm ::
    "'z kube_env_scheme \<Rightarrow> snapshot \<Rightarrow> pod \<Rightarrow> node \<Rightarrow> pod_affinity_term \<Rightarrow> bool \<Rightarrow> bool" where
  "checkPodAffinityTerm E snap pod node term positive =
     (case term_selector E term of
        None \<Rightarrow> \<not> positive
      | Some sel \<Rightarrow>
          let topologyKey = term_topologyKey term;
              targetValue = str_at (node_labels node) topologyKey in
          if targetValue = [] then \<not> positive
          else checkPods snap pod (term_namespaces pod term) sel topologyKey targetValue positive
                 (snap_pods snap))"

fun checkTerms :: "(pod_affinity_term \<Rightarrow> bool) \<Rightarrow> pod_affinity_term list \<Rightarrow> bool" where
  "checkTerms check [] = True"
| "checkTerms check (t # ts) = (if \<not> check t then False else checkTerms check ts)"

definition passesPodAffinity :: "'z kube_env_scheme \<Rightarrow> snapshot \<Rightarrow> pod \<Rightarrow> node \<Rightarrow> bool" where
  "passesPodAffinity E snap pod node =
     (case pod_affinity pod of
        None \<Rightarrow> True
      | Some aff \<Rightarrow>
          (case podAffinity aff of
             None \<Rightarrow> True
           | Some terms \<Rightarrow> checkTerms (\<lambda>t. checkPodAffinityTerm E snap pod node t True) terms) \<and>
          (case podAntiAffinity aff of
             None \<Rightarrow> True
           | Some terms \<Rightarrow> checkTerms (\<lambda>t. checkPodAffinityTerm E snap pod node t False) terms))"

definition canSchedule :: "'z kube_env_scheme \<Rightarrow> pos \<Rightarrow> snapshot \<Rightarrow> pod \<Rightarrow> node \<Rightarrow> bool" where
  "canSchedule E p snap pod node =
     (if \<not> toleratesTaints pod node then False
      else if \<not> matchesNodeSelector E p pod node then False
      else if \<not> matchesNodeAffinity pod node then False
      else if \<not> passesPodAffinity E snap pod node then False
      else True)"

subsection \<open>The loops, read as quantifiers\<close>

lemma contains_iff [simp]: "contains vs v \<longleftrightarrow> v \<in> set vs"
  by (induction vs) auto

lemma all_requirements_iff [simp]: "all_requirements f rs \<longleftrightarrow> (\<forall>r\<in>set rs. f r)"
  by (induction rs) auto

lemma matchesAnyTerm_iff [simp]: "matchesAnyTerm node ts \<longleftrightarrow> (\<exists>t\<in>set ts. matchNodeSelectorTerm node t)"
  by (induction ts) auto

lemma checkTerms_iff [simp]: "checkTerms check ts \<longleftrightarrow> (\<forall>t\<in>set ts. check t)"
  by (induction ts) auto

lemma tolerationMatches_iff:
  "tolerationMatches taint tols \<longleftrightarrow>
     (\<exists>tol\<in>set tols. tol_key tol = taint_key taint
        \<and> (tol_effect tol = [] \<or> tol_effect tol = taint_effect taint)
        \<and> (tol_operator tol = ''Exists'' \<or> tol_value tol = taint_value taint))"
  by (induction tols) auto

definition hard_taint :: "taint \<Rightarrow> bool" where
  "hard_taint t \<longleftrightarrow> taint_effect t = ''NoSchedule'' \<or> taint_effect t = ''NoExecute''"

lemma toleratesTaints_iff:
  "toleratesTaints pod node \<longleftrightarrow>
     (\<forall>t\<in>set (node_taints node). hard_taint t \<longrightarrow> tolerationMatches t (pod_tolerations pod))"
proof -
  have "toleratesTaints_loop ts tols \<longleftrightarrow> (\<forall>t\<in>set ts. hard_taint t \<longrightarrow> tolerationMatches t tols)"
    for ts tols
    by (induction ts) (auto simp: hard_taint_def)
  then show ?thesis by (simp add: toleratesTaints_def)
qed

lemma matchesNodeSelector_loop_iff:
  "matchesNodeSelector_loop kvs labels \<longleftrightarrow> (\<forall>(k, v)\<in>set kvs. str_at labels k = v)"
  by (induction kvs) (auto split: if_splits)

text \<open>A pod that meets a term: another pod of the right namespace and labels, placed in the domain.\<close>

definition affinity_peer ::
    "snapshot \<Rightarrow> pod \<Rightarrow> string list \<Rightarrow> selector \<Rightarrow> string \<Rightarrow> string \<Rightarrow> pod_state \<Rightarrow> bool" where
  "affinity_peer snap pod nss sel topologyKey targetValue ps \<longleftrightarrow>
     pod_uid (ps_object ps) \<noteq> pod_uid pod \<and> pod_namespace (ps_object ps) \<in> set nss
     \<and> sel (pod_labels (ps_object ps))
     \<and> (\<exists>ns. map_of (snap_nodes snap) (pod_nodeName (ps_object ps)) = Some ns
           \<and> str_at (node_labels (ns_object ns)) topologyKey = targetValue)"

lemma checkPods_iff:
  assumes "targetValue \<noteq> []"
  shows "checkPods snap pod nss sel key targetValue positive pss \<longleftrightarrow>
    (if positive then \<exists>ps\<in>set pss. affinity_peer snap pod nss sel key targetValue ps
     else \<not> (\<exists>ps\<in>set pss. affinity_peer snap pod nss sel key targetValue ps))"
  using assms by (induction pss) (auto simp: affinity_peer_def Let_def split: option.splits)

subsection \<open>Taints: the Kubernetes rule\<close>

text \<open>When a toleration tolerates a taint, as the Kubernetes API documents it.\<close>

definition kube_tolerates :: "toleration \<Rightarrow> taint \<Rightarrow> bool" where
  "kube_tolerates tol t \<longleftrightarrow>
     (tol_effect tol = [] \<or> tol_effect tol = taint_effect t)
     \<and> (tol_key tol = [] \<or> tol_key tol = taint_key t)
     \<and> (tol_operator tol = ''Exists'' \<or>
        (tol_operator tol = [] \<or> tol_operator tol = ''Equal'') \<and> tol_value tol = taint_value t)"

definition valid_tolerations :: "pod \<Rightarrow> bool" where
  "valid_tolerations pod \<longleftrightarrow>
     (\<forall>tol\<in>set (pod_tolerations pod). tol_operator tol \<in> {[], ''Equal'', ''Exists''})"

text \<open>
  C11: for the operators the API admits, a pod is let onto a node exactly when each hard taint is
  tolerated, by the Kubernetes rule, by a toleration that names the key of the taint; soft taints and
  unknown effects are ignored.
\<close>

theorem toleratesTaints_kube:
  assumes "valid_tolerations pod"
  shows "toleratesTaints pod node \<longleftrightarrow>
    (\<forall>t\<in>set (node_taints node). hard_taint t \<longrightarrow>
       (\<exists>tol\<in>set (pod_tolerations pod). tol_key tol = taint_key t \<and> kube_tolerates tol t))"
  using assms
  by (fastforce simp: toleratesTaints_iff tolerationMatches_iff kube_tolerates_def valid_tolerations_def)

definition example_taint :: taint where
  "example_taint = \<lparr>taint_key = ''infra'', taint_value = [], taint_effect = ''NoSchedule''\<rparr>"

definition example_toleration :: toleration where
  "example_toleration = \<lparr>tol_key = ''infra'', tol_operator = ''Equal'', tol_value = [], tol_effect = []\<rparr>"

theorem toleratesTaints_kube_witness:
  "toleratesTaints (blank_pod\<lparr>pod_tolerations := [example_toleration]\<rparr>)
     (blank_node\<lparr>node_taints := [example_taint]\<rparr>)"
proof -
  have "valid_tolerations (blank_pod\<lparr>pod_tolerations := [example_toleration]\<rparr>)"
    by (simp add: valid_tolerations_def example_toleration_def)
  from toleratesTaints_kube [OF this, of "blank_node\<lparr>node_taints := [example_taint]\<rparr>"]
  show ?thesis by (simp add: kube_tolerates_def example_toleration_def example_taint_def)
qed

text \<open>
  The toleration with an empty key and the operator \<open>Exists\<close>, which by the Kubernetes rule
  tolerates every taint, does not let a pod onto a node whose hard taint has a key.
\<close>

lemma wildcard_toleration_rejected:
  assumes "t \<in> set (node_taints node)" and "hard_taint t" and "taint_key t \<noteq> []"
    and "pod_tolerations pod =
      [\<lparr>tol_key = [], tol_operator = ''Exists'', tol_value = [], tol_effect = []\<rparr>]"
  shows "\<not> toleratesTaints pod node \<and> (\<forall>u. \<exists>tol\<in>set (pod_tolerations pod). kube_tolerates tol u)"
  using assms by (auto simp: toleratesTaints_iff tolerationMatches_iff kube_tolerates_def)

subsection \<open>Node selector: order and meaning\<close>

lemma matchesNodeSelector_set:
  assumes "go_runtime E" and "wf_map (pod_nodeSelector pod)"
  shows "matchesNodeSelector E p pod node \<longleftrightarrow>
      (\<forall>(k, v)\<in>set (pod_nodeSelector pod). str_at (node_labels node) k = v)"
  by (auto simp: matchesNodeSelector_def matchesNodeSelector_loop_iff
      go_runtime.set_go_range [OF assms(1,2)])

text \<open>
  Whatever order the selector map is visited in, the node selector matches exactly when every
  selected label reads as the selected value on the node, a missing label reading as the empty string.
\<close>

lemma matchesNodeSelector_iff:
  assumes "go_runtime E" and "wf_map (pod_nodeSelector pod)"
  shows "matchesNodeSelector E p pod node \<longleftrightarrow>
    (\<forall>k v. map_of (pod_nodeSelector pod) k = Some v \<longrightarrow> str_at (node_labels node) k = v)"
  using wf_map_mem_iff [OF assms(2)] by (fastforce simp: matchesNodeSelector_set [OF assms])

text \<open>
  A node without the label is taken to match a selector that asks for the empty value, although the
  Kubernetes rule asks for a label with that value.
\<close>

lemma missing_label_matches_empty_value:
  assumes "go_runtime E" and "pod_nodeSelector pod = [(k, [])]" and "map_of (node_labels node) k = None"
  shows "matchesNodeSelector E p pod node"
  using matchesNodeSelector_set [of E pod p node] assms by (simp add: wf_map_def str_at_def)

subsection \<open>Node affinity: the Kubernetes rule\<close>

text \<open>
  A node selector requirement as the Kubernetes API documents it: operators speak about the label
  being present, and \<open>Gt\<close> and \<open>Lt\<close> compare integers.
\<close>

definition kube_requirement :: "node \<Rightarrow> selector_req \<Rightarrow> bool" where
  "kube_requirement node req =
     (let label = map_of (node_labels node) (req_key req);
          int_label = Option.bind label parseInt64;
          int_value = (case req_values req of [] \<Rightarrow> None | v # _ \<Rightarrow> parseInt64 v);
          op = req_operator req in
      if op = ''In'' then (\<exists>v\<in>set (req_values req). label = Some v)
      else if op = ''NotIn'' then (\<forall>v\<in>set (req_values req). label \<noteq> Some v)
      else if op = ''Exists'' then label \<noteq> None
      else if op = ''DoesNotExist'' then label = None
      else if op = ''Gt'' then (\<exists>a b. int_label = Some a \<and> int_value = Some b \<and> a > b)
      else if op = ''Lt'' then (\<exists>a b. int_label = Some a \<and> int_value = Some b \<and> a < b)
      else False)"

lemma parseInt64_str_at:
  "parseInt64 (str_at ls k) = Option.bind (map_of ls k) parseInt64"
  by (simp add: str_at_def split: option.splits)

text \<open>
  C19: when the node does not carry the label with an empty value, and the requirement does not list the
  empty value, the code decides a node selector requirement as the Kubernetes rule does, for every
  operator, malformed integers included.
\<close>

theorem matchNodeSelectorRequirement_kube:
  assumes "map_of (node_labels node) (req_key req) \<noteq> Some []" and "[] \<notin> set (req_values req)"
  shows "matchNodeSelectorRequirement node req = kube_requirement node req"
proof -
  have empty: "str_at (node_labels node) (req_key req) = [] \<longleftrightarrow>
      map_of (node_labels node) (req_key req) = None"
    using assms(1) by (auto simp: str_at_def split: option.splits)
  have mem: "str_at (node_labels node) (req_key req) \<in> set (req_values req) \<longleftrightarrow>
      (\<exists>v\<in>set (req_values req). map_of (node_labels node) (req_key req) = Some v)"
    using assms(2) by (auto simp: str_at_def split: option.splits)
  show ?thesis
    unfolding matchNodeSelectorRequirement_def kube_requirement_def Let_def parseInt64_str_at
      contains_iff empty mem
    by (auto split: list.splits option.splits)
qed

definition example_gt :: selector_req where
  "example_gt = \<lparr>req_key = ''cores'', req_operator = ''Gt'', req_values = [''4'']\<rparr>"

theorem matchNodeSelectorRequirement_kube_witness:
  "matchNodeSelectorRequirement (blank_node\<lparr>node_labels := [(''cores'', ''16'')]\<rparr>) example_gt
   \<and> kube_requirement (blank_node\<lparr>node_labels := [(''cores'', ''16'')]\<rparr>) example_gt"
proof -
  let ?n = "blank_node\<lparr>node_labels := [(''cores'', ''16'')]\<rparr>"
  have "matchNodeSelectorRequirement ?n example_gt = kube_requirement ?n example_gt"
    by (rule matchNodeSelectorRequirement_kube) (simp_all add: example_gt_def)
  moreover have "matchNodeSelectorRequirement ?n example_gt"
    by (simp add: matchNodeSelectorRequirement_def example_gt_def str_at_def parseInt64_def
        parseUint_def digit_val.simps)
  ultimately show ?thesis by simp
qed

text \<open>
  A label that is present with an empty value, such as the role labels of control-plane nodes, is
  taken to be absent: \<open>Exists\<close> fails on it and \<open>DoesNotExist\<close> holds, against the Kubernetes rule.
\<close>

lemma empty_label_taken_absent:
  assumes "map_of (node_labels node) k = Some []"
  shows "\<not> matchNodeSelectorRequirement node \<lparr>req_key = k, req_operator = ''Exists'', req_values = vs\<rparr>
    \<and> kube_requirement node \<lparr>req_key = k, req_operator = ''Exists'', req_values = vs\<rparr>
    \<and> matchNodeSelectorRequirement node \<lparr>req_key = k, req_operator = ''DoesNotExist'', req_values = vs\<rparr>
    \<and> \<not> kube_requirement node \<lparr>req_key = k, req_operator = ''DoesNotExist'', req_values = vs\<rparr>"
  using assms by (simp add: matchNodeSelectorRequirement_def kube_requirement_def str_at_def)

subsection \<open>Pod affinity\<close>

text \<open>What one term of a pod's affinity asks of a node, in terms of the pods of the snapshot.\<close>

definition term_has_peer ::
    "'z kube_env_scheme \<Rightarrow> snapshot \<Rightarrow> pod \<Rightarrow> node \<Rightarrow> pod_affinity_term \<Rightarrow> bool" where
  "term_has_peer E snap pod node term \<longleftrightarrow>
     (\<exists>sel ps. term_selector E term = Some sel \<and> ps \<in> set (snap_pods snap)
        \<and> str_at (node_labels node) (term_topologyKey term) \<noteq> []
        \<and> affinity_peer snap pod (term_namespaces pod term) sel (term_topologyKey term)
              (str_at (node_labels node) (term_topologyKey term)) ps)"

lemma checkPodAffinityTerm_iff:
  "checkPodAffinityTerm E snap pod node term positive \<longleftrightarrow>
     (if positive then term_has_peer E snap pod node term else \<not> term_has_peer E snap pod node term)"
  by (cases "str_at (node_labels node) (term_topologyKey term) = []")
     (auto simp: checkPodAffinityTerm_def term_has_peer_def checkPods_iff Let_def split: option.splits)

text \<open>
  C20: a pod passes the affinity check on a node exactly when each of its required affinity terms has
  another matching pod in the node's topology domain and none of its required anti-affinity terms has
  one. A selector that does not compile matches no pod, and a node without the topology label is in no
  domain.
\<close>

theorem passesPodAffinity_iff:
  "passesPodAffinity E snap pod node \<longleftrightarrow>
     (\<forall>aff. pod_affinity pod = Some aff \<longrightarrow>
        (\<forall>terms. podAffinity aff = Some terms \<longrightarrow>
           (\<forall>t\<in>set terms. term_has_peer E snap pod node t)) \<and>
        (\<forall>terms. podAntiAffinity aff = Some terms \<longrightarrow>
           (\<forall>t\<in>set terms. \<not> term_has_peer E snap pod node t)))"
  by (auto simp: passesPodAffinity_def checkPodAffinityTerm_iff split: option.splits)

definition example_exclusive_pod :: pod where
  "example_exclusive_pod = blank_pod\<lparr>pod_uid := ''u2'', pod_namespace := ''prod'',
     pod_affinity := Some \<lparr>nodeAffinity = None, podAffinity = None,
       podAntiAffinity = Some [\<lparr>aff_selector = None, aff_namespaces = [], aff_topologyKey = []\<rparr>]\<rparr>\<rparr>"

definition example_host :: node where
  "example_host = blank_node\<lparr>node_name := ''n1'', node_labels := [(''kubernetes.io/hostname'', ''n1'')]\<rparr>"

definition example_occupied :: snapshot where
  "example_occupied = blank_snapshot\<lparr>
     snap_nodes := [(''n1'', blank_node_state\<lparr>ns_object := example_host\<rparr>)],
     snap_pods := [blank_pod_state\<lparr>ps_object :=
       blank_pod\<lparr>pod_uid := ''u1'', pod_namespace := ''prod'', pod_nodeName := ''n1''\<rparr>\<rparr>]\<rparr>"

theorem passesPodAffinity_iff_witness:
  "\<not> passesPodAffinity (plain_env 0) example_occupied example_exclusive_pod example_host"
proof -
  have "term_has_peer (plain_env 0) example_occupied example_exclusive_pod example_host
      \<lparr>aff_selector = None, aff_namespaces = [], aff_topologyKey = []\<rparr>"
    by (simp add: term_has_peer_def term_selector_def labels_Everything_def term_topologyKey_def
        term_namespaces_def affinity_peer_def example_occupied_def example_exclusive_pod_def
        example_host_def blank_defs str_at_def)
  then show ?thesis
    by (simp add: passesPodAffinity_iff) (simp add: example_exclusive_pod_def)
qed

end
