(* ===== verification/Candidates.thy ===== *)
theory Candidates
  imports SnapshotBuild Predicates
begin

text \<open>
  Which pods may be evicted (\<open>filterCandidates\<close> and the checks it makes, \<open>controllers/planner/planner.go\<close>).
  \<open>considerPod\<close> is the body of the loop with its \<open>continue\<close>s; the loop marks the pods it keeps in the
  snapshot (\<open>MatchesPolicy\<close>) and collects them, and the result is sorted by priority. A
  \<open>sets.String\<close>, a Go map with empty values, is the set of its keys.

  The lemmas describe each check without its loop, the candidate list as a filtered, sorted
  permutation of the pods, and what being a candidate guarantees.
\<close>

definition systemCriticalPriority :: int where
  "systemCriticalPriority = 2000000000"

fun isHotNode :: "node_state gomap \<Rightarrow> node_ref list \<Rightarrow> string \<Rightarrow> bool" where
  "isHotNode nodes [] name = False"
| "isHotNode nodes (n # ns) name =
     (if map_option (\<lambda>st. node_name (ns_object st)) (map_of nodes n) = Some name then True
      else isHotNode nodes ns name)"

fun skipLocalStorage_loop :: "'z kube_env_scheme \<Rightarrow> int \<Rightarrow> volume list \<Rightarrow> bool" where
  "skipLocalStorage_loop E thresholdGi [] = False"
| "skipLocalStorage_loop E thresholdGi (v # vs) =
     (case emptyDir v of
        Some (Some sizeLimit) \<Rightarrow>
          let limitGi = go_div (qty_value E sizeLimit) (2 ^ 30) in
          if limitGi > thresholdGi then True
          else if hostPath v \<noteq> None then True
          else skipLocalStorage_loop E thresholdGi vs
      | Some None \<Rightarrow> True
      | None \<Rightarrow> if hostPath v \<noteq> None then True else skipLocalStorage_loop E thresholdGi vs)"

definition skipLocalStorage :: "'z kube_env_scheme \<Rightarrow> int \<Rightarrow> pod \<Rightarrow> bool" where
  "skipLocalStorage E thresholdGi pod = skipLocalStorage_loop E thresholdGi (pod_volumes pod)"

fun skipHostPath_loop :: "volume list \<Rightarrow> bool" where
  "skipHostPath_loop [] = False"
| "skipHostPath_loop (v # vs) = (if hostPath v \<noteq> None then True else skipHostPath_loop vs)"

definition skipHostPath :: "pod \<Rightarrow> bool" where
  "skipHostPath pod = skipHostPath_loop (pod_volumes pod)"

definition hasBackoff :: "gotime \<Rightarrow> pod_state \<Rightarrow> duration \<Rightarrow> bool" where
  "hasBackoff now pod d = (case ps_lastEvicted pod of
     None \<Rightarrow> False | Some t \<Rightarrow> time_sub now t < d)"

record namespace_rules =
  rules_include :: "string set"
  rules_exclude :: "string set"

definition compileNamespaceRules :: "namespace_selector \<Rightarrow> namespace_rules" where
  "compileNamespaceRules sel = \<lparr>rules_include = set (ns_include sel), rules_exclude = set (ns_exclude sel)\<rparr>"

definition Allow :: "namespace_rules \<Rightarrow> string \<Rightarrow> bool" where
  "Allow n ns =
     (if ns \<in> rules_exclude n then False
      else if rules_include n = {} then True
      else if ''*'' \<in> rules_include n then ns \<notin> rules_exclude n
      else ns \<in> rules_include n)"

fun buildSelectorSet :: "'z kube_env_scheme \<Rightarrow> label_selector list \<Rightarrow> selector list" where
  "buildSelectorSet E [] = []"
| "buildSelectorSet E (sel # sels) = (case as_selector E sel of
     None \<Rightarrow> buildSelectorSet E sels
   | Some selector \<Rightarrow> selector # buildSelectorSet E sels)"

fun matchesAnySelector_loop :: "selector list \<Rightarrow> labels \<Rightarrow> bool" where
  "matchesAnySelector_loop [] ls = False"
| "matchesAnySelector_loop (s # ss) ls = (if s ls then True else matchesAnySelector_loop ss ls)"

definition matchesAnySelector :: "selector list \<Rightarrow> pod \<Rightarrow> bool" where
  "matchesAnySelector sels pod =
     (if sels = [] then True else matchesAnySelector_loop sels (pod_labels pod))"

text \<open>A nil annotation map reads as the empty one.\<close>

definition isPinned :: "pod \<Rightarrow> bool" where
  "isPinned pod =
     (if pod_annotations pod = [] then False
      else if str_at (pod_annotations pod) ''rebalancer.dev/pinned'' = ''true'' then True
      else if str_at (pod_annotations pod) ''rebalancer.dev/allow-move'' = ''false'' then True
      else False)"

fun meetsMinReady_loop :: "gotime \<Rightarrow> pod_condition list \<Rightarrow> int \<Rightarrow> bool" where
  "meetsMinReady_loop now [] minReady = False"
| "meetsMinReady_loop now (c # cs) minReady =
     (if cond_type c = ''Ready'' \<and> cond_status c = ''True''
      then time_sub now (cond_transition c) \<ge> wrap64 (minReady * second)
      else meetsMinReady_loop now cs minReady)"

definition meetsMinReady :: "gotime \<Rightarrow> pod \<Rightarrow> int \<Rightarrow> bool" where
  "meetsMinReady now pod minReady = meetsMinReady_loop now (pod_conditions pod) minReady"

definition isHighPriority :: "pod_state \<Rightarrow> priority_class gomap \<Rightarrow> bool" where
  "isHighPriority pod classes =
     (if ps_priority pod \<ge> systemCriticalPriority then True
      else if pod_priorityClass (ps_object pod) \<noteq> [] then
        (case map_of classes (pod_priorityClass (ps_object pod)) of
           Some pc \<Rightarrow> pc_value pc \<ge> systemCriticalPriority
         | None \<Rightarrow> False)
      else False)"

fun pdbAllows_loop :: "'z kube_env_scheme \<Rightarrow> pdb list \<Rightarrow> pod \<Rightarrow> bool" where
  "pdbAllows_loop E [] pod = True"
| "pdbAllows_loop E (b # bs) pod =
     (if pdb_namespace b \<noteq> pod_namespace pod then pdbAllows_loop E bs pod
      else (case pdb_selector b of
          None \<Rightarrow> pdbAllows_loop E bs pod
        | Some ls \<Rightarrow> (case as_selector E ls of
            None \<Rightarrow> pdbAllows_loop E bs pod
          | Some selector \<Rightarrow>
              if selector (pod_labels pod) \<and> pdb_allowed b \<le> 0 then False
              else pdbAllows_loop E bs pod)))"

definition pdbAllows :: "'z kube_env_scheme \<Rightarrow> pdb list \<Rightarrow> pod \<Rightarrow> bool" where
  "pdbAllows E pdbs pod = (if pdbs = [] then True else pdbAllows_loop E pdbs pod)"

text \<open>
  The body of the loop: \<open>True\<close> when the pod is kept. \<open>t1\<close> and \<open>t2\<close> are the clock readings of the
  readiness and of the back-off check.
\<close>

definition considerPod ::
    "'z kube_env_scheme \<Rightarrow> int \<Rightarrow> snapshot \<Rightarrow> policy_spec \<Rightarrow> node_ref list \<Rightarrow> namespace_rules \<Rightarrow>
     selector list \<Rightarrow> duration \<Rightarrow> gotime \<Rightarrow> gotime \<Rightarrow> pod_state \<Rightarrow> bool" where
  "considerPod E emptyDirLimit snap spec hotNodes rules selectors backoff t1 t2 pod =
     (let obj = ps_object pod in
      if pod_nodeName obj = [] then False
      else if \<not> Allow rules (pod_namespace obj) then False
      else if selectors \<noteq> [] \<and> \<not> matchesAnySelector selectors obj then False
      else if isPinned obj then False
      else if respectPodPriority spec \<and> isHighPriority pod (snap_priorityClasses snap) then False
      else if ps_controllerKind pod = ''DaemonSet'' then False
      else if respectPDB spec \<and> \<not> pdbAllows E (snap_pdbs snap) obj then False
      else if ps_controllerKind pod = ''StatefulSet'' \<and>
              (case ps_slo pod of None \<Rightarrow> True | Some s \<Rightarrow> \<not> allowStatefulSetEviction s) then False
      else if (case ps_slo pod of None \<Rightarrow> False
               | Some s \<Rightarrow> minReadySeconds s > 0 \<and> \<not> meetsMinReady t1 obj (minReadySeconds s)) then False
      else if skipLocalStorage E emptyDirLimit obj then False
      else if skipHostPath obj then False
      else if \<not> isHotNode (snap_nodes snap) hotNodes (ps_nodeName pod) then False
      else if hasBackoff t2 pod backoff then False
      else True)"

fun filterCandidates_loop :: "(nat \<Rightarrow> pod_state \<Rightarrow> bool) \<Rightarrow> nat \<Rightarrow> pod_state list \<Rightarrow>
    pod_state list \<times> pod_state list" where
  "filterCandidates_loop keep i [] = ([], [])"
| "filterCandidates_loop keep i (pod # pods) =
     (let (pods', filtered) = filterCandidates_loop keep (Suc i) pods in
      if keep i pod then (pod\<lparr>ps_matchesPolicy := True\<rparr> # pods', pod\<lparr>ps_matchesPolicy := True\<rparr> # filtered)
      else (pod # pods', filtered))"

definition filterCandidates ::
    "'z kube_env_scheme \<Rightarrow> pos \<Rightarrow> planner \<Rightarrow> snapshot \<Rightarrow> policy_spec \<Rightarrow> node_ref list \<Rightarrow>
     snapshot \<times> pod_state list" where
  "filterCandidates E p pl snap spec hotNodes =
     (let rules = compileNamespaceRules (namespaces spec);
          selectors = buildSelectorSet E (workloadSelectors spec);
          backoff = (case backoffDuration spec of None \<Rightarrow> defaultBackoff | Some d \<Rightarrow> d);
          keep = (\<lambda>i pod. considerPod E (emptyDirLimitGi pl) snap spec hotNodes rules selectors backoff
                    (now_at E (0 # i # p)) (now_at E (1 # i # p)) pod);
          (pods', filtered) = filterCandidates_loop keep 0 (snap_pods snap) in
      (snap\<lparr>snap_pods := pods'\<rparr>, sort_slice E (\<lambda>a b. ps_priority a < ps_priority b) filtered))"

subsection \<open>The checks without their loops\<close>

lemma isHotNode_iff:
  "isHotNode nodes ns name \<longleftrightarrow>
     (\<exists>n\<in>set ns. \<exists>st. map_of nodes n = Some st \<and> node_name (ns_object st) = name)"
  by (induction ns) auto

lemma isHotNode_wf: "wf_nodes nodes \<Longrightarrow> isHotNode nodes ns name \<longleftrightarrow> name \<in> set ns \<and> map_of nodes name \<noteq> None"
  by (auto simp: isHotNode_iff wf_nodes_def)

lemma skipLocalStorage_set:
  "skipLocalStorage E thr pod \<longleftrightarrow> (\<exists>v\<in>set (pod_volumes pod). hostPath v \<noteq> None \<or> emptyDir v = Some None
     \<or> (\<exists>q. emptyDir v = Some (Some q) \<and> go_div (qty_value E q) (2 ^ 30) > thr))"
proof -
  have "skipLocalStorage_loop E thr vs \<longleftrightarrow> (\<exists>v\<in>set vs. hostPath v \<noteq> None \<or> emptyDir v = Some None
     \<or> (\<exists>q. emptyDir v = Some (Some q) \<and> go_div (qty_value E q) (2 ^ 30) > thr))" for vs
    by (induction vs) (auto simp: Let_def split: option.splits)
  then show ?thesis by (simp add: skipLocalStorage_def)
qed

lemma skipHostPath_set: "skipHostPath pod \<longleftrightarrow> (\<exists>v\<in>set (pod_volumes pod). hostPath v \<noteq> None)"
proof -
  have "skipHostPath_loop vs \<longleftrightarrow> (\<exists>v\<in>set vs. hostPath v \<noteq> None)" for vs
    by (induction vs) auto
  then show ?thesis by (simp add: skipHostPath_def)
qed

lemma go_div_greater: "0 \<le> k \<Longrightarrow> 0 < b \<Longrightarrow> go_div a b > k \<longleftrightarrow> a \<ge> (k + 1) * b"
proof (cases "0 \<le> a")
  case True
  assume "0 < b"
  have "k + 1 \<le> a div b \<longleftrightarrow> (k + 1) * b \<le> a"
  proof
    assume "k + 1 \<le> a div b"
    then have "(k + 1) * b \<le> (a div b) * b" using \<open>0 < b\<close> by (intro mult_right_mono) auto
    also have "\<dots> \<le> a" using div_mult_mod_eq [of a b] \<open>0 < b\<close> pos_mod_sign [of b a] by linarith
    finally show "(k + 1) * b \<le> a" .
  next
    assume "(k + 1) * b \<le> a"
    then have "(k + 1) * b div b \<le> a div b" using \<open>0 < b\<close> by (intro zdiv_mono1)
    with \<open>0 < b\<close> show "k + 1 \<le> a div b" by simp
  qed
  with True \<open>0 < b\<close> show ?thesis by (simp add: go_div_nonneg) linarith
next
  case False
  assume "0 \<le> k" "0 < b"
  then have "0 \<le> (k + 1) * b" and "go_div a b \<le> 0" using False go_div_neg [of a b] by auto
  with False \<open>0 \<le> k\<close> show ?thesis by linarith
qed

lemma matchesAnySelector_set: "matchesAnySelector sels pod \<longleftrightarrow> sels = [] \<or> (\<exists>s\<in>set sels. s (pod_labels pod))"
proof -
  have "matchesAnySelector_loop ss ls \<longleftrightarrow> (\<exists>s\<in>set ss. s ls)" for ss ls
    by (induction ss) auto
  then show ?thesis by (simp add: matchesAnySelector_def)
qed

lemma buildSelectorSet_filter: "buildSelectorSet E sels = List.map_filter (as_selector E) sels"
  by (induction sels) (auto simp: List.map_filter_def split: option.splits)

text \<open>A disruption budget that guards a pod and has nothing left.\<close>

definition pdb_blocks :: "'z kube_env_scheme \<Rightarrow> pod \<Rightarrow> pdb \<Rightarrow> bool" where
  "pdb_blocks E pod b \<longleftrightarrow> pdb_namespace b = pod_namespace pod \<and> pdb_allowed b \<le> 0
     \<and> (\<exists>ls sel. pdb_selector b = Some ls \<and> as_selector E ls = Some sel \<and> sel (pod_labels pod))"

lemma pdbAllows_set: "pdbAllows E pdbs pod \<longleftrightarrow> \<not> (\<exists>b\<in>set pdbs. pdb_blocks E pod b)"
proof -
  have "pdbAllows_loop E bs pod \<longleftrightarrow> \<not> (\<exists>b\<in>set bs. pdb_blocks E pod b)" for bs
    by (induction bs) (auto simp: pdb_blocks_def split: option.splits)
  then show ?thesis by (simp add: pdbAllows_def)
qed

lemma Allow_iff:
  "Allow (compileNamespaceRules sel) ns \<longleftrightarrow> ns \<notin> set (ns_exclude sel)
     \<and> (ns_include sel = [] \<or> ''*'' \<in> set (ns_include sel) \<or> ns \<in> set (ns_include sel))"
  by (auto simp: Allow_def compileNamespaceRules_def)

lemma hasBackoff_iff:
  "in_int64 d \<Longrightarrow> 0 < d \<Longrightarrow> hasBackoff now pod d \<longleftrightarrow> (\<exists>t. ps_lastEvicted pod = Some t \<and> now - t < d)"
  by (auto simp: hasBackoff_def time_sub_less_iff split: option.splits)

subsection \<open>Local storage\<close>

text \<open>
  For a non-negative threshold, the storage check holds a pod back exactly when it has a host path,
  an emptyDir without a limit, or an emptyDir whose limit is at least one GiB above the threshold; and
  the separate host path check after it never holds back a further pod.
\<close>

lemma skipLocalStorage_iff:
  assumes "0 \<le> thr"
  shows "(skipLocalStorage E thr pod \<longleftrightarrow> (\<exists>v\<in>set (pod_volumes pod). hostPath v \<noteq> None \<or> emptyDir v = Some None
      \<or> (\<exists>q. emptyDir v = Some (Some q) \<and> qty_value E q \<ge> (thr + 1) * 2 ^ 30)))
    \<and> (skipHostPath pod \<longrightarrow> skipLocalStorage E thr pod)"
  using go_div_greater [OF assms, of "2 ^ 30"]
  by (auto simp: skipLocalStorage_set skipHostPath_set)

subsection \<open>Readiness\<close>

text \<open>
  For every readiness requirement of 32 bits the multiplication by a second cannot overflow, and a
  pod meets it exactly when its first condition that says it is ready became so at least that long ago.
\<close>

lemma meetsMinReady_iff:
  assumes "in_int32 m"
  shows "meetsMinReady now pod m \<longleftrightarrow>
    (\<exists>c. find (\<lambda>c. cond_type c = ''Ready'' \<and> cond_status c = ''True'') (pod_conditions pod) = Some c
       \<and> now - cond_transition c \<ge> m * 1000000000)"
proof -
  have range: "in_int64 (m * second)" and lt: "- (2 ^ 63) < m * second"
    using assms by (simp_all add: in_int32_def in_int64_def second_def)
  have ge: "time_sub now u \<ge> wrap64 (m * second) \<longleftrightarrow> now - u \<ge> m * second" for u
    using time_sub_less_iff [OF range, of now u] lt range by (auto simp: not_less [symmetric])
  have "meetsMinReady_loop now cs m \<longleftrightarrow>
      (\<exists>c. find (\<lambda>c. cond_type c = ''Ready'' \<and> cond_status c = ''True'') cs = Some c
       \<and> now - cond_transition c \<ge> m * second)" for cs
    by (induction cs) (auto simp: ge)
  then show ?thesis by (simp add: meetsMinReady_def second_def)
qed

subsection \<open>The candidate list\<close>

abbreviation mark_pod :: "pod_state \<Rightarrow> pod_state" where
  "mark_pod pod \<equiv> pod\<lparr>ps_matchesPolicy := True\<rparr>"

lemma filterCandidates_loop_enumerate:
  "filterCandidates_loop keep i pods =
     (map (\<lambda>(j, pod). if keep j pod then mark_pod pod else pod) (enumerate i pods),
      map (\<lambda>(j, pod). mark_pod pod) (filter (\<lambda>(j, pod). keep j pod) (enumerate i pods)))"
  by (induction pods arbitrary: i) (auto simp: case_prod_beta)

definition policy_backoff :: "policy_spec \<Rightarrow> duration" where
  "policy_backoff spec = (case backoffDuration spec of None \<Rightarrow> defaultBackoff | Some d \<Rightarrow> d)"

text \<open>Whether the pod at index \<open>i\<close> is kept in the run at position \<open>p\<close>.\<close>

definition kept ::
    "'z kube_env_scheme \<Rightarrow> pos \<Rightarrow> planner \<Rightarrow> snapshot \<Rightarrow> policy_spec \<Rightarrow> node_ref list \<Rightarrow> nat \<Rightarrow> pod_state \<Rightarrow> bool" where
  "kept E p pl snap spec hot i pod =
     considerPod E (emptyDirLimitGi pl) snap spec hot (compileNamespaceRules (namespaces spec))
       (buildSelectorSet E (workloadSelectors spec)) (policy_backoff spec)
       (now_at E (0 # i # p)) (now_at E (1 # i # p)) pod"

lemma filterCandidates_eq:
  "filterCandidates E p pl snap spec hot =
     (snap\<lparr>snap_pods := map (\<lambda>(i, pod). if kept E p pl snap spec hot i pod then mark_pod pod else pod)
        (enumerate 0 (snap_pods snap))\<rparr>,
      sort_slice E (\<lambda>a b. ps_priority a < ps_priority b)
        (map (\<lambda>(i, pod). mark_pod pod)
          (filter (\<lambda>(i, pod). kept E p pl snap spec hot i pod) (enumerate 0 (snap_pods snap)))))"
  by (simp add: filterCandidates_def filterCandidates_loop_enumerate kept_def policy_backoff_def Let_def)

lemma candidate_kept:
  assumes "go_runtime E" and "c \<in> set (snd (filterCandidates E p pl snap spec hot))"
  shows "\<exists>i pod. i < length (snap_pods snap) \<and> snap_pods snap ! i = pod \<and> c = mark_pod pod
    \<and> kept E p pl snap spec hot i pod"
  using assms(2)
  by (auto simp: filterCandidates_eq go_runtime.set_sort_slice [OF assms(1)] in_set_enumerate_eq)

text \<open>What a kept pod fulfils, guard by guard.\<close>

definition movable :: "'z kube_env_scheme \<Rightarrow> snapshot \<Rightarrow> policy_spec \<Rightarrow> node_ref list \<Rightarrow> pod_state \<Rightarrow> bool" where
  "movable E snap spec hot pod \<longleftrightarrow>
     Allow (compileNamespaceRules (namespaces spec)) (pod_namespace (ps_object pod))
     \<and> \<not> isPinned (ps_object pod)
     \<and> ps_controllerKind pod \<noteq> ''DaemonSet''
     \<and> (ps_controllerKind pod = ''StatefulSet'' \<longrightarrow>
          (\<exists>s. ps_slo pod = Some s \<and> allowStatefulSetEviction s))
     \<and> (respectPodPriority spec \<longrightarrow> \<not> isHighPriority pod (snap_priorityClasses snap))
     \<and> (respectPDB spec \<longrightarrow> \<not> (\<exists>b\<in>set (snap_pdbs snap). pdb_blocks E (ps_object pod) b))
     \<and> (\<forall>v\<in>set (pod_volumes (ps_object pod)). hostPath v = None)
     \<and> isHotNode (snap_nodes snap) hot (ps_nodeName pod)"

lemma kept_movable:
  assumes "kept E p pl snap spec hot i pod"
  shows "movable E snap spec hot pod"
    and "\<not> hasBackoff (now_at E (1 # i # p)) pod (policy_backoff spec)"
    and "pod_nodeName (ps_object pod) \<noteq> []"
proof -
  show "movable E snap spec hot pod"
    using assms unfolding kept_def considerPod_def movable_def Let_def
    by (auto simp: pdbAllows_set skipHostPath_set split: if_splits option.splits)
  show "\<not> hasBackoff (now_at E (1 # i # p)) pod (policy_backoff spec)"
    and "pod_nodeName (ps_object pod) \<noteq> []"
    using assms unfolding kept_def considerPod_def Let_def by (auto split: if_splits)
qed

lemma movable_mark [simp]: "movable E snap spec hot (mark_pod pod) = movable E snap spec hot pod"
  by (simp add: movable_def isHighPriority_def)

lemma candidate_movable:
  "go_runtime E \<Longrightarrow> c \<in> set (snd (filterCandidates E p pl snap spec hot)) \<Longrightarrow> movable E snap spec hot c"
  by (drule (1) candidate_kept) (auto dest: kept_movable(1))

text \<open>
  Which pods may be evicted, stated without the code's checks: what the policy selects, what protects a
  pod, what data it would lose, and since when it is ready.
\<close>

definition policy_selects :: "'z kube_env_scheme \<Rightarrow> policy_spec \<Rightarrow> pod \<Rightarrow> bool" where
  "policy_selects E spec pod \<longleftrightarrow>
     pod_namespace pod \<notin> set (ns_exclude (namespaces spec))
   \<and> (ns_include (namespaces spec) = [] \<or> ''*'' \<in> set (ns_include (namespaces spec))
      \<or> pod_namespace pod \<in> set (ns_include (namespaces spec)))
   \<and> ((\<forall>sel\<in>set (workloadSelectors spec). as_selector E sel = None)
      \<or> (\<exists>sel\<in>set (workloadSelectors spec). \<exists>f. as_selector E sel = Some f \<and> f (pod_labels pod)))"

definition pod_protected :: "'z kube_env_scheme \<Rightarrow> snapshot \<Rightarrow> policy_spec \<Rightarrow> pod_state \<Rightarrow> bool" where
  "pod_protected E snap spec pod \<longleftrightarrow>
     map_of (pod_annotations (ps_object pod)) ''rebalancer.dev/pinned'' = Some ''true''
   \<or> map_of (pod_annotations (ps_object pod)) ''rebalancer.dev/allow-move'' = Some ''false''
   \<or> ps_controllerKind pod = ''DaemonSet''
   \<or> ps_controllerKind pod = ''StatefulSet'' \<and> \<not> (\<exists>slo. ps_slo pod = Some slo \<and> allowStatefulSetEviction slo)
   \<or> respectPodPriority spec \<and> (2000000000 \<le> ps_priority pod
        \<or> pod_priorityClass (ps_object pod) \<noteq> []
          \<and> (\<exists>pc. map_of (snap_priorityClasses snap) (pod_priorityClass (ps_object pod)) = Some pc \<and> 2000000000 \<le> pc_value pc))
   \<or> respectPDB spec \<and> (\<exists>b\<in>set (snap_pdbs snap). pdb_blocks E (ps_object pod) b)"

definition keeps_data :: "'z kube_env_scheme \<Rightarrow> int \<Rightarrow> pod \<Rightarrow> bool" where
  "keeps_data E limitGi pod \<longleftrightarrow> (\<exists>v\<in>set (pod_volumes pod). hostPath v \<noteq> None \<or> emptyDir v = Some None
     \<or> (\<exists>q. emptyDir v = Some (Some q) \<and> go_div (qty_value E q) (2 ^ 30) > limitGi))"

definition ready_for :: "gotime \<Rightarrow> int \<Rightarrow> pod \<Rightarrow> bool" where
  "ready_for now seconds pod \<longleftrightarrow>
     (\<exists>c. find (\<lambda>c. cond_type c = ''Ready'' \<and> cond_status c = ''True'') (pod_conditions pod) = Some c
        \<and> seconds * 1000000000 \<le> now - cond_transition c)"

definition evictable ::
    "'z kube_env_scheme \<Rightarrow> int \<Rightarrow> snapshot \<Rightarrow> policy_spec \<Rightarrow> node_ref list \<Rightarrow> gotime \<Rightarrow> gotime \<Rightarrow> pod_state \<Rightarrow> bool" where
  "evictable E limitGi snap spec hot t1 t2 pod \<longleftrightarrow>
     pod_nodeName (ps_object pod) \<noteq> []
   \<and> policy_selects E spec (ps_object pod)
   \<and> \<not> pod_protected E snap spec pod
   \<and> (\<forall>slo. ps_slo pod = Some slo \<and> 0 < minReadySeconds slo \<longrightarrow> ready_for t1 (minReadySeconds slo) (ps_object pod))
   \<and> \<not> keeps_data E limitGi (ps_object pod)
   \<and> (\<exists>n\<in>set hot. \<exists>st. map_of (snap_nodes snap) n = Some st \<and> node_name (ns_object st) = ps_nodeName pod)
   \<and> \<not> (\<exists>t. ps_lastEvicted pod = Some t \<and> t2 - t < policy_backoff spec)"

lemma isPinned_iff: "isPinned pod \<longleftrightarrow>
    map_of (pod_annotations pod) ''rebalancer.dev/pinned'' = Some ''true''
    \<or> map_of (pod_annotations pod) ''rebalancer.dev/allow-move'' = Some ''false''"
  by (auto simp: isPinned_def str_at_def split: option.splits)

lemma isHighPriority_iff: "isHighPriority pod classes \<longleftrightarrow> 2000000000 \<le> ps_priority pod
    \<or> pod_priorityClass (ps_object pod) \<noteq> []
      \<and> (\<exists>pc. map_of classes (pod_priorityClass (ps_object pod)) = Some pc \<and> 2000000000 \<le> pc_value pc)"
  by (auto simp: isHighPriority_def systemCriticalPriority_def split: option.splits)

lemma selectors_iff: "buildSelectorSet E sels = [] \<or> matchesAnySelector (buildSelectorSet E sels) pod \<longleftrightarrow>
    (\<forall>sel\<in>set sels. as_selector E sel = None)
    \<or> (\<exists>sel\<in>set sels. \<exists>f. as_selector E sel = Some f \<and> f (pod_labels pod))"
proof -
  have "buildSelectorSet E sels = [] \<longleftrightarrow> (\<forall>sel\<in>set sels. as_selector E sel = None)"
    by (induction sels) (auto split: option.splits)
  moreover have "(\<exists>f\<in>set (buildSelectorSet E sels). f ls) \<longleftrightarrow> (\<exists>sel\<in>set sels. \<exists>f. as_selector E sel = Some f \<and> f ls)" for ls
    by (induction sels) (auto split: option.splits)
  ultimately show ?thesis by (auto simp: matchesAnySelector_set)
qed

text \<open>The code's chain of checks, one guard at a time, is that predicate.\<close>

lemma kept_evictable:
  assumes "\<And>slo. ps_slo pod = Some slo \<Longrightarrow> in_int32 (minReadySeconds slo)" and "\<bar>policy_backoff spec\<bar> < 2 ^ 63"
  shows "kept E p pl snap spec hot i pod \<longleftrightarrow>
    evictable E (emptyDirLimitGi pl) snap spec hot (now_at E (0 # i # p)) (now_at E (1 # i # p)) pod"
proof -
  have "in_int64 (policy_backoff spec)" "- (2 ^ 63) < policy_backoff spec" using assms(2) by (auto simp: in_int64_def)
  then have backoff: "hasBackoff now pod (policy_backoff spec) \<longleftrightarrow> (\<exists>t. ps_lastEvicted pod = Some t \<and> now - t < policy_backoff spec)" for now
    by (auto simp: hasBackoff_def time_sub_less_iff split: option.splits)
  have ready: "meetsMinReady now obj (minReadySeconds slo) \<longleftrightarrow> ready_for now (minReadySeconds slo) obj" if "ps_slo pod = Some slo" for now obj slo
    using meetsMinReady_iff [OF assms(1) [OF that]] by (simp add: ready_for_def)
  then have required: "(\<forall>slo. ps_slo pod = Some slo \<and> 0 < minReadySeconds slo \<longrightarrow> meetsMinReady now obj (minReadySeconds slo))
      \<longleftrightarrow> (\<forall>slo. ps_slo pod = Some slo \<and> 0 < minReadySeconds slo \<longrightarrow> ready_for now (minReadySeconds slo) obj)" for now obj
    by blast
  have store: "\<not> skipLocalStorage E k obj \<and> \<not> skipHostPath obj \<longleftrightarrow> \<not> keeps_data E k obj" for k obj
    by (auto simp: skipLocalStorage_set skipHostPath_set keeps_data_def)
  have "kept E p pl snap spec hot i pod \<longleftrightarrow>
      pod_nodeName (ps_object pod) \<noteq> []
    \<and> Allow (compileNamespaceRules (namespaces spec)) (pod_namespace (ps_object pod))
    \<and> (buildSelectorSet E (workloadSelectors spec) = [] \<or> matchesAnySelector (buildSelectorSet E (workloadSelectors spec)) (ps_object pod))
    \<and> \<not> (isPinned (ps_object pod) \<or> ps_controllerKind pod = ''DaemonSet''
        \<or> ps_controllerKind pod = ''StatefulSet'' \<and> \<not> (\<exists>slo. ps_slo pod = Some slo \<and> allowStatefulSetEviction slo)
        \<or> respectPodPriority spec \<and> isHighPriority pod (snap_priorityClasses snap)
        \<or> respectPDB spec \<and> \<not> pdbAllows E (snap_pdbs snap) (ps_object pod))
    \<and> (\<forall>slo. ps_slo pod = Some slo \<and> 0 < minReadySeconds slo \<longrightarrow> meetsMinReady (now_at E (0 # i # p)) (ps_object pod) (minReadySeconds slo))
    \<and> (\<not> skipLocalStorage E (emptyDirLimitGi pl) (ps_object pod) \<and> \<not> skipHostPath (ps_object pod))
    \<and> isHotNode (snap_nodes snap) hot (ps_nodeName pod)
    \<and> \<not> hasBackoff (now_at E (1 # i # p)) pod (policy_backoff spec)"
    unfolding kept_def considerPod_def Let_def by (cases "ps_slo pod") simp_all
  also have "\<dots> \<longleftrightarrow> evictable E (emptyDirLimitGi pl) snap spec hot (now_at E (0 # i # p)) (now_at E (1 # i # p)) pod"
    unfolding selectors_iff store backoff required isHotNode_iff isPinned_iff isHighPriority_iff pdbAllows_set Allow_iff
      evictable_def policy_selects_def pod_protected_def
    by (simp only: conj_assoc disj_assoc not_not)
  finally show ?thesis .
qed

text \<open>
  C7: the candidates are, as a multiset, exactly the evictable pods of the snapshot, each marked as
  matching the policy: those that run on a hot node, in a namespace and with labels the policy selects, are
  not protected by an annotation, their controller, their priority or an exhausted disruption budget, keep
  no data on the node, have been ready as long as the objective of their namespace asks for, and whose last
  eviction is at least the back-off ago. They come in order of ascending priority, and the snapshot changes by the
  marks only. The premises are the ranges of the Go types.
\<close>

theorem filterCandidates_correct:
  assumes "go_runtime E"
    and "\<And>pod slo. pod \<in> set (snap_pods snap) \<Longrightarrow> ps_slo pod = Some slo \<Longrightarrow> in_int32 (minReadySeconds slo)"
    and "\<bar>policy_backoff spec\<bar> < 2 ^ 63"
  shows "mset (snd (filterCandidates E p pl snap spec hot)) =
      image_mset (\<lambda>(i, pod). mark_pod pod)
        (filter_mset (\<lambda>(i, pod). evictable E (emptyDirLimitGi pl) snap spec hot (now_at E (0 # i # p)) (now_at E (1 # i # p)) pod)
          (mset (enumerate 0 (snap_pods snap))))
    \<and> sorted (map ps_priority (snd (filterCandidates E p pl snap spec hot)))
    \<and> fst (filterCandidates E p pl snap spec hot) = snap\<lparr>snap_pods :=
        map (\<lambda>(i, pod). if evictable E (emptyDirLimitGi pl) snap spec hot (now_at E (0 # i # p)) (now_at E (1 # i # p)) pod
                        then mark_pod pod else pod)
          (enumerate 0 (snap_pods snap))\<rparr>"
proof -
  let ?ev = "\<lambda>(i, pod). evictable E (emptyDirLimitGi pl) snap spec hot (now_at E (0 # i # p)) (now_at E (1 # i # p)) pod"
  have same: "(\<lambda>(i, pod). kept E p pl snap spec hot i pod) x = ?ev x" if "x \<in> set (enumerate 0 (snap_pods snap))" for x
  proof -
    obtain i pod where x: "x = (i, pod)" by (cases x)
    with that have "pod \<in> set (snap_pods snap)" by (auto simp: in_set_enumerate_eq)
    with kept_evictable [OF assms(2) assms(3)] show ?thesis by (simp add: x)
  qed
  have sorted: "sorted_wrt (\<lambda>a b. \<not> ps_priority b < ps_priority a) (snd (filterCandidates E p pl snap spec hot))"
    unfolding filterCandidates_eq snd_conv
    by (rule go_runtime.sorted_sort_slice [OF assms(1)]) (rule strict_weak_on_key_linorder)
  have "filter (\<lambda>(i, pod). kept E p pl snap spec hot i pod) (enumerate 0 (snap_pods snap)) = filter ?ev (enumerate 0 (snap_pods snap))"
    by (rule filter_cong [OF refl same])
  moreover have "map (\<lambda>(i, pod). if kept E p pl snap spec hot i pod then mark_pod pod else pod) (enumerate 0 (snap_pods snap))
      = map (\<lambda>(i, pod). if ?ev (i, pod) then mark_pod pod else pod) (enumerate 0 (snap_pods snap))"
    by (rule map_cong [OF refl]) (use same in force)
  ultimately show ?thesis
    using sorted by (simp add: filterCandidates_eq go_runtime.mset_sort_slice [OF assms(1)] mset_filter sorted_map not_less)
qed

text \<open>Three pods on a hot node: two that may be evicted, listed by falling priority, and a pinned one.\<close>

definition example_pod_named :: "string \<Rightarrow> int \<Rightarrow> labels \<Rightarrow> pod_state" where
  "example_pod_named name prio annotations = blank_pod_state\<lparr>ps_object := blank_pod\<lparr>pod_name := name, pod_namespace := ''prod'',
     pod_nodeName := ''n1'', pod_annotations := annotations\<rparr>, ps_nodeName := ''n1'', ps_priority := prio\<rparr>"

definition example_three_pods :: snapshot where
  "example_three_pods = blank_snapshot\<lparr>
     snap_nodes := [(''n1'', blank_node_state\<lparr>ns_object := blank_node\<lparr>node_name := ''n1''\<rparr>\<rparr>)],
     snap_pods := [example_pod_named ''a'' 10 [], example_pod_named ''b'' 0 [(''rebalancer.dev/pinned'', ''true'')],
       example_pod_named ''c'' 5 []]\<rparr>"

lemma example_evictable:
  "evictable (plain_env 0) limitGi example_three_pods example_spec [''n1''] t1 t2 (example_pod_named name prio annotations)
    \<longleftrightarrow> map_of annotations ''rebalancer.dev/pinned'' \<noteq> Some ''true''
      \<and> map_of annotations ''rebalancer.dev/allow-move'' \<noteq> Some ''false'' \<and> prio < 2000000000"
  by (auto simp: evictable_def policy_selects_def pod_protected_def keeps_data_def example_three_pods_def
      example_pod_named_def blank_defs example_spec_def)

theorem filterCandidates_correct_witness:
  "mset (snd (filterCandidates (plain_env 0) [] (New 0) example_three_pods example_spec [''n1'']))
     = {#mark_pod (example_pod_named ''a'' 10 []), mark_pod (example_pod_named ''c'' 5 [])#}
   \<and> sorted (map ps_priority (snd (filterCandidates (plain_env 0) [] (New 0) example_three_pods example_spec [''n1''])))"
proof -
  have pods: "snap_pods example_three_pods = [example_pod_named ''a'' 10 [], example_pod_named ''b'' 0 [(''rebalancer.dev/pinned'', ''true'')],
       example_pod_named ''c'' 5 []]" by (simp add: example_three_pods_def)
  have slo: "in_int32 (minReadySeconds slo)" if "pod \<in> set (snap_pods example_three_pods)" "ps_slo pod = Some slo" for pod slo
    using that by (auto simp: pods example_pod_named_def blank_defs)
  have "\<bar>policy_backoff example_spec\<bar> < 2 ^ 63" by (simp add: policy_backoff_def example_spec_def duration_defs defaultBackoff_def)
  note filterCandidates_correct [where p = "[]" and pl = "New 0" and hot = "[''n1'']" and snap = example_three_pods
      and spec = example_spec, OF go_runtime_plain_env slo this]
  then show ?thesis by (simp add: pods example_evictable)
qed

text \<open>
  No candidate is a DaemonSet pod, pinned, in a namespace the policy excludes or, when the policy
  says so, critical or guarded by an exhausted disruption budget; a StatefulSet pod is one only when the
  objective of its namespace allows it; and each runs on a node that was found hot and mounts no host
  path.
\<close>

lemma candidates_movable:
  assumes "go_runtime E"
  shows "list_all (movable E snap spec hot) (snd (filterCandidates E p pl snap spec hot))"
  using candidate_movable [OF assms] by (simp add: list_all_iff)

text \<open>
  When none of the policy's workload selectors compiles, the policy selects as if it had no
  workload selectors: the restriction to labelled workloads is lost, not enforced.
\<close>

lemma invalid_selectors_fail_open:
  assumes "\<And>s. s \<in> set (workloadSelectors spec) \<Longrightarrow> as_selector E s = None"
  shows "filterCandidates E p pl snap spec hot =
    filterCandidates E p pl snap (spec\<lparr>workloadSelectors := []\<rparr>) hot"
proof -
  have "buildSelectorSet E sels = []" if "\<And>s. s \<in> set sels \<Longrightarrow> as_selector E s = None" for sels
    using that by (induction sels) auto
  then have "buildSelectorSet E (workloadSelectors spec) = []" using assms by blast
  then show ?thesis by (simp add: filterCandidates_def considerPod_def)
qed

subsection \<open>Back-off\<close>

lemma snapshot_pod_lastEvicted:
  assumes "Snapshot E p rd pl = Inr snap" and "ps \<in> set (snap_pods snap)"
  shows "ps_lastEvicted ps = lastEvicted pl (pod_key (ps_object ps))"
  using assms(1)
proof (cases rule: Snapshot_InrE)
  case (1 nm pm ns pods cs ss pcs pds)
  with assms(2) show ?thesis by (auto simp: in_set_conv_nth buildPods_nth)
qed

text \<open>
  The back-off holds across reconciliations. Once the eviction of a pod is recorded at time \<open>t\<close>,
  then after any later recordings and prunings, no snapshot yields a pod of that namespace and name as
  a candidate while the clock readings of the filter stay before \<open>t\<close> plus the back-off.
\<close>

lemma backoff_blocks_candidates:
  assumes "go_runtime E" and "in_int64 (policy_backoff spec)" and "0 < policy_backoff spec"
    and "\<And>e. e \<in> set es \<Longrightarrow> t \<le> event_time e"
    and "Snapshot E q rd (fold (apply_event RecordEviction storePruned) es (RecordEviction t k pl)) = Inr snap"
    and "\<And>i. now_at E (1 # i # p) < t + policy_backoff spec"
  shows "list_all (\<lambda>c. pod_key (ps_object c) \<noteq> k) (snd (filterCandidates E p pl' snap spec hot))"
  unfolding list_all_iff
proof (intro ballI notI)
  fix c
  assume mem: "c \<in> set (snd (filterCandidates E p pl' snap spec hot))" and key: "pod_key (ps_object c) = k"
  obtain i where i: "i < length (snap_pods snap)" and c: "c = mark_pod (snap_pods snap ! i)"
    and keep: "kept E p pl' snap spec hot i (snap_pods snap ! i)"
    using candidate_kept [OF assms(1) mem] by blast
  have "lastEvicted (RecordEviction t k pl) k = Some t"
    by (simp add: planner_log.last_rec)
  then obtain t' where "lastEvicted (fold (apply_event RecordEviction storePruned) es (RecordEviction t k pl)) k = Some t'"
    and t': "t \<le> t'"
    using planner_log.last_run_ge [OF assms(4)] by blast
  then have "ps_lastEvicted (snap_pods snap ! i) = Some t'"
    using snapshot_pod_lastEvicted [OF assms(5), of "snap_pods snap ! i"] i key by (simp add: c)
  moreover have "now_at E (1 # i # p) - t' < policy_backoff spec" using assms(6) [of i] t' by linarith
  ultimately have "hasBackoff (now_at E (1 # i # p)) (snap_pods snap ! i) (policy_backoff spec)"
    by (simp add: hasBackoff_iff [OF assms(2,3)])
  with kept_movable(2) [OF keep] show False by simp
qed

end
