(* ===== verification/Variance.thy ===== *)
theory Variance
  imports SnapshotBuild
begin

text \<open>
  Utilisation, classification and variance (\<open>classifyNodes\<close>, \<open>computeVariance\<close>, \<open>simulateVariance\<close> and
  \<open>applyMove\<close> of \<open>controllers/planner/planner.go\<close>), in the \<open>float64\<close> arithmetic of the code: every
  operation rounds, and the sums are taken in the order the maps are visited in.

  The lemmas show that classification splits the nodes as its thresholds say and sorts the hot and the
  cold ones, that it is monotone in the usage, that a variance is never negative, is NaN as soon as
  one utilisation is not finite and is finite when all of them are of bounded magnitude, and what a simulated and an applied move write.
\<close>

definition half_hundred_MiB :: int where
  "half_hundred_MiB = 50 * 1024 * 1024"

text \<open>The defaults of \<open>Plan\<close> for weights that are both zero.\<close>

definition defaultWeights :: "resource_weights \<Rightarrow> resource_weights" where
  "defaultWeights w =
     (if feq (weight_cpu w) (Fin 0) \<and> feq (weight_memory w) (Fin 0)
      then w\<lparr>weight_cpu := fl (7 / 10), weight_memory := fl (3 / 10)\<rparr> else w)"

subsection \<open>Classification\<close>

definition nodeUtilization :: "'z kube_env_scheme \<Rightarrow> resource_weights \<Rightarrow> node_state \<Rightarrow> utilization" where
  "nodeUtilization E weights st =
     (let allocCPU = cpu_milli E (node_allocatable (ns_object st));
          allocMem = mem_value E (node_allocatable (ns_object st));
          cpuUtil = (if allocCPU > 0
            then fdiv (fmul (cpuCores (ns_usage st)) (Fin 1000)) (float_of_int allocCPU) else Fin 0);
          memUtil = (if allocMem > 0
            then fdiv (float_of_int (memoryBytes (ns_usage st))) (float_of_int allocMem) else Fin 0) in
      \<lparr>util_cpu = cpuUtil, util_memory = memUtil,
       util_weighted = fadd (fmul cpuUtil (weight_cpu weights)) (fmul memUtil (weight_memory weights))\<rparr>)"

definition temperatureOf :: "policy_spec \<Rightarrow> float64 \<Rightarrow> node_temperature" where
  "temperatureOf spec w =
     (if fge w (fsub (hotThreshold spec) (hysteresis spec)) then NodeHot
      else if fle w (fadd (coldThreshold spec) (hysteresis spec)) then NodeCold
      else NodeOK)"

definition classifyNode :: "'z kube_env_scheme \<Rightarrow> resource_weights \<Rightarrow> policy_spec \<Rightarrow> node_state \<Rightarrow> node_state" where
  "classifyNode E weights spec st =
     (let u = nodeUtilization E weights st in
      st\<lparr>ns_utilization := u, ns_classification := temperatureOf spec (util_weighted u)\<rparr>)"

fun classify_loop ::
    "'z kube_env_scheme \<Rightarrow> resource_weights \<Rightarrow> policy_spec \<Rightarrow> (string \<times> node_state) list \<Rightarrow>
     node_state gomap \<times> node_ref list \<times> node_ref list \<times> float64 gomap \<Rightarrow>
     node_state gomap \<times> node_ref list \<times> node_ref list \<times> float64 gomap" where
  "classify_loop E weights spec [] acc = acc"
| "classify_loop E weights spec ((k, st) # rest) (nodes, hot, cold, util) =
     (let st' = classifyNode E weights spec st;
          util' = AList.update (node_name (ns_object st)) (util_weighted (ns_utilization st')) util in
      classify_loop E weights spec rest
        (AList.update k st' nodes,
         (if ns_classification st' = NodeHot then hot @ [k] else hot),
         (if ns_classification st' = NodeCold then cold @ [k] else cold),
         util'))"

definition weightedAt :: "node_state gomap \<Rightarrow> node_ref \<Rightarrow> float64" where
  "weightedAt nodes n = (case map_of nodes n of
     None \<Rightarrow> Fin 0 | Some st \<Rightarrow> util_weighted (ns_utilization st))"

definition classifyNodes ::
    "'z kube_env_scheme \<Rightarrow> pos \<Rightarrow> node_state gomap \<Rightarrow> resource_weights \<Rightarrow> policy_spec \<Rightarrow>
     node_state gomap \<times> node_ref list \<times> node_ref list \<times> float64 gomap" where
  "classifyNodes E p nodes weights spec =
     (let (nodes', hot, cold, util) = classify_loop E weights spec (go_range E p nodes) (nodes, [], [], []) in
      (nodes',
       sort_slice E (\<lambda>a b. fgt (weightedAt nodes' a) (weightedAt nodes' b)) hot,
       sort_slice E (\<lambda>a b. flt (weightedAt nodes' a) (weightedAt nodes' b)) cold,
       util))"

subsection \<open>Variance\<close>

fun sum_loop :: "float64 list \<Rightarrow> float64 \<Rightarrow> float64" where
  "sum_loop [] subtotal = subtotal"
| "sum_loop (v # vs) subtotal = sum_loop vs (fadd subtotal v)"

fun square_loop :: "float64 \<Rightarrow> float64 list \<Rightarrow> float64 \<Rightarrow> float64" where
  "square_loop mean [] variance = variance"
| "square_loop mean (v # vs) variance =
     (let diff = fsub v mean in square_loop mean vs (fadd variance (fmul diff diff)))"

definition computeVariance :: "'z runtime_scheme \<Rightarrow> pos \<Rightarrow> float64 gomap \<Rightarrow> float64" where
  "computeVariance E p util =
     (if util = [] then Fin 0 else
      let n = float_of_int (int (length util));
          subtotal = sum_loop (map snd (go_range E (0 # p) util)) (Fin 0);
          mean = fdiv subtotal n;
          variance = square_loop mean (map snd (go_range E (1 # p) util)) (Fin 0) in
      fdiv variance n)"

subsection \<open>Moves\<close>

text \<open>The requests of a pod as the planner counts them, with the stand-ins for a pod that requests nothing.\<close>

definition requestCPU :: "'z kube_env_scheme \<Rightarrow> pod_state \<Rightarrow> float64" where
  "requestCPU E pod =
     (let cpu = fdiv (float_of_int (cpu_milli E (ps_requests pod))) (Fin 1000) in
      if feq cpu (Fin 0) then fl (5 / 100) else cpu)"

definition requestMem :: "'z kube_env_scheme \<Rightarrow> pod_state \<Rightarrow> float64" where
  "requestMem E pod =
     (let mem = float_of_int (mem_value E (ps_requests pod)) in
      if feq mem (Fin 0) then float_of_int half_hundred_MiB else mem)"

text \<open>Copying \<open>util\<close> entry by entry gives the same map.\<close>

definition simulateVariance ::
    "'z kube_env_scheme \<Rightarrow> pos \<Rightarrow> float64 gomap \<Rightarrow> string \<Rightarrow> string \<Rightarrow> float64 \<Rightarrow> float64 \<Rightarrow>
     resource_weights \<Rightarrow> node_state gomap \<Rightarrow> float64 gomap \<times> float64" where
  "simulateVariance E p util from to cpu mem weights nodes =
     (case (map_of nodes from, map_of nodes to) of
        (Some fromNode, Some toNode) \<Rightarrow>
          let cpuAllocFrom = fdiv (float_of_int (cpu_milli E (node_allocatable (ns_object fromNode)))) (Fin 1000);
              cpuAllocTo = fdiv (float_of_int (cpu_milli E (node_allocatable (ns_object toNode)))) (Fin 1000);
              memAllocFrom = float_of_int (mem_value E (node_allocatable (ns_object fromNode)));
              memAllocTo = float_of_int (mem_value E (node_allocatable (ns_object toNode)));
              util1 =
                (if fgt cpuAllocFrom (Fin 0) then
                   let fromCPU0 = fsub (cpuCores (ns_usage fromNode)) cpu;
                       fromCPU = (if flt fromCPU0 (Fin 0) then Fin 0 else fromCPU0);
                       fromMem0 = fsub (float_of_int (memoryBytes (ns_usage fromNode))) mem;
                       fromMem = (if flt fromMem0 (Fin 0) then Fin 0 else fromMem0) in
                   AList.update from
                     (fadd (fmul (fdiv fromCPU cpuAllocFrom) (weight_cpu weights))
                           (fmul (fdiv fromMem memAllocFrom) (weight_memory weights))) util
                 else util);
              util2 =
                (if fgt cpuAllocTo (Fin 0) then
                   let toCPU = fadd (cpuCores (ns_usage toNode)) cpu;
                       toMem = fadd (float_of_int (memoryBytes (ns_usage toNode))) mem in
                   AList.update to
                     (fadd (fmul (fdiv toCPU cpuAllocTo) (weight_cpu weights))
                           (fmul (fdiv toMem memAllocTo) (weight_memory weights))) util1
                 else util1) in
          (util2, computeVariance E p util2)
      | _ \<Rightarrow> (util, computeVariance E p util))"

definition applyMove :: "'z kube_env_scheme \<Rightarrow> snapshot \<Rightarrow> pod_state \<Rightarrow> node_ref \<Rightarrow> snapshot" where
  "applyMove E snap pod target =
     (case (map_of (snap_nodes snap) (ps_nodeName pod), map_of (snap_nodes snap) target) of
        (Some fromNode, Some _) \<Rightarrow>
          let cpuDelta = requestCPU E pod;
              memDelta = int_of_float (float_oor E) (requestMem E pod);
              fu = ns_usage fromNode;
              cpu0 = fsub (cpuCores fu) cpuDelta;
              fromNode' = fromNode\<lparr>ns_usage := fu\<lparr>
                cpuCores := (if flt cpu0 (Fin 0) then Fin 0 else cpu0),
                memoryBytes := wrap64 (memoryBytes fu - memDelta)\<rparr>\<rparr>;
              nodes1 = AList.update (ps_nodeName pod) fromNode' (snap_nodes snap) in
          (case map_of nodes1 target of
             None \<Rightarrow> snap
           | Some toNode \<Rightarrow>
               let tu = ns_usage toNode;
                   toNode' = toNode\<lparr>ns_usage := tu\<lparr>
                     cpuCores := fadd (cpuCores tu) cpuDelta,
                     memoryBytes := wrap64 (memoryBytes tu + memDelta)\<rparr>\<rparr> in
               snap\<lparr>snap_nodes := AList.update target toNode' nodes1\<rparr>)
      | _ \<Rightarrow> snap)"

subsection \<open>Classification splits the nodes\<close>

abbreviation newTemperature :: "'z kube_env_scheme \<Rightarrow> resource_weights \<Rightarrow> policy_spec \<Rightarrow> node_state \<Rightarrow> node_temperature" where
  "newTemperature E weights spec st \<equiv> temperatureOf spec (util_weighted (nodeUtilization E weights st))"

lemma classifyNode_sel [simp]:
  "ns_object (classifyNode E weights spec st) = ns_object st"
  "ns_usage (classifyNode E weights spec st) = ns_usage st"
  "ns_classes (classifyNode E weights spec st) = ns_classes st"
  "ns_utilization (classifyNode E weights spec st) = nodeUtilization E weights st"
  "ns_classification (classifyNode E weights spec st) = newTemperature E weights spec st"
  by (simp_all add: classifyNode_def Let_def)

lemma classify_loop_facts:
  assumes "wf_map rest" and "\<And>k st. (k, st) \<in> set rest \<Longrightarrow> node_name (ns_object st) = k"
    and "classify_loop E weights spec rest (nodes, hot, cold, util) = (nodes', hot', cold', util')"
  shows "map_of nodes' k = (case map_of rest k of
           None \<Rightarrow> map_of nodes k | Some st \<Rightarrow> Some (classifyNode E weights spec st))
    \<and> hot' = hot @ map fst (filter (\<lambda>(k, st). newTemperature E weights spec st = NodeHot) rest)
    \<and> cold' = cold @ map fst (filter (\<lambda>(k, st). newTemperature E weights spec st = NodeCold) rest)
    \<and> map_of util' k = (case map_of rest k of
           None \<Rightarrow> map_of util k | Some st \<Rightarrow> Some (util_weighted (nodeUtilization E weights st)))"
  using assms
proof (induction rest arbitrary: nodes hot cold util)
  case (Cons e rest)
  obtain j st where e: "e = (j, st)" by (cases e)
  have wf: "wf_map rest" and none: "map_of rest j = None" and name: "node_name (ns_object st) = j"
    using Cons.prems(1,2) by (auto simp: e wf_map_def map_of_eq_None_iff)
  have names: "\<And>k st. (k, st) \<in> set rest \<Longrightarrow> node_name (ns_object st) = k" using Cons.prems(2) by simp
  note run = Cons.prems(3) [unfolded e classify_loop.simps Let_def]
  show ?case
    using Cons.IH [OF wf names run] none name by (auto simp: e map_of_update split: option.splits)
qed simp

lemmas classify_loop_eq = classify_loop_facts [THEN conjunct1]
  classify_loop_facts [THEN conjunct2, THEN conjunct1]
  classify_loop_facts [THEN conjunct2, THEN conjunct2, THEN conjunct1]
  classify_loop_facts [THEN conjunct2, THEN conjunct2, THEN conjunct2]

lemma wf_map_classify_loop:
  "wf_map nodes \<Longrightarrow> wf_map util \<Longrightarrow>
   classify_loop E weights spec rest (nodes, hot, cold, util) = (nodes', hot', cold', util') \<Longrightarrow>
   wf_map nodes' \<and> wf_map util'"
proof (induction rest arbitrary: nodes hot cold util)
  case (Cons e rest)
  obtain j st where e: "e = (j, st)" by (cases e)
  note run = Cons.prems(3) [unfolded e classify_loop.simps Let_def]
  show ?case by (rule Cons.IH [OF _ _ run]) (simp_all add: Cons.prems)
qed simp

text \<open>The facts about a classification that the planner builds on.\<close>

lemma classifyNodes_facts:
  assumes run: "go_runtime E" and wf: "wf_nodes nodes"
    and cls: "classifyNodes E p nodes weights spec = (nodes', hot, cold, util)"
  shows classify_lookup: "map_of nodes' k = map_option (classifyNode E weights spec) (map_of nodes k)"
    and classify_util: "map_of util k = map_option (\<lambda>st. util_weighted (nodeUtilization E weights st)) (map_of nodes k)"
    and classify_hot: "k \<in> set hot \<longleftrightarrow> (\<exists>st. map_of nodes k = Some st \<and> newTemperature E weights spec st = NodeHot)"
    and classify_cold: "k \<in> set cold \<longleftrightarrow> (\<exists>st. map_of nodes k = Some st \<and> newTemperature E weights spec st = NodeCold)"
    and classify_distinct: "distinct hot \<and> distinct cold"
    and classify_wf: "wf_nodes nodes' \<and> wf_map util"
    and classify_sorted:
      "\<forall>n\<in>set hot. weightedAt nodes' n \<noteq> NaN \<Longrightarrow> sorted_wrt (\<lambda>a b. fge (weightedAt nodes' a) (weightedAt nodes' b)) hot"
      "\<forall>n\<in>set cold. weightedAt nodes' n \<noteq> NaN \<Longrightarrow> sorted_wrt (\<lambda>a b. fle (weightedAt nodes' a) (weightedAt nodes' b)) cold"
proof -
  have wfm: "wf_map nodes" and nm: "\<And>k st. map_of nodes k = Some st \<Longrightarrow> node_name (ns_object st) = k"
    using wf by (auto simp: wf_nodes_def)
  let ?r = "go_range E p nodes"
  have wfr: "wf_map ?r" by (rule go_runtime.wf_map_go_range [OF run wfm])
  have lookup: "map_of ?r k = map_of nodes k" for k by (rule go_runtime.map_of_go_range [OF run wfm])
  have names: "node_name (ns_object st) = k" if "(k, st) \<in> set ?r" for k st
    using that nm lookup wfr by (simp add: wf_map_mem_iff)
  obtain n' h' c' u' where loop: "classify_loop E weights spec ?r (nodes, [], [], []) = (n', h', c', u')"
    by (cases "classify_loop E weights spec ?r (nodes, [], [], [])") auto
  note eqs = classify_loop_eq [OF wfr names loop]
  have "(nodes', hot, cold, util) = (n', sort_slice E (\<lambda>a b. fgt (weightedAt n' a) (weightedAt n' b)) h',
      sort_slice E (\<lambda>a b. flt (weightedAt n' a) (weightedAt n' b)) c', u')"
    using cls by (simp only: classifyNodes_def loop Let_def prod.case)
  then have res: "nodes' = n'" "hot = sort_slice E (\<lambda>a b. fgt (weightedAt n' a) (weightedAt n' b)) h'"
      "cold = sort_slice E (\<lambda>a b. flt (weightedAt n' a) (weightedAt n' b)) c'" "util = u'"
    by (simp_all only: prod.inject)
  show lk: "map_of nodes' k = map_option (classifyNode E weights spec) (map_of nodes k)" for k
    using eqs(1) [of k] by (simp add: res lookup split: option.splits)
  show "map_of util k = map_option (\<lambda>st. util_weighted (nodeUtilization E weights st)) (map_of nodes k)"
    using eqs(4) [of k] by (simp add: res lookup split: option.splits)
  have mem: "k \<in> set (map fst (filter (\<lambda>(k, st). P st) ?r)) \<longleftrightarrow> (\<exists>st. map_of nodes k = Some st \<and> P st)" for k P
    by (force simp: wf_map_mem_iff [OF wfr] lookup image_iff)
  show "k \<in> set hot \<longleftrightarrow> (\<exists>st. map_of nodes k = Some st \<and> newTemperature E weights spec st = NodeHot)"
    by (simp only: res go_runtime.set_sort_slice [OF run] eqs(2) append_Nil mem)
  show "k \<in> set cold \<longleftrightarrow> (\<exists>st. map_of nodes k = Some st \<and> newTemperature E weights spec st = NodeCold)"
    by (simp only: res go_runtime.set_sort_slice [OF run] eqs(3) append_Nil mem)
  have "distinct (map fst (filter (\<lambda>(k, st). P st) ?r))" for P
    using wf_map_filter [OF wfr, of "\<lambda>(k, st). P st"] by (simp add: wf_map_def)
  then show "distinct hot \<and> distinct cold"
    by (simp add: res go_runtime.distinct_sort_slice [OF run] eqs(2,3))
  have "wf_map n' \<and> wf_map u'" by (rule wf_map_classify_loop [OF wfm wf_map_Nil loop])
  moreover have "node_name (ns_object st) = k" if "map_of nodes' k = Some st" for k st
    using that by (auto simp: lk dest: nm)
  ultimately show "wf_nodes nodes' \<and> wf_map util" by (simp add: wf_nodes_def res)
  show "sorted_wrt (\<lambda>a b. fge (weightedAt nodes' a) (weightedAt nodes' b)) hot"
    if "\<forall>n\<in>set hot. weightedAt nodes' n \<noteq> NaN"
  proof -
    have "sorted_wrt (\<lambda>a b. \<not> fgt (weightedAt n' b) (weightedAt n' a)) hot"
      unfolding res by (rule go_runtime.sorted_sort_slice [OF run], rule strict_weak_on_key(2))
        (use that in \<open>simp add: res go_runtime.set_sort_slice [OF run]\<close>)
    then show ?thesis
      by (rule sorted_wrt_mono_rel [rotated]) (use that in \<open>auto simp: res not_flt\<close>)
  qed
  show "sorted_wrt (\<lambda>a b. fle (weightedAt nodes' a) (weightedAt nodes' b)) cold"
    if "\<forall>n\<in>set cold. weightedAt nodes' n \<noteq> NaN"
  proof -
    have "sorted_wrt (\<lambda>a b. \<not> flt (weightedAt n' b) (weightedAt n' a)) cold"
      unfolding res by (rule go_runtime.sorted_sort_slice [OF run], rule strict_weak_on_key(1))
        (use that in \<open>simp add: res go_runtime.set_sort_slice [OF run]\<close>)
    then show ?thesis
      by (rule sorted_wrt_mono_rel [rotated]) (use that in \<open>auto simp: res not_flt\<close>)
  qed
qed

subsection \<open>An example cluster\<close>

text \<open>Two nodes of four cores and 8192 bytes, and a pod that asks for one core and 1024 bytes.\<close>

definition example_node_state :: "string \<Rightarrow> rat \<Rightarrow> int \<Rightarrow> node_state" where
  "example_node_state name cpu mem = blank_node_state\<lparr>
     ns_object := blank_node\<lparr>node_name := name,
       node_allocatable := [(''cpu'', 4000000000), (''memory'', 8192000000000)]\<rparr>,
     ns_usage := zero_usage\<lparr>cpuCores := Fin cpu, memoryBytes := mem\<rparr>\<rparr>"

definition example_mover :: pod_state where
  "example_mover = blank_pod_state\<lparr>
     ps_object := blank_pod\<lparr>pod_name := ''web'', pod_namespace := ''prod'', pod_nodeName := ''busy'',
       pod_containers := [\<lparr>c_requests = [(''cpu'', 1000000000), (''memory'', 1024000000000)], c_limits = []\<rparr>]\<rparr>,
     ps_nodeName := ''busy'', ps_requests := [(''cpu'', 1000000000), (''memory'', 1024000000000)]\<rparr>"

definition example_cluster :: snapshot where
  "example_cluster = blank_snapshot\<lparr>
     snap_nodes := [(''busy'', example_node_state ''busy'' (7 / 2) 4096),
                    (''idle'', example_node_state ''idle'' (1 / 2) 1024)],
     snap_pods := [example_mover]\<rparr>"

lemma example_node_state_sel [simp]:
  "node_name (ns_object (example_node_state n c m)) = n"
  "node_taints (ns_object (example_node_state n c m)) = []"
  "node_allocatable (ns_object (example_node_state n c m)) = [(''cpu'', 4000000000), (''memory'', 8192000000000)]"
  "cpuCores (ns_usage (example_node_state n c m)) = Fin c"
  "memoryBytes (ns_usage (example_node_state n c m)) = m"
  by (simp_all add: example_node_state_def blank_node_def)

lemma wf_example_cluster: "wf_nodes (snap_nodes example_cluster)"
  by (auto simp: example_cluster_def wf_nodes_def wf_map_def split: if_splits)

lemma example_utilization:
  "util_weighted (nodeUtilization (plain_env t) (resourceWeights example_spec) (example_node_state n (7 / 2) 4096)) = Fin (25 / 32)"
  "util_weighted (nodeUtilization (plain_env t) (resourceWeights example_spec) (example_node_state n (1 / 2) 1024)) = Fin (1 / 8)"
  by (simp_all add: nodeUtilization_def Let_def example_spec_def)

lemma example_classified:
  "classifyNodes (plain_env t) p (snap_nodes example_cluster) (resourceWeights example_spec) example_spec =
     ([(''busy'', classifyNode (plain_env t) (resourceWeights example_spec) example_spec (example_node_state ''busy'' (7 / 2) 4096)),
       (''idle'', classifyNode (plain_env t) (resourceWeights example_spec) example_spec (example_node_state ''idle'' (1 / 2) 1024))],
      [''busy''], [''idle''], [(''busy'', Fin (25 / 32)), (''idle'', Fin (1 / 8))])"
proof -
  have temp: "temperatureOf example_spec (Fin (25 / 32)) = NodeHot" "temperatureOf example_spec (Fin (1 / 8)) = NodeCold"
    by (simp_all add: temperatureOf_def example_spec_def fsub_def)
  have range: "go_range (plain_env t) p (snap_nodes example_cluster) = snap_nodes example_cluster"
    using wf_example_cluster by (simp add: wf_nodes_def)
  show ?thesis
    by (simp add: classifyNodes_def range, simp add: example_cluster_def Let_def example_utilization temp
        sort_slice_def less_at_def insertion_order_def)
qed

text \<open>
  C22: classification splits the nodes by the thresholds of the policy. A node is hot when its pressure
  is at least the hot threshold minus the hysteresis, cold when it is not hot and its pressure is at
  most the cold threshold plus the hysteresis, and in neither list otherwise, as when its pressure is
  not a number. No node is in both lists or twice in one; the hottest node is first among the hot, the
  coldest among the cold, in every iteration order of the map.
\<close>

theorem classifyNodes_splits:
  assumes "go_runtime E" and "wf_nodes nodes"
    and "classifyNodes E p nodes weights spec = (nodes', hot, cold, util)"
  shows "set hot = {k. map_of nodes k \<noteq> None
        \<and> fge (weightedAt nodes' k) (fsub (hotThreshold spec) (hysteresis spec))}
    \<and> set cold = {k. map_of nodes k \<noteq> None \<and> k \<notin> set hot
        \<and> fle (weightedAt nodes' k) (fadd (coldThreshold spec) (hysteresis spec))}
    \<and> distinct (hot @ cold)
    \<and> sorted_wrt (\<lambda>a b. fge (weightedAt nodes' a) (weightedAt nodes' b)) hot
    \<and> sorted_wrt (\<lambda>a b. fle (weightedAt nodes' a) (weightedAt nodes' b)) cold"
proof -
  note facts = classifyNodes_facts [OF assms]
  have w: "weightedAt nodes' k = util_weighted (nodeUtilization E weights st)" if "map_of nodes k = Some st" for k st
    using that by (simp add: weightedAt_def facts(1))
  have hot: "set hot = {k. map_of nodes k \<noteq> None
        \<and> fge (weightedAt nodes' k) (fsub (hotThreshold spec) (hysteresis spec))}"
    by (auto simp: facts(3) w temperatureOf_def split: if_splits)
  have cold: "set cold = {k. map_of nodes k \<noteq> None \<and> k \<notin> set hot
        \<and> fle (weightedAt nodes' k) (fadd (coldThreshold spec) (hysteresis spec))}"
    by (auto simp: facts(4) hot w temperatureOf_def split: if_splits)
  show ?thesis
  proof (intro conjI hot cold)
    show "distinct (hot @ cold)" using facts(5) cold by auto
    have "\<forall>n\<in>set hot. weightedAt nodes' n \<noteq> NaN" by (auto simp: hot dest: fle_not_NaN)
    then show "sorted_wrt (\<lambda>a b. fge (weightedAt nodes' a) (weightedAt nodes' b)) hot" by (rule facts(7))
    have "\<forall>n\<in>set cold. weightedAt nodes' n \<noteq> NaN" by (auto simp: cold dest: fle_not_NaN)
    then show "sorted_wrt (\<lambda>a b. fle (weightedAt nodes' a) (weightedAt nodes' b)) cold" by (rule facts(8))
  qed
qed

theorem classifyNodes_splits_witness:
  "\<exists>nodes' util. classifyNodes (plain_env 0) [] (snap_nodes example_cluster) (resourceWeights example_spec) example_spec
       = (nodes', [''busy''], [''idle''], util)
     \<and> fge (weightedAt nodes' ''busy'') (fsub (hotThreshold example_spec) (hysteresis example_spec))
     \<and> fle (weightedAt nodes' ''idle'') (fadd (coldThreshold example_spec) (hysteresis example_spec))"
proof -
  note run = example_classified [of 0 "[]"]
  note split = classifyNodes_splits [OF go_runtime_plain_env wf_example_cluster run]
  have b: "''busy'' \<in> set [''busy'']" and i: "''idle'' \<in> set [''idle'']" by simp_all
  note hot = b [unfolded split [THEN conjunct1] mem_Collect_eq, THEN conjunct2]
  note cold = i [unfolded split [THEN conjunct2, THEN conjunct1] mem_Collect_eq, THEN conjunct2, THEN conjunct2]
  show ?thesis by (intro exI conjI) (rule run, rule hot, rule cold)
qed

lemma fdiv_alloc_mono:
  assumes "fle x y" and "0 < n" and "fdiv x (float_of_int n) \<noteq> NaN" and "fdiv y (float_of_int n) \<noteq> NaN"
  shows "fle (fdiv x (float_of_int n)) (fdiv y (float_of_int n))"
proof -
  have "fle (Fin 1) (float_of_int n)" using float_of_int_mono [of 1 n] assms(2) by simp
  then consider "float_of_int n = PInf" | c where "float_of_int n = Fin c" "1 \<le> c"
    by (cases "float_of_int n") auto
  then show ?thesis
  proof cases
    case 1
    with assms show ?thesis by (cases x; cases y) auto
  next
    case (2 c)
    with assms(1) show ?thesis by (simp add: fdiv_mono)
  qed
qed

lemma fadd_not_NaN: "fadd x y \<noteq> NaN \<Longrightarrow> x \<noteq> NaN \<and> y \<noteq> NaN"
  by (cases x; cases y) auto

lemma fmul_not_NaN: "fmul x y \<noteq> NaN \<Longrightarrow> x \<noteq> NaN \<and> y \<noteq> NaN"
  by (cases x; cases y) auto

lemma fdiv_not_NaN: "fdiv x y \<noteq> NaN \<Longrightarrow> x \<noteq> NaN \<and> y \<noteq> NaN"
  by (cases x; cases y) auto

lemma temperatureOf_mono:
  assumes "fle w w'"
  shows "temperatureOf spec w \<le> temperatureOf spec w'"
  using fle_trans [OF _ assms] fle_trans [OF assms]
  by (auto simp: temperatureOf_def less_eq_node_temperature_def)

text \<open>
  C23: with non-negative weights, a node that uses more of both resources is never classified colder
  than one with the same capacity that uses less, rounding included.
\<close>

theorem classification_monotone:
  assumes "ns_object st' = ns_object st"
    and "fle (cpuCores (ns_usage st)) (cpuCores (ns_usage st'))"
    and "memoryBytes (ns_usage st) \<le> memoryBytes (ns_usage st')"
    and "weight_cpu weights = Fin a" and "weight_memory weights = Fin b" and "0 \<le> a" and "0 \<le> b"
    and "util_weighted (nodeUtilization E weights st) \<noteq> NaN"
    and "util_weighted (nodeUtilization E weights st') \<noteq> NaN"
  shows "ns_classification (classifyNode E weights spec st) \<le> ns_classification (classifyNode E weights spec st')"
proof -
  let ?c = "\<lambda>s. util_cpu (nodeUtilization E weights s)" and ?m = "\<lambda>s. util_memory (nodeUtilization E weights s)"
  have w: "util_weighted (nodeUtilization E weights s) = fadd (fmul (?c s) (Fin a)) (fmul (?m s) (Fin b))" for s
    by (simp add: nodeUtilization_def Let_def assms(4,5))
  note nn = assms(8,9) [unfolded w]
  note nf = nn [THEN fadd_not_NaN, THEN conjunct1] nn [THEN fadd_not_NaN, THEN conjunct2]
  note nu = nf [THEN fmul_not_NaN, THEN conjunct1]
  have "fle (?c st) (?c st')"
  proof (cases "cpu_milli E (node_allocatable (ns_object st)) > 0")
    case True
    then have c: "?c s = fdiv (fmul (cpuCores (ns_usage s)) (Fin 1000))
        (float_of_int (cpu_milli E (node_allocatable (ns_object st))))" if "ns_object s = ns_object st" for s
      using that by (simp add: nodeUtilization_def Let_def)
    note n1 = nu(1) [unfolded c [OF refl]] and n2 = nu(2) [unfolded c [OF assms(1)]]
    show ?thesis unfolding c [OF refl] c [OF assms(1)]
      by (intro fdiv_alloc_mono [OF _ True n1 n2] fmul_mono_right assms(2))
         (use n1 n2 in \<open>auto dest: fdiv_not_NaN\<close>)
  qed (simp add: nodeUtilization_def Let_def assms(1))
  moreover have "fle (?m st) (?m st')"
  proof (cases "mem_value E (node_allocatable (ns_object st)) > 0")
    case True
    then have m: "?m s = fdiv (float_of_int (memoryBytes (ns_usage s)))
        (float_of_int (mem_value E (node_allocatable (ns_object st))))" if "ns_object s = ns_object st" for s
      using that by (simp add: nodeUtilization_def Let_def)
    show ?thesis unfolding m [OF refl] m [OF assms(1)]
      by (rule fdiv_alloc_mono [OF float_of_int_mono [OF assms(3)] True])
         (use nu(3,4) m [OF refl] m [OF assms(1)] in auto)
  qed (simp add: nodeUtilization_def Let_def assms(1))
  ultimately have "fle (util_weighted (nodeUtilization E weights st)) (util_weighted (nodeUtilization E weights st'))"
    unfolding w by (intro fadd_mono nn fmul_mono_right assms(6,7) nf)
  then show ?thesis by (simp add: temperatureOf_mono)
qed


theorem classification_monotone_witness:
  "ns_classification (classifyNode (plain_env 0) (resourceWeights example_spec) example_spec
       (example_node_state ''n'' (1 / 2) 1024))
   \<le> ns_classification (classifyNode (plain_env 0) (resourceWeights example_spec) example_spec
       (example_node_state ''n'' (7 / 2) 4096))"
proof (rule classification_monotone [where a = "3 / 4" and b = "1 / 4"])
  show "ns_object (example_node_state ''n'' (7 / 2) 4096) = ns_object (example_node_state ''n'' (1 / 2) 1024)"
    by (simp add: example_node_state_def)
qed (simp_all only: example_utilization, simp_all add: example_spec_def)

text \<open>Once a sum has met an infinity it stays there or becomes NaN.\<close>

lemma sum_loop_absorb:
  assumes "v = NaN \<or> v = PInf \<or> v = NInf"
  shows "acc = NaN \<or> acc = v \<Longrightarrow> sum_loop vs acc = NaN \<or> sum_loop vs acc = v"
    and "v \<in> set vs \<Longrightarrow> sum_loop vs acc = NaN \<or> sum_loop vs acc = v"
proof -
  have keep: "sum_loop vs acc = NaN \<or> sum_loop vs acc = v" if "acc = NaN \<or> acc = v" for vs acc
    using that
  proof (induction vs arbitrary: acc)
    case (Cons x xs)
    have "fadd acc x = NaN \<or> fadd acc x = v" using Cons.prems assms by (cases x) auto
    then show ?case using Cons.IH by simp
  qed simp
  then show "acc = NaN \<or> acc = v \<Longrightarrow> sum_loop vs acc = NaN \<or> sum_loop vs acc = v" .
  show "v \<in> set vs \<Longrightarrow> sum_loop vs acc = NaN \<or> sum_loop vs acc = v"
  proof (induction vs arbitrary: acc)
    case (Cons x xs)
    show ?case
    proof (cases "v \<in> set xs")
      case False
      with Cons.prems have "fadd acc x = NaN \<or> fadd acc x = v" using assms by (cases acc) auto
      then show ?thesis by (simp add: keep)
    qed (simp add: Cons.IH)
  qed simp
qed

lemma square_loop_NaN: "acc = NaN \<Longrightarrow> square_loop mean vs acc = NaN"
  by (induction vs arbitrary: acc) (auto simp: Let_def)

lemma square_loop_bad: "v \<in> set vs \<Longrightarrow> fsub v mean = NaN \<Longrightarrow> square_loop mean vs acc = NaN"
proof (induction vs arbitrary: acc)
  case (Cons x xs)
  have "fadd acc NaN = NaN" by (cases acc) auto
  with Cons show ?case by (auto simp: Let_def square_loop_NaN)
qed simp

lemma nonneg_square_loop: "nonneg_or_nan acc \<Longrightarrow> nonneg_or_nan (square_loop mean vs acc)"
  by (induction vs arbitrary: acc) (auto simp: Let_def intro!: go_intros)

lemma nonneg_computeVariance: "nonneg_or_nan (computeVariance E p util)"
  by (auto simp: computeVariance_def Let_def intro!: nonneg_fdiv nonneg_square_loop nonneg_float_of_int)

lemma computeVariance_nonfinite:
  assumes "go_runtime E" and "wf_map util" and k: "map_of util k = Some v" and bad: "\<And>a. v \<noteq> Fin a"
  shows "computeVariance E p util = NaN"
proof -
  let ?n = "float_of_int (int (length util))"
  have v: "v = NaN \<or> v = PInf \<or> v = NInf" using bad by (cases v) auto
  have mem: "v \<in> set (map snd (go_range E q util))" for q
    using map_of_SomeD [OF k] by (force simp: go_runtime.set_go_range [OF assms(1,2)])
  have "fle (Fin 1) ?n" using float_of_int_mono [of 1 "int (length util)"] map_of_SomeD [OF k] by (cases util) auto
  then have n: "?n = PInf \<or> (\<exists>c. ?n = Fin c \<and> 1 \<le> c)" by (cases ?n) auto
  have "sum_loop (map snd (go_range E (0 # p) util)) (Fin 0) \<in> {NaN, v}"
    using sum_loop_absorb(2) [OF v mem] by auto
  then have "fsub v (fdiv (sum_loop (map snd (go_range E (0 # p) util)) (Fin 0)) ?n) = NaN"
    using v n by (auto simp: fsub_def)
  with mem have "square_loop (fdiv (sum_loop (map snd (go_range E (0 # p) util)) (Fin 0)) ?n)
      (map snd (go_range E (1 # p) util)) (Fin 0) = NaN"
    by (rule square_loop_bad)
  then show "computeVariance E p util = NaN"
    using map_of_SomeD [OF k] by (auto simp: computeVariance_def Let_def)
qed

text \<open>
  A move changes nothing but the usage of its two nodes. The memory it takes from one it gives to
  the other, modulo 64 bits; the CPU figure of the source stays non-negative, while its memory figure
  becomes negative as soon as the pod requests more than the node is seen to use.
\<close>

lemma applyMove_conserves:
  assumes "wf_nodes (snap_nodes snap)" and "ps_nodeName pod \<noteq> target"
    and "map_of (snap_nodes snap) (ps_nodeName pod) = Some f" and "map_of (snap_nodes snap) target = Some t"
    and "int_of_float (float_oor E) (requestMem E pod) = d" and "in_int64 (memoryBytes (ns_usage f) - d)"
  shows "\<exists>fu tu. snap_nodes (applyMove E snap pod target) =
        AList.update target (t\<lparr>ns_usage := tu\<rparr>) (AList.update (ps_nodeName pod) (f\<lparr>ns_usage := fu\<rparr>) (snap_nodes snap))
      \<and> applyMove E snap pod target = snap\<lparr>snap_nodes := snap_nodes (applyMove E snap pod target)\<rparr>
      \<and> wf_nodes (snap_nodes (applyMove E snap pod target))
      \<and> wrap64 (memoryBytes fu + memoryBytes tu) = wrap64 (memoryBytes (ns_usage f) + memoryBytes (ns_usage t))
      \<and> nonneg_or_nan (cpuCores fu)
      \<and> (memoryBytes fu < 0 \<longleftrightarrow> memoryBytes (ns_usage f) < d)"
proof -
  have names: "node_name (ns_object f) = ps_nodeName pod" "node_name (ns_object t) = target"
    using assms(1,3,4) by (auto simp: wf_nodes_def)
  have wrap: "wrap64 (memoryBytes (ns_usage f) - d + wrap64 (memoryBytes (ns_usage t) + d))
      = wrap64 (memoryBytes (ns_usage f) + memoryBytes (ns_usage t))"
    using wrap64_add [of "memoryBytes (ns_usage f) - d" "memoryBytes (ns_usage t) + d"] assms(6) by simp
  let ?cpu = "fsub (cpuCores (ns_usage f)) (requestCPU E pod)"
  let ?fu = "(ns_usage f)\<lparr>cpuCores := (if flt ?cpu (Fin 0) then Fin 0 else ?cpu),
      memoryBytes := wrap64 (memoryBytes (ns_usage f) - d)\<rparr>"
  let ?tu = "(ns_usage t)\<lparr>cpuCores := fadd (cpuCores (ns_usage t)) (requestCPU E pod),
      memoryBytes := wrap64 (memoryBytes (ns_usage t) + d)\<rparr>"
  have move: "applyMove E snap pod target = snap\<lparr>snap_nodes := AList.update target (t\<lparr>ns_usage := ?tu\<rparr>)
      (AList.update (ps_nodeName pod) (f\<lparr>ns_usage := ?fu\<rparr>) (snap_nodes snap))\<rparr>"
    using assms(2-5) by (simp add: applyMove_def Let_def map_of_update)
  show ?thesis
    by (rule exI [of _ ?fu], rule exI [of _ ?tu])
       (use assms(1,2,6) names in \<open>auto simp: move wrap nonneg_or_nan_def intro!: wf_nodes_updateI\<close>)
qed

subsection \<open>The variance of a cluster within bounds\<close>

text \<open>A float of absolute value at most \<open>r\<close>.\<close>

definition within_abs :: "rat \<Rightarrow> float64 \<Rightarrow> bool" where
  "within_abs r x \<longleftrightarrow> (\<exists>a. x = Fin a \<and> \<bar>a\<bar> \<le> r)"

lemma magnitude_within: "magnitude k x \<longleftrightarrow> within_abs (2 ^ k) x"
  by (simp add: magnitude_def within_abs_def)

lemma fl_multiple:
  assumes "n \<le> 2 ^ 53" and "k \<le> 900"
  shows "fl (of_nat n * 2 ^ k) = Fin (of_nat n * 2 ^ k)"
proof -
  have "int n \<le> 2 ^ 53" using assms(1) by (metis of_nat_le_iff of_nat_numeral of_nat_power)
  then have r: "round53 (of_nat n * 2 ^ k) = of_nat n * 2 ^ k"
    using round53_exact [of "int n" "int k"] by (simp add: pow2_nat)
  have "(of_nat n :: rat) \<le> 2 ^ 53" using assms(1) by (metis of_nat_le_iff of_nat_numeral of_nat_power)
  then have "(of_nat n :: rat) * 2 ^ k \<le> 2 ^ 53 * 2 ^ 900"
    using assms(2) by (intro mult_mono power_increasing) simp_all
  also have "\<dots> < (2 :: rat) ^ 1024" by (simp flip: power_add)
  finally have "\<bar>round53 (of_nat n * 2 ^ k)\<bar> < 2 ^ 1024" by (simp add: r abs_mult)
  from fl_in_range [OF this refl] show ?thesis by (simp only: r)
qed

lemma within_fl:
  assumes "\<bar>a\<bar> \<le> of_nat n * 2 ^ k" and "n \<le> 2 ^ 53" and "k \<le> 900"
  shows "within_abs (of_nat n * 2 ^ k) (fl a)"
proof -
  have exact: "fl (of_nat n * 2 ^ k) = Fin (of_nat n * 2 ^ k)" by (rule fl_multiple [OF assms(2,3)])
  have "fle (fl a) (fl (of_nat n * 2 ^ k))" "fle (fl (- (of_nat n * 2 ^ k))) (fl a)"
    using assms(1) by (intro fl_mono; simp add: abs_le_iff)+
  then have "fle (fl a) (Fin (of_nat n * 2 ^ k))" "fle (Fin (- (of_nat n * 2 ^ k))) (fl a)"
    by (simp_all only: fl_uminus exact fneg.simps)
  then show ?thesis by (cases "fl a") (auto simp: within_abs_def)
qed

lemma within_fadd:
  assumes "within_abs (of_nat i * 2 ^ k) s" and "magnitude k v" and "Suc i \<le> 2 ^ 53" and "k \<le> 900"
  shows "within_abs (of_nat (Suc i) * 2 ^ k) (fadd s v)"
proof -
  obtain a b where ab: "s = Fin a" "\<bar>a\<bar> \<le> of_nat i * 2 ^ k" "v = Fin b" "\<bar>b\<bar> \<le> 2 ^ k"
    using assms(1,2) by (auto simp: within_abs_def magnitude_def)
  have "\<bar>a + b\<bar> \<le> \<bar>a\<bar> + \<bar>b\<bar>" by (rule abs_triangle_ineq)
  also have "\<dots> \<le> of_nat i * 2 ^ k + 2 ^ k" using ab(2,4) by (rule add_mono)
  also have "\<dots> = of_nat (Suc i) * 2 ^ k" by (simp add: algebra_simps)
  finally show ?thesis using within_fl [OF _ assms(3,4)] by (simp add: ab)
qed

lemma within_sum_loop:
  "list_all (magnitude k) vs \<Longrightarrow> within_abs (of_nat i * 2 ^ k) s \<Longrightarrow> i + length vs \<le> 2 ^ 53 \<Longrightarrow> k \<le> 900 \<Longrightarrow>
   within_abs (of_nat (i + length vs) * 2 ^ k) (sum_loop vs s)"
proof (induction vs arbitrary: i s)
  case (Cons v vs)
  then show ?case using within_fadd [of i k s v] Cons.IH [of "Suc i" "fadd s v"] by simp
qed simp

lemma magnitude_fmul: "magnitude j x \<Longrightarrow> magnitude k y \<Longrightarrow> j + k \<le> 1023 \<Longrightarrow> magnitude (j + k) (fmul x y)"
proof -
  assume "magnitude j x" "magnitude k y" and jk: "j + k \<le> 1023"
  then obtain a b where ab: "x = Fin a" "\<bar>a\<bar> \<le> 2 ^ j" "y = Fin b" "\<bar>b\<bar> \<le> 2 ^ k" by (auto simp: magnitude_def)
  have "\<bar>a * b\<bar> \<le> 2 ^ j * 2 ^ k" unfolding abs_mult using ab(2,4) by (rule mult_mono) simp_all
  then show ?thesis using magnitude_fl [of "a * b" "j + k"] jk by (simp add: ab power_add)
qed

lemma within_square_loop:
  "list_all (magnitude k) vs \<Longrightarrow> magnitude k mean \<Longrightarrow> within_abs (of_nat i * 2 ^ (2 * Suc k)) s \<Longrightarrow>
   i + length vs \<le> 2 ^ 53 \<Longrightarrow> 2 * Suc k \<le> 900 \<Longrightarrow>
   within_abs (of_nat (i + length vs) * 2 ^ (2 * Suc k)) (square_loop mean vs s)"
proof (induction vs arbitrary: i s)
  case (Cons v vs)
  have "magnitude (Suc k) (fsub v mean)"
    unfolding fsub_def using Cons.prems by (intro magnitude_fadd magnitude_fneg) simp_all
  then have "magnitude (2 * Suc k) (fmul (fsub v mean) (fsub v mean))"
    using magnitude_fmul [of "Suc k" _ "Suc k"] Cons.prems(5) by (simp add: mult_2)
  then have "within_abs (of_nat (Suc i) * 2 ^ (2 * Suc k)) (fadd s (fmul (fsub v mean) (fsub v mean)))"
    using Cons.prems by (intro within_fadd) simp_all
  from Cons.IH [OF _ Cons.prems(2) this] Cons.prems show ?case by (simp add: Let_def)
qed simp

lemma within_fdiv_count:
  assumes "within_abs (of_nat n * 2 ^ k) x" and "0 < n" and "n \<le> 2 ^ 53" and "k \<le> 900"
  shows "magnitude k (fdiv x (float_of_int (int n)))"
proof -
  obtain a where a: "x = Fin a" "\<bar>a\<bar> \<le> of_nat n * 2 ^ k" using assms(1) by (auto simp: within_abs_def)
  have n: "float_of_int (int n) = Fin (of_nat n)" using fl_multiple [OF assms(3), of 0] by (simp add: float_of_int_def)
  have "\<bar>a / of_nat n\<bar> = \<bar>a\<bar> / of_nat n" by simp
  also have "\<dots> \<le> of_nat n * 2 ^ k / of_nat n" using a(2) by (rule divide_right_mono) simp
  also have "\<dots> = 2 ^ k" using assms(2) by simp
  finally show ?thesis using magnitude_fl [of "a / of_nat n" k] assms(2,4) by (simp add: n a)
qed

text \<open>Within bounds no sum overflows, so the variance is a number, in every iteration order.\<close>

lemma computeVariance_magnitude:
  assumes "go_runtime E" and "wf_map util" and "list_all (magnitude k) (map snd util)"
    and "length util \<le> 2 ^ 53" and "2 * Suc k \<le> 900"
  shows "magnitude (2 * Suc k) (computeVariance E p util)"
proof (cases "util = []")
  case False
  let ?n = "length util"
  have vals: "list_all (magnitude k) (map snd (go_range E q util))" and len: "length (go_range E q util) = ?n" for q
    using assms(3) go_runtime.set_go_range [OF assms(1,2)] go_runtime.mset_go_range [OF assms(1,2), of q]
    by (auto simp: list_all_iff dest: mset_eq_length)
  have start: "within_abs (of_nat 0 * 2 ^ j) (Fin 0)" for j by (simp add: within_abs_def)
  have n: "0 < ?n" using False by simp
  have "within_abs (of_nat ?n * 2 ^ k) (sum_loop (map snd (go_range E (0 # p) util)) (Fin 0))"
    using within_sum_loop [OF vals start] assms(4,5) by (simp add: len)
  then have "magnitude k (fdiv (sum_loop (map snd (go_range E (0 # p) util)) (Fin 0)) (float_of_int (int ?n)))"
    using n assms(4,5) by (intro within_fdiv_count) simp_all
  from within_square_loop [OF vals [of "1 # p"] this start] assms(4,5)
  have "within_abs (of_nat ?n * 2 ^ (2 * Suc k)) (square_loop (fdiv (sum_loop (map snd (go_range E (0 # p) util)) (Fin 0))
      (float_of_int (int ?n))) (map snd (go_range E (1 # p) util)) (Fin 0))"
    by (simp add: len)
  then have "magnitude (2 * Suc k) (fdiv (square_loop (fdiv (sum_loop (map snd (go_range E (0 # p) util)) (Fin 0))
      (float_of_int (int ?n))) (map snd (go_range E (1 # p) util)) (Fin 0)) (float_of_int (int ?n)))"
    using n assms(4,5) by (intro within_fdiv_count) simp_all
  then show ?thesis using False by (simp add: computeVariance_def Let_def)
qed (simp add: computeVariance_def)

lemma float_of_int_ge_1:
  assumes "in_int64 n" and "0 < n"
  obtains c where "float_of_int n = Fin c" and "1 \<le> c"
proof -
  obtain c where c: "float_of_int n = Fin c" using magnitude_float_of_int [OF assms(1)] by (auto simp: magnitude_def)
  have "fle (float_of_int 1) (float_of_int n)" by (rule float_of_int_mono) (use assms(2) in simp)
  with that c show ?thesis by simp
qed

text \<open>A node whose figures are within bounds; the bound on the cores leaves room for milli-cores.\<close>

lemma nodeUtilization_magnitude:
  assumes "magnitude 53 (cpuCores (ns_usage st))" and "in_int64 (memoryBytes (ns_usage st))"
    and "in_int64 (cpu_milli E (node_allocatable (ns_object st)))" and "in_int64 (mem_value E (node_allocatable (ns_object st)))"
    and "magnitude w (weight_cpu weights)" and "magnitude w (weight_memory weights)" and "w \<le> 128"
  shows "magnitude (Suc (63 + w)) (util_weighted (nodeUtilization E weights st))"
proof -
  have thousand: "magnitude 10 (Fin 1000)" by (simp add: magnitude_def)
  have cores: "magnitude 63 (fmul (cpuCores (ns_usage st)) (Fin 1000))"
    using magnitude_fmul [OF assms(1) thousand] by simp
  have cpu: "magnitude 63 (util_cpu (nodeUtilization E weights st))"
  proof (cases "cpu_milli E (node_allocatable (ns_object st)) > 0")
    case True
    obtain c where "float_of_int (cpu_milli E (node_allocatable (ns_object st))) = Fin c" "1 \<le> c"
      using float_of_int_ge_1 [OF assms(3) True] by blast
    with True magnitude_fdiv [OF cores, of 0 c] show ?thesis by (simp add: nodeUtilization_def Let_def)
  qed (simp add: nodeUtilization_def Let_def)
  have mem: "magnitude 63 (util_memory (nodeUtilization E weights st))"
  proof (cases "mem_value E (node_allocatable (ns_object st)) > 0")
    case True
    obtain c where "float_of_int (mem_value E (node_allocatable (ns_object st))) = Fin c" "1 \<le> c"
      using float_of_int_ge_1 [OF assms(4) True] by blast
    with True magnitude_fdiv [OF magnitude_float_of_int [OF assms(2)], of 0 c] show ?thesis
      by (simp add: nodeUtilization_def Let_def)
  qed (simp add: nodeUtilization_def Let_def)
  have "magnitude (63 + w) (fmul (util_cpu (nodeUtilization E weights st)) (weight_cpu weights))"
    "magnitude (63 + w) (fmul (util_memory (nodeUtilization E weights st)) (weight_memory weights))"
    using assms(5-7) cpu mem by (intro magnitude_fmul; simp)+
  then have "magnitude (Suc (63 + w)) (fadd (fmul (util_cpu (nodeUtilization E weights st)) (weight_cpu weights))
      (fmul (util_memory (nodeUtilization E weights st)) (weight_memory weights)))"
    using assms(7) by (intro magnitude_fadd) simp_all
  moreover have "util_weighted (nodeUtilization E weights st) =
      fadd (fmul (util_cpu (nodeUtilization E weights st)) (weight_cpu weights))
        (fmul (util_memory (nodeUtilization E weights st)) (weight_memory weights))"
    by (simp add: nodeUtilization_def Let_def)
  ultimately show ?thesis by (simp only:)
qed

text \<open>
  C24: the range of a variance. It is never below zero, whatever the values and the order in which the map
  is visited; if the utilisation of one node is infinite or not a number, it is not a number; and while
  every utilisation is at most 2^k in absolute value, no sum of it overflows and it is at most 2^(2k+2).
\<close>

theorem computeVariance_range:
  assumes "go_runtime E" and "wf_map util"
  shows "nonneg_or_nan (computeVariance E p util)
    \<and> (\<forall>k v. map_of util k = Some v \<longrightarrow> \<not> finite_float v \<longrightarrow> computeVariance E p util = NaN)
    \<and> (\<forall>k. list_all (magnitude k) (map snd util) \<longrightarrow> length util \<le> 2 ^ 53 \<longrightarrow> 2 * Suc k \<le> 900 \<longrightarrow>
         magnitude (2 * Suc k) (computeVariance E p util))"
  using nonneg_computeVariance computeVariance_nonfinite [OF assms] computeVariance_magnitude [OF assms]
  unfolding finite_float_def by blast

theorem computeVariance_range_witness:
  "computeVariance (plain_env 0) [] [(''a'', PInf), (''b'', Fin 1)] = NaN
   \<and> magnitude 2 (computeVariance (plain_env 0) [] [(''a'', Fin 1), (''b'', Fin 0)])"
proof -
  have wf: "wf_map [(''a'', PInf), (''b'', Fin 1)]" "wf_map [(''a'', Fin 1), (''b'', Fin 0)]" by (simp_all add: wf_map_def)
  have one: "magnitude 0 (Fin 1)" by (simp add: magnitude_def)
  show ?thesis
    using computeVariance_range [OF go_runtime_plain_env wf(1), of 0 "[]", THEN conjunct2, THEN conjunct1, rule_format, of "''a''" PInf]
      computeVariance_range [OF go_runtime_plain_env wf(2), of 0 "[]", THEN conjunct2, THEN conjunct2, rule_format, of 0] one
    by simp
qed

end
