(* ===== verification/Greedy.thy ===== *)
theory Greedy
  imports Candidates Variance
begin

text \<open>
  Choosing the moves (\<open>hasPreferredClass\<close>, \<open>evaluateCandidate\<close> and \<open>greedyPlan\<close> of
  \<open>controllers/planner/planner.go\<close>). \<open>scoreNode\<close> is the body of the loop over the cold nodes up to the
  comparison with the best one; \<open>considerMove\<close> is the body of the loop over the candidates, its flag
  is the \<open>break\<close>. The state of that loop is the record \<open>greedy\<close>: the snapshot whose node usage the
  accepted moves change, the utilisations, the variance reached, the pods visited and the plan. The
  parameter \<open>hot\<close> of \<open>greedyPlan\<close> is not used by the code and left out.

  The lemmas show that the chosen target is a schedulable cold node of least simulated variance, that
  every accepted move lowers the variance, that no pod is planned twice, and what the class preference
  and degenerate weights and capacities do.
\<close>

fun hasPreferredClass :: "string list \<Rightarrow> string set \<Rightarrow> bool" where
  "hasPreferredClass [] preferred = False"
| "hasPreferredClass (c # cs) preferred = (if c \<in> preferred then True else hasPreferredClass cs preferred)"

definition preferenceBonus :: float64 where
  "preferenceBonus = fl (1 / 100)"

definition scoreNode ::
    "'z kube_env_scheme \<Rightarrow> pos \<Rightarrow> snapshot \<Rightarrow> pod_state \<Rightarrow> policy_spec \<Rightarrow> float64 gomap \<Rightarrow> float64 \<Rightarrow>
     node_state \<Rightarrow> (plan_eviction \<times> float64 gomap \<times> float64) option" where
  "scoreNode E p snap pod spec util currentVariance node =
     (if \<not> canSchedule E (0 # p) snap (ps_object pod) (ns_object node) then None
      else
        let (newUtil, variance) = simulateVariance E (1 # p) util (ps_nodeName pod) (node_name (ns_object node))
              (requestCPU E pod) (requestMem E pod) (resourceWeights spec) (snap_nodes snap);
            delta0 = fsub variance currentVariance;
            preferred = set (nodeClassPreference spec);
            delta = (if preferred \<noteq> {} then
                       (if hasPreferredClass (ns_classes node) preferred then fsub delta0 preferenceBonus
                        else fadd delta0 preferenceBonus)
                     else delta0) in
        if fge delta (Fin 0) then None
        else Some (\<lparr>ev_pod = ps_object pod, ev_fromNode = ps_nodeName pod,
            ev_targets = [node_name (ns_object node)], ev_score = delta,
            ev_reason = ''Reduce variance by '' @ sprintf_4f (fabs delta), ev_allowed = False,
            ev_namespace = pod_namespace (ps_object pod)\<rparr>, newUtil, variance))"

fun evaluate_loop ::
    "'z kube_env_scheme \<Rightarrow> pos \<Rightarrow> nat \<Rightarrow> snapshot \<Rightarrow> pod_state \<Rightarrow> policy_spec \<Rightarrow> float64 gomap \<Rightarrow> float64 \<Rightarrow>
     node_ref list \<Rightarrow> plan_eviction option \<times> float64 gomap option \<times> float64 \<Rightarrow>
     plan_eviction option \<times> float64 gomap option \<times> float64" where
  "evaluate_loop E p i snap pod spec util cur [] acc = acc"
| "evaluate_loop E p i snap pod spec util cur (n # ns) (best, bestUtil, bestVariance) =
     evaluate_loop E p (Suc i) snap pod spec util cur ns
       (case map_of (snap_nodes snap) n of
          None \<Rightarrow> (best, bestUtil, bestVariance)
        | Some node \<Rightarrow> (case scoreNode E (i # p) snap pod spec util cur node of
            None \<Rightarrow> (best, bestUtil, bestVariance)
          | Some (eviction, newUtil, variance) \<Rightarrow>
              if flt variance bestVariance then (Some eviction, Some newUtil, variance)
              else (best, bestUtil, bestVariance)))"

definition evaluateCandidate ::
    "'z kube_env_scheme \<Rightarrow> pos \<Rightarrow> snapshot \<Rightarrow> pod_state \<Rightarrow> policy_spec \<Rightarrow> float64 gomap \<Rightarrow> float64 \<Rightarrow>
     node_ref list \<Rightarrow> plan_eviction option \<times> float64 gomap option \<times> float64" where
  "evaluateCandidate E p snap pod spec util currentVariance cold =
     evaluate_loop E p 0 snap pod spec util currentVariance cold (None, None, math_MaxFloat64)"

record greedy =
  g_snapshot :: snapshot
  g_util :: "float64 gomap"
  g_variance :: float64
  g_visited :: "string set"
  g_plan :: "plan_eviction list"

definition visitKey :: "pod \<Rightarrow> string" where
  "visitKey pod = pod_namespace pod @ ''/'' @ pod_name pod"

definition considerMove ::
    "'z kube_env_scheme \<Rightarrow> pos \<Rightarrow> policy_spec \<Rightarrow> node_ref list \<Rightarrow> pod_state \<Rightarrow> greedy \<Rightarrow> greedy \<times> bool" where
  "considerMove E p spec cold candidate g =
     (if visitKey (ps_object candidate) \<in> g_visited g then (g, False)
      else
        case evaluateCandidate E p (g_snapshot g) candidate spec (g_util g) (g_variance g) cold of
          (None, updatedUtil, varianceAfter) \<Rightarrow> (g, False)
        | (Some bestEviction, updatedUtil, varianceAfter) \<Rightarrow>
            if fge varianceAfter (g_variance g) then (g, False)
            else
              (\<lparr>g_snapshot = (case updatedUtil of None \<Rightarrow> g_snapshot g
                  | Some u \<Rightarrow> applyMove E (g_snapshot g) candidate (hd (ev_targets bestEviction))),
                g_util = (case updatedUtil of None \<Rightarrow> g_util g | Some u \<Rightarrow> u),
                g_variance = varianceAfter,
                g_visited = insert (visitKey (ps_object candidate)) (g_visited g),
                g_plan = g_plan g @ [bestEviction]\<rparr>,
               fle varianceAfter (targetVariance spec)))"

fun greedy_loop ::
    "'z kube_env_scheme \<Rightarrow> pos \<Rightarrow> nat \<Rightarrow> policy_spec \<Rightarrow> node_ref list \<Rightarrow> pod_state list \<Rightarrow> greedy \<Rightarrow> greedy" where
  "greedy_loop E p i spec cold [] g = g"
| "greedy_loop E p i spec cold (candidate # rest) g =
     (let (g', stop) = considerMove E (i # p) spec cold candidate g in
      if stop then g' else greedy_loop E p (Suc i) spec cold rest g')"

definition greedy_init :: "'z kube_env_scheme \<Rightarrow> pos \<Rightarrow> snapshot \<Rightarrow> float64 gomap \<Rightarrow> greedy" where
  "greedy_init E p snap util = \<lparr>g_snapshot = snap, g_util = util, g_variance = computeVariance E p util,
     g_visited = {}, g_plan = []\<rparr>"

definition greedyPlan ::
    "'z kube_env_scheme \<Rightarrow> pos \<Rightarrow> snapshot \<Rightarrow> pod_state list \<Rightarrow> policy_spec \<Rightarrow> node_ref list \<Rightarrow>
     float64 gomap \<Rightarrow> plan_eviction list \<times> snapshot" where
  "greedyPlan E p snap candidates spec cold util =
     (let g = greedy_loop E (1 # p) 0 spec cold candidates (greedy_init E (0 # p) snap util) in
      (sort_slice E (\<lambda>a b. flt (ev_score a) (ev_score b)) (g_plan g), g_snapshot g))"

subsection \<open>The best target\<close>

text \<open>What \<open>scoreNode\<close> says when it does not skip the node.\<close>

lemma scoreNode_SomeD:
  assumes "scoreNode E p snap pod spec util cur node = Some (ev, u, v)"
  shows "canSchedule E (0 # p) snap (ps_object pod) (ns_object node)"
    and "(u, v) = simulateVariance E (1 # p) util (ps_nodeName pod) (node_name (ns_object node))
          (requestCPU E pod) (requestMem E pod) (resourceWeights spec) (snap_nodes snap)"
    and "ev_pod ev = ps_object pod \<and> ev_fromNode ev = ps_nodeName pod
       \<and> ev_targets ev = [node_name (ns_object node)] \<and> \<not> ev_allowed ev
       \<and> ev_namespace ev = pod_namespace (ps_object pod)"
    and "\<not> fge (ev_score ev) (Fin 0)"
    and "ev_score ev = (if nodeClassPreference spec = [] then fsub v cur
          else if hasPreferredClass (ns_classes node) (set (nodeClassPreference spec))
          then fsub (fsub v cur) preferenceBonus else fadd (fsub v cur) preferenceBonus)"
  using assms by (auto simp: scoreNode_def Let_def split: if_splits prod.splits)

lemma evaluate_loop_origin:
  "evaluate_loop E p i snap pod spec util cur ns acc = (b, u, v) \<Longrightarrow>
   (b, u, v) = acc \<or>
   (\<exists>k node ev nu. k < length ns \<and> map_of (snap_nodes snap) (ns ! k) = Some node
      \<and> scoreNode E ((i + k) # p) snap pod spec util cur node = Some (ev, nu, v)
      \<and> b = Some ev \<and> u = Some nu \<and> flt v (snd (snd acc)))"
proof (induction ns arbitrary: i acc)
  case (Cons n ns)
  obtain b0 u0 v0 where acc: "acc = (b0, u0, v0)" by (cases acc)
  let ?acc = "case map_of (snap_nodes snap) n of None \<Rightarrow> (b0, u0, v0)
     | Some node \<Rightarrow> (case scoreNode E (i # p) snap pod spec util cur node of None \<Rightarrow> (b0, u0, v0)
         | Some (ev, nu, w) \<Rightarrow> if flt w v0 then (Some ev, Some nu, w) else (b0, u0, v0))"
  have step: "?acc = (b0, u0, v0) \<or> (\<exists>node ev nu w. map_of (snap_nodes snap) n = Some node
      \<and> scoreNode E (i # p) snap pod spec util cur node = Some (ev, nu, w) \<and> flt w v0
      \<and> ?acc = (Some ev, Some nu, w))"
    by (simp split: option.splits prod.splits)
  note IH = Cons.IH [OF Cons.prems [unfolded acc evaluate_loop.simps]]
  have shift: "P ((Suc i + k) # p) ((n # ns) ! Suc k) \<Longrightarrow> P ((i + Suc k) # p) ((n # ns) ! Suc k)" for P k
    by simp
  from IH show ?case
  proof
    assume "(b, u, v) = ?acc"
    with step show ?thesis by (auto simp: acc intro!: exI [of _ 0])
  next
    assume "\<exists>k node ev nu. k < length ns \<and> map_of (snap_nodes snap) (ns ! k) = Some node
      \<and> scoreNode E ((Suc i + k) # p) snap pod spec util cur node = Some (ev, nu, v)
      \<and> b = Some ev \<and> u = Some nu \<and> flt v (snd (snd ?acc))"
    then obtain k node ev nu where k: "k < length ns" "map_of (snap_nodes snap) (ns ! k) = Some node"
      "scoreNode E ((i + Suc k) # p) snap pod spec util cur node = Some (ev, nu, v)"
      "b = Some ev" "u = Some nu" "flt v (snd (snd ?acc))" by auto
    from k(6) step have "flt v v0" by (auto dest: flt_trans)
    with k show ?thesis by (intro disjI2 exI [of _ "Suc k"] exI [of _ node] exI [of _ ev] exI [of _ nu]) (simp add: acc)
  qed
qed simp

lemma evaluate_loop_least:
  "evaluate_loop E p i snap pod spec util cur ns acc = (b, u, v) \<Longrightarrow> snd (snd acc) \<noteq> NaN \<Longrightarrow>
   fle v (snd (snd acc)) \<and>
   (\<forall>k node ev nu w. k < length ns \<longrightarrow> map_of (snap_nodes snap) (ns ! k) = Some node \<longrightarrow>
      scoreNode E ((i + k) # p) snap pod spec util cur node = Some (ev, nu, w) \<longrightarrow> \<not> flt w v)"
proof (induction ns arbitrary: i acc)
  case (Cons n ns)
  obtain b0 u0 v0 where acc: "acc = (b0, u0, v0)" by (cases acc)
  let ?acc = "case map_of (snap_nodes snap) n of None \<Rightarrow> (b0, u0, v0)
     | Some node \<Rightarrow> (case scoreNode E (i # p) snap pod spec util cur node of None \<Rightarrow> (b0, u0, v0)
         | Some (ev, nu, w) \<Rightarrow> if flt w v0 then (Some ev, Some nu, w) else (b0, u0, v0))"
  have v0: "v0 \<noteq> NaN" using Cons.prems(2) by (simp add: acc)
  then have acc': "snd (snd ?acc) \<noteq> NaN" "fle (snd (snd ?acc)) v0"
    by (auto split: option.splits prod.splits dest: flt_not_NaN simp: fle_refl) (simp add: fle_def)
  have here: "\<not> flt w (snd (snd ?acc))" if "map_of (snap_nodes snap) n = Some node"
      "scoreNode E (i # p) snap pod spec util cur node = Some (ev, nu, w)" for node ev nu w
    using that by simp
  note IH = Cons.IH [OF Cons.prems(1) [unfolded acc evaluate_loop.simps] acc'(1)]
  show ?case
  proof (intro conjI allI impI)
    show "fle v (snd (snd acc))" using IH acc'(2) by (auto simp: acc dest: fle_trans)
    fix k node ev nu w
    assume k: "k < length (n # ns)" and node: "map_of (snap_nodes snap) ((n # ns) ! k) = Some node"
      and score: "scoreNode E ((i + k) # p) snap pod spec util cur node = Some (ev, nu, w)"
    show "\<not> flt w v"
    proof (cases k)
      case 0
      with here node score have "\<not> flt w (snd (snd ?acc))" by simp
      then show ?thesis using IH flt_fle_trans by blast
    next
      case (Suc j)
      with IH k node score show ?thesis by auto
    qed
  qed
qed (simp add: fle_refl)

lemma evaluateCandidate_SomeD:
  assumes "evaluateCandidate E p snap pod spec util cur cold = (Some ev, u, v)"
  shows "\<exists>k node nu. k < length cold \<and> map_of (snap_nodes snap) (cold ! k) = Some node
      \<and> scoreNode E (k # p) snap pod spec util cur node = Some (ev, nu, v) \<and> u = Some nu"
    and "flt v math_MaxFloat64"
  using evaluate_loop_origin [OF assms [unfolded evaluateCandidate_def]] by auto

text \<open>
  A move of the pod to \<open>node\<close> the planner may choose, stated without the loop: the pod can be scheduled
  there, \<open>u\<close> and \<open>v\<close> are the utilisations and the variance of the simulated move, and the change of
  the variance, shifted by the preference of the policy for classes of nodes, is \<open>d\<close> and not at least zero.
\<close>

definition admitted_move ::
    "'z kube_env_scheme \<Rightarrow> pos \<Rightarrow> snapshot \<Rightarrow> pod_state \<Rightarrow> policy_spec \<Rightarrow> float64 gomap \<Rightarrow> float64 \<Rightarrow>
     node_state \<Rightarrow> float64 gomap \<Rightarrow> float64 \<Rightarrow> float64 \<Rightarrow> bool" where
  "admitted_move E p snap pod spec util cur node u v d \<longleftrightarrow>
     canSchedule E (0 # p) snap (ps_object pod) (ns_object node)
   \<and> (u, v) = simulateVariance E (1 # p) util (ps_nodeName pod) (node_name (ns_object node))
       (requestCPU E pod) (requestMem E pod) (resourceWeights spec) (snap_nodes snap)
   \<and> d = (if nodeClassPreference spec = [] then fsub v cur
          else if set (ns_classes node) \<inter> set (nodeClassPreference spec) \<noteq> {} then fsub (fsub v cur) preferenceBonus
          else fadd (fsub v cur) preferenceBonus)
   \<and> \<not> fge d (Fin 0)"

lemma hasPreferredClass_iff: "hasPreferredClass cs preferred \<longleftrightarrow> set cs \<inter> preferred \<noteq> {}"
  by (induction cs) auto

lemma scoreNode_admitted:
  "scoreNode E p snap pod spec util cur node = Some (ev, u, v) \<Longrightarrow> admitted_move E p snap pod spec util cur node u v (ev_score ev)"
  by (frule scoreNode_SomeD(1), frule scoreNode_SomeD(2), frule scoreNode_SomeD(4), drule scoreNode_SomeD(5))
     (simp add: admitted_move_def hasPreferredClass_iff)

lemma admitted_scoreNode:
  assumes "admitted_move E p snap pod spec util cur node u v d"
  shows "\<exists>ev. scoreNode E p snap pod spec util cur node = Some (ev, u, v)"
proof -
  have sim: "simulateVariance E (1 # p) util (ps_nodeName pod) (node_name (ns_object node))
       (requestCPU E pod) (requestMem E pod) (resourceWeights spec) (snap_nodes snap) = (u, v)"
    using assms unfolding admitted_move_def by (elim conjE) (rule sym)
  have can: "canSchedule E (0 # p) snap (ps_object pod) (ns_object node)" and neg: "\<not> fge d (Fin 0)"
    using assms unfolding admitted_move_def by blast+
  have d: "(if set (nodeClassPreference spec) \<noteq> {} then
              (if hasPreferredClass (ns_classes node) (set (nodeClassPreference spec))
               then fsub (fsub v cur) preferenceBonus else fadd (fsub v cur) preferenceBonus)
            else fsub v cur) = d"
    using assms by (simp add: admitted_move_def hasPreferredClass_iff)
  show ?thesis unfolding scoreNode_def sim prod.case Let_def d using can neg by simp
qed

text \<open>
  C9: for each candidate the code settles on a cold node the pod can be scheduled on, in the terms of
  \<open>admitted_move\<close>, and no other admitted move to a cold node has a smaller simulated variance; the eviction
  it plans is that move. It settles on none only when no admitted move has a simulated variance that is a
  number below the largest one. A preferred node class decides what is admitted, never which of the
  admitted nodes is best.
\<close>

theorem evaluateCandidate_best:
  "case evaluateCandidate E p snap pod spec util cur cold of
     (None, u, v) \<Rightarrow> \<forall>k < length cold. \<forall>node nu w d. map_of (snap_nodes snap) (cold ! k) = Some node \<longrightarrow>
        admitted_move E (k # p) snap pod spec util cur node nu w d \<longrightarrow> \<not> flt w math_MaxFloat64
   | (Some ev, u, v) \<Rightarrow>
        (\<exists>k < length cold. \<exists>node nu. map_of (snap_nodes snap) (cold ! k) = Some node
           \<and> admitted_move E (k # p) snap pod spec util cur node nu v (ev_score ev) \<and> u = Some nu
           \<and> ev_pod ev = ps_object pod \<and> ev_fromNode ev = ps_nodeName pod \<and> ev_targets ev = [node_name (ns_object node)]
           \<and> ev_namespace ev = pod_namespace (ps_object pod) \<and> \<not> ev_allowed ev)
        \<and> (\<forall>k < length cold. \<forall>node nu w d. map_of (snap_nodes snap) (cold ! k) = Some node \<longrightarrow>
             admitted_move E (k # p) snap pod spec util cur node nu w d \<longrightarrow> \<not> flt w v)"
proof (cases "evaluateCandidate E p snap pod spec util cur cold")
  case (fields b u v)
  note run = fields [unfolded evaluateCandidate_def]
  have least: "\<not> flt w v" if "k < length cold" "map_of (snap_nodes snap) (cold ! k) = Some node"
      "admitted_move E (k # p) snap pod spec util cur node nu w d" for k node nu w d
    using evaluate_loop_least [OF run] admitted_scoreNode [OF that(3)] that(1,2) by (auto simp: math_MaxFloat64_def)
  show ?thesis
  proof (cases b)
    case None
    then have "v = math_MaxFloat64" using evaluate_loop_origin [OF run] by auto
    with least show ?thesis by (simp add: fields None)
  next
    case (Some ev)
    from evaluateCandidate_SomeD(1) [OF fields [unfolded Some]] obtain k node nu where
      k: "k < length cold" "map_of (snap_nodes snap) (cold ! k) = Some node" "u = Some nu"
      and score: "scoreNode E (k # p) snap pod spec util cur node = Some (ev, nu, v)" by blast
    with least scoreNode_admitted [OF score] scoreNode_SomeD(3) [OF score] show ?thesis
      by (simp add: fields Some) blast
  qed
qed

subsection \<open>What a move leaves alone\<close>

text \<open>The snapshots that differ from \<open>snap\<close> in the usage of nodes only.\<close>

definition usage_only :: "snapshot \<Rightarrow> snapshot \<Rightarrow> bool" where
  "usage_only snap snap' \<longleftrightarrow> snap_pods snap' = snap_pods snap \<and> snap_slos snap' = snap_slos snap
     \<and> wf_nodes (snap_nodes snap')
     \<and> (\<forall>k. map_option (\<lambda>st. st\<lparr>ns_usage := zero_usage\<rparr>) (map_of (snap_nodes snap') k)
          = map_option (\<lambda>st. st\<lparr>ns_usage := zero_usage\<rparr>) (map_of (snap_nodes snap) k))"

lemma usage_only_refl: "wf_nodes (snap_nodes snap) \<Longrightarrow> usage_only snap snap"
  by (simp add: usage_only_def)

lemma ns_usage_update_eqD:
  "st\<lparr>ns_usage := z\<rparr> = st'\<lparr>ns_usage := z\<rparr> \<Longrightarrow>
   ns_object st = ns_object st' \<and> ns_classes st = ns_classes st' \<and> ns_utilization st = ns_utilization st'"
  by (cases st; cases st') simp

lemma usage_only_lookup:
  assumes "usage_only snap snap'" and "map_of (snap_nodes snap') k = Some st'"
  obtains st where "map_of (snap_nodes snap) k = Some st" and "ns_object st = ns_object st'"
    and "ns_classes st = ns_classes st'" and "ns_utilization st = ns_utilization st'"
proof -
  have eq: "map_option (\<lambda>st. st\<lparr>ns_usage := zero_usage\<rparr>) (map_of (snap_nodes snap) k)
      = Some (st'\<lparr>ns_usage := zero_usage\<rparr>)"
    using assms by (metis (no_types, lifting) option.simps(9) usage_only_def)
  then obtain st where "map_of (snap_nodes snap) k = Some st"
    and "st\<lparr>ns_usage := zero_usage\<rparr> = st'\<lparr>ns_usage := zero_usage\<rparr>" by auto
  then show ?thesis using that ns_usage_update_eqD by blast
qed

lemma usage_only_None: "usage_only snap snap' \<Longrightarrow> map_of (snap_nodes snap') k = None \<longleftrightarrow> map_of (snap_nodes snap) k = None"
  by (metis (no_types, lifting) option.map_disc_iff usage_only_def)

lemma usage_only_object:
  "usage_only snap snap' \<Longrightarrow> map_option ns_object (map_of (snap_nodes snap') k) = map_option ns_object (map_of (snap_nodes snap) k)"
  by (cases "map_of (snap_nodes snap') k") (auto simp: usage_only_None elim!: usage_only_lookup)

lemma usage_only_step:
  assumes "usage_only snap snap'" and "map_of (snap_nodes snap') k = Some st"
  shows "usage_only snap (snap'\<lparr>snap_nodes := AList.update k (st\<lparr>ns_usage := u\<rparr>) (snap_nodes snap')\<rparr>)"
proof -
  have "wf_nodes (AList.update k (st\<lparr>ns_usage := u\<rparr>) (snap_nodes snap'))"
    using assms by (intro wf_nodes_updateI) (auto simp: usage_only_def wf_nodes_def)
  then show ?thesis
    using assms by (auto simp: usage_only_def map_of_update) (metis option.simps(9))
qed

lemma usage_only_applyMove:
  assumes "usage_only snap snap'"
  shows "usage_only snap (applyMove E snap' pod target)"
proof (cases "map_of (snap_nodes snap') (ps_nodeName pod) = None \<or> map_of (snap_nodes snap') target = None")
  case True
  then show ?thesis using assms by (auto simp: applyMove_def split: option.splits)
next
  case False
  then obtain f t where f: "map_of (snap_nodes snap') (ps_nodeName pod) = Some f"
    and t: "map_of (snap_nodes snap') target = Some t" by auto
  define fu where "fu = (let fu = ns_usage f; cpu0 = fsub (cpuCores fu) (requestCPU E pod) in
     fu\<lparr>cpuCores := (if flt cpu0 (Fin 0) then Fin 0 else cpu0),
        memoryBytes := wrap64 (memoryBytes fu - int_of_float (float_oor E) (requestMem E pod))\<rparr>)"
  let ?s1 = "snap'\<lparr>snap_nodes := AList.update (ps_nodeName pod) (f\<lparr>ns_usage := fu\<rparr>) (snap_nodes snap')\<rparr>"
  have s1: "usage_only snap ?s1" by (rule usage_only_step [OF assms f])
  obtain t1 where t1: "map_of (snap_nodes ?s1) target = Some t1" using t by (cases "target = ps_nodeName pod") (simp_all add: map_of_update)
  have "\<exists>tu. applyMove E snap' pod target =
      ?s1\<lparr>snap_nodes := AList.update target (t1\<lparr>ns_usage := tu\<rparr>) (snap_nodes ?s1)\<rparr>"
    using t1 by (simp add: applyMove_def f t Let_def fu_def) blast
  then show ?thesis using usage_only_step [OF s1 t1] by auto
qed

lemma checkPods_cong:
  "(\<And>k. map_option ns_object (map_of (snap_nodes snap') k) = map_option ns_object (map_of (snap_nodes snap) k)) \<Longrightarrow>
   checkPods snap' pod nss sel key val pos ps = checkPods snap pod nss sel key val pos ps"
proof (induction ps)
  case (Cons q ps)
  have "map_option ns_object (map_of (snap_nodes snap') (pod_nodeName (ps_object q)))
      = map_option ns_object (map_of (snap_nodes snap) (pod_nodeName (ps_object q)))" by (rule Cons.prems)
  with Cons.IH [OF Cons.prems] show ?case by (auto simp: Let_def split: option.splits)
qed simp

lemma canSchedule_usage_only:
  assumes "usage_only snap snap'"
  shows "canSchedule E p snap' pod node = canSchedule E p snap pod node"
proof -
  have "snap_pods snap' = snap_pods snap" using assms by (simp add: usage_only_def)
  moreover have "checkPods snap' = checkPods snap"
    by (intro ext checkPods_cong [OF usage_only_object [OF assms]])
  ultimately have "checkPodAffinityTerm E snap' pod node t pos = checkPodAffinityTerm E snap pod node t pos" for t pos
    by (simp add: checkPodAffinityTerm_def Let_def split: option.split)
  then have "passesPodAffinity E snap' pod node = passesPodAffinity E snap pod node"
    by (simp add: passesPodAffinity_def split: option.split)
  then show ?thesis by (simp add: canSchedule_def)
qed

subsection \<open>The invariant of the greedy loop\<close>

text \<open>What every planned eviction is: a candidate, bound from its node to a schedulable cold node.\<close>

definition planned_move ::
    "'z kube_env_scheme \<Rightarrow> node_ref list \<Rightarrow> pod_state list \<Rightarrow> snapshot \<Rightarrow> plan_eviction \<Rightarrow> bool" where
  "planned_move E cold cands snap ev \<longleftrightarrow> \<not> ev_allowed ev \<and> \<not> fge (ev_score ev) (Fin 0) \<and>
     (\<exists>c\<in>set cands. ev_pod ev = ps_object c \<and> ev_fromNode ev = ps_nodeName c
        \<and> ev_namespace ev = pod_namespace (ps_object c)
        \<and> (\<exists>t\<in>set cold. \<exists>node q. ev_targets ev = [t] \<and> map_of (snap_nodes snap) t = Some node
             \<and> canSchedule E q snap (ps_object c) (ns_object node)))"

lemma considerMove_cases:
  assumes "considerMove E p spec cold c g = (g', stop)"
  obtains (keep) "g' = g" and "\<not> stop"
  | (accept) k node ev u v where "visitKey (ps_object c) \<notin> g_visited g" and "k < length cold"
      and "map_of (snap_nodes (g_snapshot g)) (cold ! k) = Some node"
      and "scoreNode E (k # p) (g_snapshot g) c spec (g_util g) (g_variance g) node = Some (ev, u, v)"
      and "flt v math_MaxFloat64" and "\<not> fge v (g_variance g)"
      and "g' = \<lparr>g_snapshot = applyMove E (g_snapshot g) c (hd (ev_targets ev)), g_util = u, g_variance = v,
             g_visited = insert (visitKey (ps_object c)) (g_visited g), g_plan = g_plan g @ [ev]\<rparr>"
      and "stop = fle v (targetVariance spec)"
proof (cases "visitKey (ps_object c) \<in> g_visited g")
  case True
  with assms keep show ?thesis by (simp add: considerMove_def)
next
  case new: False
  obtain b u v where eval: "evaluateCandidate E p (g_snapshot g) c spec (g_util g) (g_variance g) cold = (b, u, v)"
    by (cases "evaluateCandidate E p (g_snapshot g) c spec (g_util g) (g_variance g) cold")
  show ?thesis
  proof (cases b)
    case None
    with assms new eval keep show ?thesis by (simp add: considerMove_def)
  next
    case (Some ev)
    show ?thesis
    proof (cases "fge v (g_variance g)")
      case True
      with assms new eval Some keep show ?thesis by (simp add: considerMove_def)
    next
      case False
      note best = evaluateCandidate_SomeD [OF eval [unfolded Some]]
      from best(1) obtain k node nu where k: "k < length cold"
        "map_of (snap_nodes (g_snapshot g)) (cold ! k) = Some node"
        "scoreNode E (k # p) (g_snapshot g) c spec (g_util g) (g_variance g) node = Some (ev, nu, v)" "u = Some nu"
        by blast
      show ?thesis
        by (rule accept [OF new k(1-3) best(2) False])
           (use assms new eval Some False k(4) in \<open>simp_all add: considerMove_def\<close>)
    qed
  qed
qed

lemma simulateVariance_snd: "snd (simulateVariance E p util from target cpu mem w nodes)
    = computeVariance E p (fst (simulateVariance E p util from target cpu mem w nodes))"
  by (simp add: simulateVariance_def Let_def split: option.splits)

lemma simulateVariance_wf:
  "wf_map util \<Longrightarrow> wf_map (fst (simulateVariance E p util from target cpu mem w nodes))"
  by (simp add: simulateVariance_def Let_def split: option.splits)

lemma scoreNode_variance:
  assumes "scoreNode E p snap pod spec util cur node = Some (ev, u, v)"
  shows "v = computeVariance E (1 # p) u" and "nonneg_or_nan v" and "wf_map util \<Longrightarrow> wf_map u"
proof -
  note sim = scoreNode_SomeD(2) [OF assms]
  show v: "v = computeVariance E (1 # p) u" by (metis fst_conv simulateVariance_snd sim snd_conv)
  show "nonneg_or_nan v" by (simp add: v nonneg_computeVariance)
  show "wf_map util \<Longrightarrow> wf_map u" by (metis fst_conv sim simulateVariance_wf)
qed

lemma fl_less_not_NaN: "fadd (Fin a) (Fin b) \<noteq> NaN" "fsub (Fin a) (Fin b) \<noteq> NaN"
  by (simp_all add: fsub_def)

text \<open>A score is a number below zero unless the variance it compares with is not a number.\<close>

lemma scoreNode_negative:
  assumes score: "scoreNode E p snap pod spec util cur node = Some (ev, u, v)"
    and "flt v math_MaxFloat64" and "cur \<noteq> NaN" and "nonneg_or_nan cur"
  shows "flt (ev_score ev) (Fin 0)"
proof -
  obtain a where a: "v = Fin a"
    using assms(2) scoreNode_variance(2) [OF score] by (cases v) (auto simp: math_MaxFloat64_def)
  have "preferenceBonus \<noteq> PInf \<and> preferenceBonus \<noteq> NaN \<and> preferenceBonus \<noteq> NInf"
  proof -
    have "fle (fl 0) preferenceBonus" "fle preferenceBonus (fl 1)"
      unfolding preferenceBonus_def by (rule fl_mono; simp)+
    then show ?thesis by auto
  qed
  then obtain b where b: "preferenceBonus = Fin b" by (cases preferenceBonus) auto
  have "fsub v cur \<noteq> NaN" using assms(3,4) a by (cases cur) (simp_all add: fsub_def)
  then have "fadd (fsub v cur) preferenceBonus \<noteq> NaN" "fsub (fsub v cur) preferenceBonus \<noteq> NaN" "fsub v cur \<noteq> NaN"
    by (cases "fsub v cur"; simp add: b fsub_def)+
  then have "ev_score ev \<noteq> NaN" using scoreNode_SomeD(5) [OF score] by auto
  with scoreNode_SomeD(4) [OF score] show ?thesis by (auto simp: not_fle)
qed

definition greedy_inv ::
    "'z kube_env_scheme \<Rightarrow> node_ref list \<Rightarrow> pod_state list \<Rightarrow> snapshot \<Rightarrow> float64 \<Rightarrow> greedy \<Rightarrow> bool" where
  "greedy_inv E cold cands snap v0 g \<longleftrightarrow>
     usage_only snap (g_snapshot g) \<and> wf_map (g_util g)
     \<and> list_all (planned_move E cold cands snap) (g_plan g)
     \<and> distinct (map (\<lambda>ev. visitKey (ev_pod ev)) (g_plan g))
     \<and> set (map (\<lambda>ev. visitKey (ev_pod ev)) (g_plan g)) = g_visited g
     \<and> nonneg_or_nan (g_variance g)
     \<and> (v0 \<noteq> NaN \<longrightarrow> g_variance g \<noteq> NaN \<and> (if g_plan g = [] then g_variance g = v0 else flt (g_variance g) v0)
          \<and> list_all (\<lambda>ev. flt (ev_score ev) (Fin 0)) (g_plan g))"

lemma greedy_inv_step:
  assumes inv: "greedy_inv E cold cands snap v0 g" and c: "c \<in> set cands"
    and wf: "wf_nodes (snap_nodes snap)"
    and step: "considerMove E p spec cold c g = (g', stop)"
  shows "greedy_inv E cold cands snap v0 g'"
  using step
proof (cases rule: considerMove_cases)
  case keep
  with inv show ?thesis by simp
next
  case (accept k node ev u v)
  note score = accept(4)
  note d = scoreNode_SomeD [OF score]
  have uo: "usage_only snap (g_snapshot g)" and wfu: "wf_map (g_util g)" using inv by (auto simp: greedy_inv_def)
  obtain node0 where n0: "map_of (snap_nodes snap) (cold ! k) = Some node0" "ns_object node0 = ns_object node"
    using usage_only_lookup [OF uo accept(3)] by metis
  then have name: "node_name (ns_object node) = cold ! k" using wf by (metis wf_nodes_def)
  have move: "planned_move E cold cands snap ev"
    unfolding planned_move_def
    using d(1) [unfolded canSchedule_usage_only [OF uo]] d(3,4) c n0 name accept(2)
    by (auto intro!: bexI [of _ c] bexI [of _ "cold ! k"] exI [of _ node0])
  have fresh: "visitKey (ev_pod ev) \<notin> set (map (\<lambda>ev. visitKey (ev_pod ev)) (g_plan g))"
    using inv accept(1) d(3) by (simp add: greedy_inv_def)
  have var: "v \<noteq> NaN \<and> flt v v0 \<and> flt (ev_score ev) (Fin 0)" if "v0 \<noteq> NaN"
  proof -
    have g: "g_variance g \<noteq> NaN" "nonneg_or_nan (g_variance g)" "g_variance g = v0 \<or> flt (g_variance g) v0"
      using inv that by (auto simp: greedy_inv_def split: if_splits)
    have "v \<noteq> NaN" using accept(5) flt_not_NaN by blast
    moreover have "flt v (g_variance g)" using accept(6) g(1) calculation by (simp add: not_fle)
    then have "flt v v0" using g(3) by (auto dest: flt_trans)
    ultimately show ?thesis using scoreNode_negative [OF score accept(5) g(1,2)] by simp
  qed
  show ?thesis
    unfolding greedy_inv_def accept(7)
    using inv uo wfu move fresh var d(3) scoreNode_variance(2,3) [OF score]
    by (auto simp: greedy_inv_def usage_only_applyMove)
qed

lemma greedy_inv_loop:
  "greedy_inv E cold cands snap v0 g \<Longrightarrow> wf_nodes (snap_nodes snap) \<Longrightarrow> set cs \<subseteq> set cands \<Longrightarrow>
   greedy_inv E cold cands snap v0 (greedy_loop E p i spec cold cs g)"
proof (induction cs arbitrary: i g)
  case (Cons c cs)
  obtain g' stop where step: "considerMove E (i # p) spec cold c g = (g', stop)"
    by (cases "considerMove E (i # p) spec cold c g")
  have "greedy_inv E cold cands snap v0 g'"
    using greedy_inv_step [OF Cons.prems(1) _ Cons.prems(2) step] Cons.prems(3) by simp
  then show ?case using Cons by (simp add: step)
qed simp

lemma greedy_inv_init:
  "wf_nodes (snap_nodes snap) \<Longrightarrow> wf_map util \<Longrightarrow>
   greedy_inv E cold cands snap (computeVariance E p util) (greedy_init E p snap util)"
  by (simp add: greedy_inv_def greedy_init_def usage_only_refl nonneg_computeVariance)

lemmas greedy_inv_run = greedy_inv_loop [OF greedy_inv_init _ order_refl]

lemma greedyPlan_eq:
  "greedyPlan E p snap cands spec cold util =
     (sort_slice E (\<lambda>a b. flt (ev_score a) (ev_score b))
        (g_plan (greedy_loop E (1 # p) 0 spec cold cands (greedy_init E (0 # p) snap util))),
      g_snapshot (greedy_loop E (1 # p) 0 spec cold cands (greedy_init E (0 # p) snap util)))"
  by (simp add: greedyPlan_def Let_def)

lemma greedyPlan_inv:
  assumes "go_runtime E" and "wf_nodes (snap_nodes snap)" and "wf_map util"
  shows "list_all (planned_move E cold cands snap) (fst (greedyPlan E p snap cands spec cold util))
    \<and> distinct (map (\<lambda>ev. visitKey (ev_pod ev)) (fst (greedyPlan E p snap cands spec cold util)))
    \<and> usage_only snap (snd (greedyPlan E p snap cands spec cold util))"
  using greedy_inv_run [OF assms(2,3,2), of E cold cands "0 # p" "1 # p" 0 spec]
  by (simp add: greedyPlan_eq greedy_inv_def list_all_iff go_runtime.set_sort_slice [OF assms(1)]
      go_runtime.distinct_map_sort_slice [OF assms(1)])

text \<open>
  Every eviction the greedy loop plans moves one of the candidates from the node it runs on to a
  cold node on which it can be scheduled, has a score that is not at least zero, and is not yet allowed;
  no pod is planned twice, and the planning changes nothing of the snapshot but the usage of nodes.
\<close>

lemma greedyPlan_moves:
  assumes "go_runtime E" and "wf_nodes (snap_nodes snap)" and "wf_map util"
  shows "list_all (planned_move E cold cands snap) (fst (greedyPlan E p snap cands spec cold util))
    \<and> distinct (map (\<lambda>ev. (pod_namespace (ev_pod ev), pod_name (ev_pod ev)))
         (fst (greedyPlan E p snap cands spec cold util)))
    \<and> usage_only snap (snd (greedyPlan E p snap cands spec cold util))"
proof -
  have "distinct (map f xs)" if "distinct (map (\<lambda>x. g (f x)) xs)"
    for f :: "plan_eviction \<Rightarrow> string \<times> string" and g :: "string \<times> string \<Rightarrow> string" and xs
    using that by (auto simp: distinct_map inj_on_def)
  from this [where f = "\<lambda>ev. (pod_namespace (ev_pod ev), pod_name (ev_pod ev))"
      and g = "\<lambda>(n, m). n @ ''/'' @ m"] greedyPlan_inv [OF assms, of cold cands p spec]
  show ?thesis by (simp add: visitKey_def)
qed

text \<open>Visiting one more candidate leaves the loop where it was or considers that candidate's move.\<close>

lemma greedy_loop_take_Suc:
  "k < length cs \<Longrightarrow> greedy_loop E p i spec cold (take (Suc k) cs) g = greedy_loop E p i spec cold (take k cs) g
     \<or> greedy_loop E p i spec cold (take (Suc k) cs) g
       = fst (considerMove E ((i + k) # p) spec cold (cs ! k) (greedy_loop E p i spec cold (take k cs) g))"
proof (induction cs arbitrary: i g k)
  case (Cons c cs)
  show ?case
  proof (cases k)
    case 0
    then show ?thesis by (simp add: case_prod_beta)
  next
    case (Suc j)
    with Cons.prems Cons.IH [of j "Suc i" "fst (considerMove E (i # p) spec cold c g)"] show ?thesis
      by (auto simp: case_prod_beta)
  qed
qed simp

lemma considerMove_accepts:
  assumes "considerMove E p spec cold c g = (g', stop)" and "g' \<noteq> g" and "g_variance g \<noteq> NaN"
  shows "\<exists>ev. g_plan g' = g_plan g @ [ev] \<and> ev_pod ev = ps_object c \<and> flt (g_variance g') (g_variance g)
    \<and> (\<exists>q. g_variance g' = computeVariance E q (g_util g'))"
  using assms(1)
proof (cases rule: considerMove_cases)
  case (accept k node ev u v)
  have "v \<noteq> NaN" using accept(5) flt_not_NaN by blast
  then have "flt v (g_variance g)" using accept(6) assms(3) by (simp add: not_fle)
  with accept(7) scoreNode_SomeD(3) [OF accept(4)] scoreNode_variance(1) [OF accept(4)] show ?thesis by auto
qed (use assms(2) in simp)

text \<open>
  C8: when the variance of the classified nodes is a number, every move the loop accepts lowers the variance.
  Each candidate visited leaves the state of the loop as it was or appends one eviction of that candidate
  to the plan, and then the variance of the utilisations after the move is below the variance before it. So
  the variance the loop ends with is below the variance it started from as soon as one move is planned,
  every planned move has a score below zero, and the evictions come in order of ascending score.
\<close>

theorem greedyPlan_descends:
  assumes "go_runtime E" and "wf_nodes (snap_nodes snap)" and "wf_map util"
    and "computeVariance E (0 # p) util \<noteq> NaN"
  shows "let after = (\<lambda>k. greedy_loop E (1 # p) 0 spec cold (take k cands) (greedy_init E (0 # p) snap util));
        g = after (length cands);
        plan = fst (greedyPlan E p snap cands spec cold util) in
      g_variance (after 0) = computeVariance E (0 # p) util
    \<and> (\<forall>k < length cands. after (Suc k) = after k
        \<or> (\<exists>ev. g_plan (after (Suc k)) = g_plan (after k) @ [ev] \<and> ev_pod ev = ps_object (cands ! k)
             \<and> flt (g_variance (after (Suc k))) (g_variance (after k))
             \<and> (\<exists>q. g_variance (after (Suc k)) = computeVariance E q (g_util (after (Suc k))))))
    \<and> list_all (\<lambda>ev. flt (ev_score ev) (Fin 0)) plan
    \<and> sorted_wrt (\<lambda>a b. fle (ev_score a) (ev_score b)) plan
    \<and> mset plan = mset (g_plan g)
    \<and> (plan \<noteq> [] \<longrightarrow> flt (g_variance g) (computeVariance E (0 # p) util))"
proof -
  define after where "after = (\<lambda>k. greedy_loop E (1 # p) 0 spec cold (take k cands) (greedy_init E (0 # p) snap util))"
  define g where "g = after (length cands)"
  define plan where "plan = fst (greedyPlan E p snap cands spec cold util)"
  have inv: "greedy_inv E cold cands snap (computeVariance E (0 # p) util) (after k)" for k
    unfolding after_def
    by (rule greedy_inv_loop [OF greedy_inv_init [OF assms(2,3)] assms(2)]) (rule set_take_subset)
  have start: "g_variance (after 0) = computeVariance E (0 # p) util" by (simp add: after_def greedy_init_def)
  have step: "after (Suc k) = after k
        \<or> (\<exists>ev. g_plan (after (Suc k)) = g_plan (after k) @ [ev] \<and> ev_pod ev = ps_object (cands ! k)
             \<and> flt (g_variance (after (Suc k))) (g_variance (after k))
             \<and> (\<exists>q. g_variance (after (Suc k)) = computeVariance E q (g_util (after (Suc k)))))" if "k < length cands" for k
  proof (cases "after (Suc k) = after k")
    case False
    with greedy_loop_take_Suc [OF that, of E "1 # p" 0 spec cold "greedy_init E (0 # p) snap util"]
    obtain stop where "considerMove E ((0 + k) # 1 # p) spec cold (cands ! k) (after k) = (after (Suc k), stop)"
      unfolding after_def by (metis prod.collapse)
    from considerMove_accepts [OF this False] inv [of k] assms(4) show ?thesis by (simp add: greedy_inv_def)
  qed simp
  have plan: "plan = sort_slice E (\<lambda>a b. flt (ev_score a) (ev_score b)) (g_plan g)"
    by (simp add: plan_def greedyPlan_eq g_def after_def)
  have neg: "flt (ev_score ev) (Fin 0)" if "ev \<in> set (g_plan g)" for ev
    using inv [of "length cands"] that assms(4) by (simp add: greedy_inv_def list_all_iff g_def)
  then have nn: "\<forall>ev\<in>set (g_plan g). ev_score ev \<noteq> NaN" by (auto dest: flt_not_NaN)
  have "sorted_wrt (\<lambda>a b. \<not> flt (ev_score b) (ev_score a)) plan"
    unfolding plan by (rule go_runtime.sorted_sort_slice [OF assms(1)], rule strict_weak_on_key(1)) (use nn in simp)
  then have sorted: "sorted_wrt (\<lambda>a b. fle (ev_score a) (ev_score b)) plan"
    by (rule sorted_wrt_mono_rel [rotated]) (use nn in \<open>auto simp: plan go_runtime.set_sort_slice [OF assms(1)] not_flt\<close>)
  have same: "mset plan = mset (g_plan g)" by (simp add: plan go_runtime.mset_sort_slice [OF assms(1)])
  have lower: "flt (g_variance g) (computeVariance E (0 # p) util)" if "plan \<noteq> []"
  proof -
    have "g_plan g \<noteq> []" using that same by auto
    with inv [of "length cands"] assms(4) show ?thesis by (simp add: greedy_inv_def g_def)
  qed
  have "list_all (\<lambda>ev. flt (ev_score ev) (Fin 0)) plan"
    using neg by (simp add: plan list_all_iff go_runtime.set_sort_slice [OF assms(1)])
  with start step sorted same lower show ?thesis
    unfolding Let_def after_def [symmetric] g_def [symmetric] plan_def [symmetric] by blast
qed

text \<open>A move accepted at or below the target ends the loop.\<close>

lemma considerMove_below_target:
  assumes "considerMove E p spec cold c g = (g', stop)" and "fle (g_variance g) (targetVariance spec)"
  shows "g' = g \<and> \<not> stop \<or> stop \<and> length (g_plan g') = Suc (length (g_plan g))"
  using assms(1)
proof (cases rule: considerMove_cases)
  case (accept k node ev u v)
  have "v \<noteq> NaN" "g_variance g \<noteq> NaN" using accept(5) assms(2) flt_not_NaN fle_not_NaN by blast+
  then have "flt v (g_variance g)" using accept(6) by (simp add: not_fle)
  then have "fle v (g_variance g)" by (simp add: fle_def)
  then have "fle v (targetVariance spec)" using assms(2) by (rule fle_trans)
  with accept show ?thesis by simp
qed simp

lemma greedy_loop_below_target:
  "fle (g_variance g) (targetVariance spec) \<Longrightarrow>
   length (g_plan (greedy_loop E p i spec cold cs g)) \<le> Suc (length (g_plan g))"
proof (induction cs arbitrary: i)
  case (Cons c cs)
  obtain g' stop where step: "considerMove E (i # p) spec cold c g = (g', stop)"
    by (cases "considerMove E (i # p) spec cold c g")
  from considerMove_below_target [OF step Cons.prems] Cons show ?case by (auto simp: step)
qed simp

text \<open>
  C25: when the variance is already at or below the target of the policy, the loop plans at most one
  eviction. It may plan that one: the target is looked at only after a move has been accepted.
\<close>

theorem greedyPlan_at_target:
  assumes "go_runtime E" and "fle (computeVariance E (0 # p) util) (targetVariance spec)"
  shows "length (fst (greedyPlan E p snap cands spec cold util)) \<le> 1"
  using greedy_loop_below_target [of "greedy_init E (0 # p) snap util" spec E "1 # p" 0 cold cands] assms(2)
  by (simp add: greedyPlan_eq go_runtime.length_sort_slice [OF assms(1)]) (simp add: greedy_init_def)

subsection \<open>Degenerate capacities and weights\<close>

lemma nonfinite_fmul: "(\<And>a. x \<noteq> Fin a) \<Longrightarrow> fmul x y \<noteq> Fin b"
  by (cases x; cases y) (auto simp: inf_sgn_def)

lemma nonfinite_fadd: "(\<And>a. y \<noteq> Fin a) \<Longrightarrow> fadd x y \<noteq> Fin b"
  by (cases x; cases y) auto

lemma nonfinite_fdiv_0: "fdiv x (Fin 0) \<noteq> Fin b"
  by (cases x) (simp_all add: inf_sgn_def)

lemma cores_pos:
  assumes "0 < n"
  shows "flt (Fin 0) (fdiv (float_of_int n) (Fin 1000))"
proof -
  have "fle (Fin 1) (float_of_int n)" using float_of_int_mono [of 1 n] assms by simp
  then have "fle (fdiv (Fin 1) (Fin 1000)) (fdiv (float_of_int n) (Fin 1000))"
    by (rule fdiv_mono) simp
  moreover have "fdiv (Fin 1) (Fin 1000) = fl (1 / 1000)" by (simp only: fdiv.simps) simp
  moreover have "fle (fl (1 / 1024)) (fl (1 / 1000))" by (rule fl_mono) simp
  moreover have "flt (Fin 0) (fl (1 / 1024))" by simp
  ultimately show ?thesis by (metis flt_fle_trans)
qed

lemma simulateVariance_no_memory:
  assumes "go_runtime E" and "wf_map util" and f: "map_of nodes from = Some f" and t: "map_of nodes target = Some t"
    and st: "st = f \<or> st = t" and cpu: "0 < cpu_milli E (node_allocatable (ns_object st))"
    and mem: "mem_value E (node_allocatable (ns_object st)) = 0"
  shows "snd (simulateVariance E p util from target c m w nodes) = NaN"
proof -
  let ?u = "fst (simulateVariance E p util from target c m w nodes)"
  note pos = cores_pos [OF cpu]
  have bad: "fadd x (fmul (fdiv y (Fin 0)) z) \<noteq> Fin b" for x y z b
    by (intro nonfinite_fadd nonfinite_fmul nonfinite_fdiv_0)
  have "\<exists>k v. map_of ?u k = Some v \<and> (\<forall>b. v \<noteq> Fin b)"
  proof (cases "st = t")
    case True
    then have "map_of ?u target \<noteq> None \<and> (\<forall>b. map_of ?u target \<noteq> Some (Fin b))"
      using pos mem bad by (simp add: simulateVariance_def f t Let_def map_of_update)
    then show ?thesis by auto
  next
    case False
    then have "from \<noteq> target" and "st = f" using st f t by auto
    then have "map_of ?u from \<noteq> None \<and> (\<forall>b. map_of ?u from \<noteq> Some (Fin b))"
      using pos mem bad by (simp add: simulateVariance_def f t Let_def map_of_update)
    then show ?thesis by auto
  qed
  then obtain k v where "map_of ?u k = Some v" and "\<And>b. v \<noteq> Fin b" by blast
  then have "computeVariance E p ?u = NaN"
    by (rule computeVariance_nonfinite [OF assms(1) simulateVariance_wf [OF assms(2)]])
  then show ?thesis by (simp only: simulateVariance_snd [symmetric])
qed

subsection \<open>The example cluster, planned\<close>

definition example_hot_cold :: snapshot where
  "example_hot_cold = example_cluster\<lparr>snap_nodes :=
     [(''busy'', classifyNode (plain_env 0) (resourceWeights example_spec) example_spec (example_node_state ''busy'' (7 / 2) 4096)),
      (''idle'', classifyNode (plain_env 0) (resourceWeights example_spec) example_spec (example_node_state ''idle'' (1 / 2) 1024))]\<rparr>"

definition example_util :: "float64 gomap" where
  "example_util = [(''busy'', Fin (25 / 32)), (''idle'', Fin (1 / 8))]"

definition example_eviction :: plan_eviction where
  "example_eviction = \<lparr>ev_pod = ps_object example_mover, ev_fromNode = ''busy'', ev_targets = [''idle''],
     ev_score = Fin (- 49 / 512), ev_reason = ''Reduce variance by 0.0957'', ev_allowed = False,
     ev_namespace = ''prod''\<rparr>"

lemma wf_example_util: "wf_map example_util"
  by (simp add: example_util_def wf_map_def)

lemma wf_example_hot_cold: "wf_nodes (snap_nodes example_hot_cold)"
  by (auto simp: example_hot_cold_def wf_nodes_def wf_map_def split: if_splits)

lemma example_variance:
  "computeVariance (plain_env t) p example_util = Fin (441 / 4096)"
  "computeVariance (plain_env t) p [(''busy'', Fin (9 / 16)), (''idle'', Fin (11 / 32))] = Fin (49 / 4096)"
  by (simp_all add: computeVariance_def example_util_def wf_map_def fsub_def)

lemma example_requests:
  "requestCPU (plain_env t) example_mover = Fin 1" "requestMem (plain_env t) example_mover = Fin 1024"
  by (simp_all add: requestCPU_def requestMem_def example_mover_def feq_def)

lemma example_lookup:
  "map_of (snap_nodes example_hot_cold) ''busy'' = Some (classifyNode (plain_env 0)
      (resourceWeights example_spec) example_spec (example_node_state ''busy'' (7 / 2) 4096))"
  "map_of (snap_nodes example_hot_cold) ''idle'' = Some (classifyNode (plain_env 0)
      (resourceWeights example_spec) example_spec (example_node_state ''idle'' (1 / 2) 1024))"
  by (simp_all add: example_hot_cold_def)

lemma example_weights:
  "weight_cpu (resourceWeights example_spec) = Fin (3 / 4)" "weight_memory (resourceWeights example_spec) = Fin (1 / 4)"
  by (simp_all add: example_spec_def)

lemma example_simulated:
  "simulateVariance (plain_env t) p example_util ''busy'' ''idle'' (Fin 1) (Fin 1024)
     (resourceWeights example_spec) (snap_nodes example_hot_cold)
   = ([(''busy'', Fin (9 / 16)), (''idle'', Fin (11 / 32))], Fin (49 / 4096))"
proof -
  have alloc: "cpu_milli (plain_env t) (node_allocatable (ns_object (example_node_state n c m))) = 4000"
      "mem_value (plain_env t) (node_allocatable (ns_object (example_node_state n c m))) = 8192" for n c m
    by simp_all
  have u: "AList.update ''idle'' y (AList.update ''busy'' x example_util) = [(''busy'', x), (''idle'', y)]" for x y
    by (simp add: example_util_def)
  show ?thesis
    unfolding simulateVariance_def example_lookup option.case prod.case classifyNode_sel alloc example_weights Let_def
    by (simp add: u fsub_def example_variance(2))
qed

lemma example_reason: "sprintf_4f (Fin (49 / 512)) = ''0.0957''"
proof -
  have "round_half_even (30625 / 32) = 957"
  proof -
    have "\<lfloor>30625 / 32 :: rat\<rfloor> = 957" by (simp add: floor_eq_iff)
    then show ?thesis by (simp add: round_half_even_def Let_def)
  qed
  then show ?thesis by (simp add: Let_def pad4_def show_nat.simps digit_chars_def)
qed

lemma example_canSchedule: "canSchedule E p snap (ps_object example_mover) (ns_object (example_node_state n c m))"
  by (simp add: canSchedule_def toleratesTaints_def matchesNodeSelector_def matchesNodeAffinity_def
      passesPodAffinity_def example_mover_def blank_pod_def)

lemma example_scored:
  "scoreNode (plain_env t) p example_hot_cold example_mover example_spec example_util (Fin (441 / 4096))
     (classifyNode (plain_env 0) (resourceWeights example_spec) example_spec (example_node_state ''idle'' (1 / 2) 1024))
   = Some (example_eviction, [(''busy'', Fin (9 / 16)), (''idle'', Fin (11 / 32))], Fin (49 / 4096))"
proof -
  have pref: "nodeClassPreference example_spec = []" by (simp add: example_spec_def)
  have mover: "ps_nodeName example_mover = ''busy''" "pod_namespace (ps_object example_mover) = ''prod''"
    by (simp_all add: example_mover_def)
  show ?thesis
    by (simp only: scoreNode_def classifyNode_sel example_canSchedule example_node_state_sel mover
        example_requests example_simulated pref Let_def prod.case)
       (simp add: fsub_def example_reason example_eviction_def mover del: sprintf_4f.simps)
qed

lemma example_evaluated:
  "evaluateCandidate (plain_env t) p example_hot_cold example_mover example_spec example_util (Fin (441 / 4096)) [''idle'']
   = (Some example_eviction, Some [(''busy'', Fin (9 / 16)), (''idle'', Fin (11 / 32))], Fin (49 / 4096))"
proof -
  have node: "map_of (snap_nodes example_hot_cold) ''idle'' = Some (classifyNode (plain_env 0)
      (resourceWeights example_spec) example_spec (example_node_state ''idle'' (1 / 2) 1024))"
    by (simp add: example_hot_cold_def)
  have less: "flt (Fin (49 / 4096)) math_MaxFloat64" by (simp add: math_MaxFloat64_def)
  show ?thesis
    by (simp add: evaluateCandidate_def node example_scored less)
qed

lemma example_planned:
  "fst (greedyPlan (plain_env t) p example_hot_cold [example_mover] example_spec [''idle''] example_util) = [example_eviction]"
proof -
  have init: "greedy_init (plain_env t) q example_hot_cold example_util =
      \<lparr>g_snapshot = example_hot_cold, g_util = example_util, g_variance = Fin (441 / 4096), g_visited = {}, g_plan = []\<rparr>" for q
    by (simp add: greedy_init_def example_variance)
  have "g_plan (greedy_loop (plain_env t) (1 # p) 0 example_spec [''idle''] [example_mover]
      (greedy_init (plain_env t) (0 # p) example_hot_cold example_util)) = [example_eviction]"
    by (simp add: init considerMove_def example_evaluated split: prod.split)
  then show ?thesis
    by (simp add: greedyPlan_eq sort_slice_def less_at_def insertion_order_def)
qed

theorem evaluateCandidate_best_witness:
  "\<exists>ev u k. evaluateCandidate (plain_env 0) [] example_hot_cold example_mover example_spec example_util
       (Fin (441 / 4096)) [''idle''] = (Some ev, u, Fin (49 / 4096))
     \<and> k < length [''idle''] \<and> (\<exists>node nu. map_of (snap_nodes example_hot_cold) ([''idle''] ! k) = Some node
         \<and> canSchedule (plain_env 0) [0, k] example_hot_cold (ps_object example_mover) (ns_object node)
         \<and> ev_targets ev = [node_name (ns_object node)])"
  using evaluateCandidate_best [where E = "plain_env 0" and p = "[]" and snap = example_hot_cold
      and pod = example_mover and spec = example_spec and util = example_util and cur = "Fin (441 / 4096)"
      and cold = "[''idle'']"]
  unfolding example_evaluated prod.case option.case admitted_move_def by fastforce

theorem greedyPlan_descends_witness:
  "flt (ev_score example_eviction) (Fin 0)
   \<and> flt (g_variance (greedy_loop (plain_env 0) [1] 0 example_spec [''idle''] [example_mover]
        (greedy_init (plain_env 0) [0] example_hot_cold example_util))) (Fin (441 / 4096))"
proof -
  have nn: "computeVariance (plain_env 0) [0] example_util \<noteq> NaN" by (simp add: example_variance)
  show ?thesis
    using greedyPlan_descends [OF go_runtime_plain_env wf_example_hot_cold wf_example_util nn,
        where spec = example_spec and cold = "[''idle'']" and cands = "[example_mover]"]
    unfolding Let_def example_planned example_variance by simp
qed

theorem greedyPlan_at_target_witness:
  "length (fst (greedyPlan (plain_env 0) [] example_hot_cold [example_mover, example_mover]
     (example_spec\<lparr>targetVariance := Fin 1\<rparr>) [''idle''] example_util)) \<le> 1"
  by (rule greedyPlan_at_target [OF go_runtime_plain_env]) (simp add: example_variance)

lemma greedy_loop_plan_all:
  assumes step: "\<And>p c g k node ev u v. greedy_inv E cold cands snap v0 g \<Longrightarrow> c \<in> set cands \<Longrightarrow> k < length cold \<Longrightarrow>
      map_of (snap_nodes (g_snapshot g)) (cold ! k) = Some node \<Longrightarrow>
      scoreNode E (k # p) (g_snapshot g) c spec (g_util g) (g_variance g) node = Some (ev, u, v) \<Longrightarrow>
      flt v math_MaxFloat64 \<Longrightarrow> Q ev"
    and wf: "wf_nodes (snap_nodes snap)"
  shows "greedy_inv E cold cands snap v0 g \<Longrightarrow> set cs \<subseteq> set cands \<Longrightarrow> list_all Q (g_plan g) \<Longrightarrow>
    list_all Q (g_plan (greedy_loop E p i spec cold cs g))"
proof (induction cs arbitrary: i g)
  case (Cons c cs)
  obtain g' stop where run: "considerMove E (i # p) spec cold c g = (g', stop)"
    by (cases "considerMove E (i # p) spec cold c g")
  have c: "c \<in> set cands" using Cons.prems(2) by simp
  have inv: "greedy_inv E cold cands snap v0 g'" by (rule greedy_inv_step [OF Cons.prems(1) c wf run])
  have "list_all Q (g_plan g')"
    using run
  proof (cases rule: considerMove_cases)
    case (accept k node ev u v)
    have "Q ev" by (rule step [OF Cons.prems(1) c accept(2-5)])
    with Cons.prems(3) show ?thesis by (simp add: accept(7))
  qed (use Cons.prems(3) in simp)
  with Cons inv show ?case by (simp add: run)
qed simp

text \<open>
  C26: a node without allocatable memory but with CPU takes no part in a plan. Whatever is moved away from
  it or onto it, the simulation divides by its capacity unguarded and the variance it returns is NaN, so no
  pod is planned away from it or onto it.
\<close>

theorem no_memory_no_moves:
  assumes "go_runtime E" and "wf_nodes (snap_nodes snap)" and "wf_map util"
    and "\<And>c. c \<in> set cands \<Longrightarrow> map_of (snap_nodes snap) (ps_nodeName c) \<noteq> None"
    and "map_of (snap_nodes snap) n = Some st" and "0 < cpu_milli E (node_allocatable (ns_object st))"
    and "mem_value E (node_allocatable (ns_object st)) = 0"
  shows "(\<forall>k q c m w. map_of (snap_nodes snap) k \<noteq> None \<longrightarrow>
        snd (simulateVariance E q util n k c m w (snap_nodes snap)) = NaN
      \<and> snd (simulateVariance E q util k n c m w (snap_nodes snap)) = NaN)
    \<and> list_all (\<lambda>ev. ev_fromNode ev \<noteq> n \<and> ev_targets ev \<noteq> [n]) (fst (greedyPlan E p snap cands spec cold util))"
proof
  show "\<forall>k q c m w. map_of (snap_nodes snap) k \<noteq> None \<longrightarrow>
        snd (simulateVariance E q util n k c m w (snap_nodes snap)) = NaN
      \<and> snd (simulateVariance E q util k n c m w (snap_nodes snap)) = NaN"
  proof (intro allI impI)
    fix k q c m w
    assume "map_of (snap_nodes snap) k \<noteq> None"
    then obtain f where f: "map_of (snap_nodes snap) k = Some f" by blast
    show "snd (simulateVariance E q util n k c m w (snap_nodes snap)) = NaN
      \<and> snd (simulateVariance E q util k n c m w (snap_nodes snap)) = NaN"
      using simulateVariance_no_memory [OF assms(1,3,5) f disjI1 [OF refl] assms(6,7)]
        simulateVariance_no_memory [OF assms(1,3) f assms(5) disjI2 [OF refl] assms(6,7)] by simp
  qed
  let ?Q = "\<lambda>ev. ev_fromNode ev \<noteq> n \<and> ev_targets ev \<noteq> [n]"
  have Q: "?Q ev" if inv: "greedy_inv E cold cands snap v0 g" and c: "c \<in> set cands"
      and node: "map_of (snap_nodes (g_snapshot g)) (cold ! k) = Some node"
      and score: "scoreNode E (k # q) (g_snapshot g) c spec (g_util g) (g_variance g) node = Some (ev, u, v)"
      and less: "flt v math_MaxFloat64" for q c g k node ev u v v0
  proof (rule ccontr)
    assume "\<not> ?Q ev"
    have uo: "usage_only snap (g_snapshot g)" and wfu: "wf_map (g_util g)" using inv by (auto simp: greedy_inv_def)
    note d = scoreNode_SomeD [OF score]
    have name: "node_name (ns_object node) = cold ! k"
      using uo node unfolding usage_only_def wf_nodes_def by blast
    obtain f where f: "map_of (snap_nodes (g_snapshot g)) (ps_nodeName c) = Some f"
      using assms(4) [OF c] usage_only_None [OF uo, of "ps_nodeName c"] by fastforce
    have "n = ps_nodeName c \<or> n = cold ! k" using \<open>\<not> ?Q ev\<close> d(3) name by auto
    then obtain st' where st': "st' = f \<or> st' = node" "map_of (snap_nodes (g_snapshot g)) n = Some st'"
      using f node by auto
    have "ns_object st' = ns_object st" using usage_only_object [OF uo, of n] st'(2) assms(5) by simp
    then have "snd (simulateVariance E (1 # k # q) (g_util g) (ps_nodeName c) (cold ! k) (requestCPU E c) (requestMem E c)
        (resourceWeights spec) (snap_nodes (g_snapshot g))) = NaN"
      using simulateVariance_no_memory [OF assms(1) wfu f node st'(1)] assms(6,7) by simp
    then have "v = NaN" using d(2) unfolding name by (metis snd_conv)
    with less show False by simp
  qed
  have "list_all ?Q (g_plan (greedy_loop E (1 # p) 0 spec cold cands (greedy_init E (0 # p) snap util)))"
    by (rule greedy_loop_plan_all [OF Q assms(2) greedy_inv_init [OF assms(2,3)] order_refl])
       (assumption+, simp add: greedy_init_def)
  then show "list_all ?Q (fst (greedyPlan E p snap cands spec cold util))"
    by (simp add: greedyPlan_eq list_all_iff go_runtime.set_sort_slice [OF assms(1)])
qed

definition example_no_memory :: snapshot where
  "example_no_memory = example_hot_cold\<lparr>snap_nodes := AList.update ''idle''
     (blank_node_state\<lparr>ns_object := blank_node\<lparr>node_name := ''idle'', node_allocatable := [(''cpu'', 4000000000)]\<rparr>\<rparr>)
     (snap_nodes example_hot_cold)\<rparr>"

theorem no_memory_no_moves_witness:
  "snd (simulateVariance (plain_env 0) [] example_util ''busy'' ''idle'' (Fin 1) (Fin 1) (resourceWeights example_spec)
      (snap_nodes example_no_memory)) = NaN
   \<and> list_all (\<lambda>ev. ev_targets ev \<noteq> [''idle''])
     (fst (greedyPlan (plain_env 0) [] example_no_memory [example_mover] example_spec [''idle''] example_util))"
proof -
  have nodes: "map_of (snap_nodes example_no_memory) ''idle'' = Some (blank_node_state\<lparr>ns_object :=
        blank_node\<lparr>node_name := ''idle'', node_allocatable := [(''cpu'', 4000000000)]\<rparr>\<rparr>)"
      "map_of (snap_nodes example_no_memory) ''busy'' \<noteq> None"
    by (simp_all add: example_no_memory_def example_hot_cold_def)
  have wf: "wf_nodes (snap_nodes example_no_memory)"
    using wf_example_hot_cold by (simp add: example_no_memory_def wf_nodes_updateI)
  have known: "map_of (snap_nodes example_no_memory) (ps_nodeName c) \<noteq> None" if "c \<in> set [example_mover]" for c
    using that nodes(2) by (simp add: example_mover_def)
  have cpu: "0 < cpu_milli (plain_env 0) (node_allocatable (ns_object (blank_node_state\<lparr>ns_object :=
        blank_node\<lparr>node_name := ''idle'', node_allocatable := [(''cpu'', 4000000000)]\<rparr>\<rparr>)))"
    and mem: "mem_value (plain_env 0) (node_allocatable (ns_object (blank_node_state\<lparr>ns_object :=
        blank_node\<lparr>node_name := ''idle'', node_allocatable := [(''cpu'', 4000000000)]\<rparr>\<rparr>))) = 0"
    by simp_all
  note none = no_memory_no_moves [where p = "[]" and spec = example_spec and cold = "[''idle'']" and cands = "[example_mover]",
      OF go_runtime_plain_env wf wf_example_util known nodes(1) cpu mem]
  from none nodes(2) show ?thesis unfolding list_all_iff by blast
qed

text \<open>A node whose figures are in the range of the machine.\<close>

definition sane_node :: "'z kube_env_scheme \<Rightarrow> node_state \<Rightarrow> bool" where
  "sane_node E st \<longleftrightarrow> 0 < cpu_milli E (node_allocatable (ns_object st)) \<and> in_int64 (cpu_milli E (node_allocatable (ns_object st)))
     \<and> 0 < mem_value E (node_allocatable (ns_object st)) \<and> in_int64 (mem_value E (node_allocatable (ns_object st)))
     \<and> magnitude 63 (cpuCores (ns_usage st)) \<and> in_int64 (memoryBytes (ns_usage st))"

lemma magnitude_cores:
  assumes "0 < n" and "in_int64 n" and "magnitude k x" and "k + 10 \<le> 1023"
  shows "magnitude (k + 10) (fdiv x (fdiv (float_of_int n) (Fin 1000)))"
    and "magnitude (k + 10) (fdiv x (float_of_int n))"
proof -
  obtain a where a: "float_of_int n = Fin a" using magnitude_float_of_int [OF assms(2)] by (auto simp: magnitude_def)
  have one: "fle (Fin 1) (Fin a)" using float_of_int_mono [of 1 n] assms(1) by (simp add: a)
  then have "fle (fdiv (Fin 1) (Fin 1000)) (fdiv (Fin a) (Fin 1000))" by (rule fdiv_mono) simp
  moreover have "fdiv (Fin 1) (Fin 1000) = fl (1 / 1000)" by (simp only: fdiv.simps) simp
  moreover have "fle (fl (1 / 1024)) (fl (1 / 1000))" by (rule fl_mono) simp
  ultimately have lo: "fle (Fin (1 / 2 ^ 10)) (fdiv (Fin a) (Fin 1000))" by (auto dest: fle_trans)
  have "magnitude 63 (Fin a)" using magnitude_float_of_int [OF assms(2)] by (simp add: a)
  then have "magnitude (63 + 0) (fdiv (Fin a) (Fin 1000))" by (rule magnitude_fdiv) simp_all
  then obtain b where b: "fdiv (Fin a) (Fin 1000) = Fin b" by (auto simp: magnitude_def)
  show "magnitude (k + 10) (fdiv x (fdiv (float_of_int n) (Fin 1000)))"
    unfolding a b by (rule magnitude_fdiv [OF assms(3) _ assms(4)]) (use lo [unfolded b] in simp)
  show "magnitude (k + 10) (fdiv x (float_of_int n))"
    unfolding a by (rule magnitude_fdiv [OF assms(3) _ assms(4)]) (use one in simp)
qed

text \<open>
  With both weights of the policy zero, a simulated move sets the utilisation of both its nodes to
  zero, whatever the pod requests and the nodes use. \<open>Plan\<close> classifies such a policy with the default
  weights, but hands the raw ones to the simulation, which so takes any move for an improvement that
  empties both nodes.
\<close>

lemma zero_weights_flatten:
  assumes "map_of nodes from = Some f" and "map_of nodes target = Some t"
    and "weight_cpu w = Fin 0" and "weight_memory w = Fin 0"
    and "sane_node E f" and "sane_node E t" and "magnitude 63 c" and "magnitude 63 m"
  shows "fst (simulateVariance E p util from target c m w nodes)
    = AList.update target (Fin 0) (AList.update from (Fin 0) util)"
proof -
  have clamp: "magnitude 64 (if flt x (Fin 0) then Fin 0 else x)" if "magnitude 64 x" for x
    using that by simp
  have sum: "magnitude 64 (fadd x y)" "magnitude 64 (fsub x y)" if "magnitude 63 x" "magnitude 63 y" for x y
    using magnitude_fadd [of 63 x y] magnitude_fadd [of 63 x "fneg y"] that
    by (simp_all add: fsub_def magnitude_fneg)
  have zero: "fmul (fdiv x (fdiv (float_of_int n) (Fin 1000))) (Fin 0) = Fin 0" "fmul (fdiv x (float_of_int n)) (Fin 0) = Fin 0"
    if "magnitude 64 x" "0 < n" "in_int64 n" for x n
    using magnitude_cores [OF that(2,3,1)] by (auto intro: magnitude_times_0)
  note in_range = assms(5,6) [unfolded sane_node_def]
  have pos: "flt (Fin 0) (fdiv (float_of_int (cpu_milli E (node_allocatable (ns_object st)))) (Fin 1000))"
    if "st = f \<or> st = t" for st
    by (rule cores_pos) (use that in_range in auto)
  show ?thesis
    unfolding simulateVariance_def assms(1,2) option.case prod.case Let_def
    using in_range assms(3,4,7,8)
    by (simp add: pos zero sum clamp magnitude_float_of_int)
qed

end
