(* ===== verification/Planning.thy ===== *)
theory Planning
  imports Greedy
begin

text \<open>
  \<open>Plan\<close> of \<open>controllers/planner/planner.go\<close>: classification, candidates, greedy choice, and the budgets
  that decide which of the chosen evictions may be executed now. \<open>grantBudgets\<close> is the loop that
  allows evictions, \<open>budget_loop\<close> the one that reports what is left. A nil \<open>Budgets\<close> map reads as the
  empty one.

  The lemmas show what every planned eviction fulfils, exactly when one is allowed, the caps that
  follow, the reported budgets, and that planning changes the eviction histories by pruning only.
\<close>

fun grantBudgets ::
    "'z kube_env_scheme \<Rightarrow> pos \<Rightarrow> nat \<Rightarrow> policy_spec \<Rightarrow> workload_slo gomap \<Rightarrow> plan_eviction list \<Rightarrow>
     planner \<times> int gomap \<times> int \<Rightarrow> plan_eviction list \<times> planner \<times> int gomap \<times> int" where
  "grantBudgets E p i spec slos [] st = ([], st)"
| "grantBudgets E p i spec slos (ev # evs) (pl, namespaceCounts, clusterRemaining) =
     (let ns = ev_namespace ev;
          slo = map_of slos ns;
          (allowed, pl') = (if clusterRemaining > 0
             then canDisruptNamespace (now_at E (i # p)) ns spec slo (int_at namespaceCounts ns) pl
             else (False, pl));
          ev' = (if allowed then ev\<lparr>ev_allowed := True\<rparr>
                 else ev\<lparr>ev_reason := ev_reason ev @ '' (budget exhausted)''\<rparr>);
          st' = (if allowed
                 then (pl', AList.update ns (int_at namespaceCounts ns + 1) namespaceCounts, clusterRemaining - 1)
                 else (pl', namespaceCounts, clusterRemaining));
          (evs', st'') = grantBudgets E p (Suc i) spec slos evs st' in
      (ev' # evs', st''))"

fun budget_loop ::
    "'z kube_env_scheme \<Rightarrow> pos \<Rightarrow> nat \<Rightarrow> policy_spec \<Rightarrow> workload_slo gomap \<Rightarrow> (string \<times> int) list \<Rightarrow>
     planner \<times> int gomap \<Rightarrow> planner \<times> int gomap" where
  "budget_loop E p i spec slos [] st = st"
| "budget_loop E p i spec slos ((ns, used) # rest) (pl, budgets) =
     (let (remaining, pl') = remainingNamespaceBudget (now_at E (i # p)) ns spec (map_of slos ns) pl in
      budget_loop E p (Suc i) spec slos rest
        (pl', AList.update ns
           (if remaining < 0 then - 1
            else if remaining - used < 0 then 0 else remaining - used) budgets))"

definition evictionLimit :: "policy_spec \<Rightarrow> int" where
  "evictionLimit spec = (if maxEvictionsPerMinute spec \<le> 0 then 1 else maxEvictionsPerMinute spec)"

definition Plan ::
    "'z kube_env_scheme \<Rightarrow> pos \<Rightarrow> planner \<Rightarrow> snapshot \<Rightarrow> policy_spec \<Rightarrow> plan \<times> snapshot \<times> planner" where
  "Plan E p pl snap spec =
     (let weights = defaultWeights (resourceWeights spec);
          (nodes, hotNodes, coldNodes, utilMap) = classifyNodes E (0 # p) (snap_nodes snap) weights spec;
          snap1 = snap\<lparr>snap_nodes := nodes\<rparr>;
          stats = \<lparr>stat_hotNodes = int (length hotNodes), stat_coldNodes = int (length coldNodes),
                   stat_variance = computeVariance E (1 # p) utilMap,
                   stat_targetVariance = targetVariance spec\<rparr>;
          result = \<lparr>plan_evictions = [], plan_requeueAfter = 30 * second, plan_stats = stats, plan_budgets = []\<rparr> in
      if hotNodes = [] \<or> coldNodes = [] then (result, snap1, pl)
      else
        let (snap2, candidates) = filterCandidates E (2 # p) pl snap1 spec hotNodes in
        if candidates = [] then (result, snap2, pl)
        else
          let (chosen, snap3) = greedyPlan E (3 # p) snap2 candidates spec coldNodes utilMap in
          if chosen = [] then (result, snap3, pl)
          else
            let (evictions, pl1, namespaceCounts, rest) =
                  grantBudgets E (4 # p) 0 spec (snap_slos snap3) chosen (pl, [], evictionLimit spec);
                (pl2, budgets) = budget_loop E (6 # p) 0 spec (snap_slos snap3)
                  (go_range E (5 # p) namespaceCounts) (pl1, []) in
            (result\<lparr>plan_evictions := evictions, plan_budgets := budgets\<rparr>, snap3, pl2))"

subsection \<open>When an eviction is allowed\<close>

text \<open>How many of the first \<open>i\<close> evictions are allowed, over all and in one namespace.\<close>

definition allowed_in :: "plan_eviction list \<Rightarrow> string \<Rightarrow> nat" where
  "allowed_in evs ns = length (filter (\<lambda>ev. ev_allowed ev \<and> ev_namespace ev = ns) evs)"

definition allowed_total :: "plan_eviction list \<Rightarrow> nat" where
  "allowed_total evs = length (filter ev_allowed evs)"

lemma allowed_Cons [simp]:
  "allowed_in (ev # evs) ns = (if ev_allowed ev \<and> ev_namespace ev = ns then 1 else 0) + allowed_in evs ns"
  "allowed_total (ev # evs) = (if ev_allowed ev then 1 else 0) + allowed_total evs"
  "allowed_in [] ns = 0" "allowed_total [] = 0"
  by (simp_all add: allowed_in_def allowed_total_def)

text \<open>The namespace gate as a function of the recent evictions and of those granted before.\<close>

definition gate :: "policy_spec \<Rightarrow> workload_slo option \<Rightarrow> int \<Rightarrow> nat \<Rightarrow> bool" where
  "gate spec slo used recent \<longleftrightarrow>
     (maxEvictionsPerNamespace spec > 0 \<longrightarrow> used < maxEvictionsPerNamespace spec)
     \<and> (\<forall>s. slo = Some s \<longrightarrow> maxDisruptionsPerHour s = 0 \<or> int recent < maxDisruptionsPerHour s)"

lemma canDisrupt_gate:
  "fst (canDisruptNamespace now ns spec slo c pl) = gate spec slo c (recentEvictions pl ns now)"
  by (auto simp: fst_canDisruptNamespace gate_def)

lemma grantBudgets_step:
  assumes "grantBudgets E p i spec slos (ev # evs) (pl, counts, remaining) = (out, st)"
  obtains ok pl' evs' where "ok \<longleftrightarrow> 0 < remaining \<and> gate spec (map_of slos (ev_namespace ev))
        (int_at counts (ev_namespace ev)) (recentEvictions pl (ev_namespace ev) (now_at E (i # p)))"
    and "pl' \<in> {pl, storePruned (now_at E (i # p)) (ev_namespace ev) pl}"
    and "out = (if ok then ev\<lparr>ev_allowed := True\<rparr> else ev\<lparr>ev_reason := ev_reason ev @ '' (budget exhausted)''\<rparr>) # evs'"
    and "grantBudgets E p (Suc i) spec slos evs
        (pl', (if ok then AList.update (ev_namespace ev) (int_at counts (ev_namespace ev) + 1) counts else counts),
         (if ok then remaining - 1 else remaining)) = (evs', st)"
proof -
  define c where "c = (if remaining > 0 then canDisruptNamespace (now_at E (i # p)) (ev_namespace ev) spec
      (map_of slos (ev_namespace ev)) (int_at counts (ev_namespace ev)) pl else (False, pl))"
  obtain ok pl' where c: "c = (ok, pl')" by (cases c)
  obtain evs' st2 where rec: "grantBudgets E p (Suc i) spec slos evs
        (pl', (if ok then AList.update (ev_namespace ev) (int_at counts (ev_namespace ev) + 1) counts else counts),
         (if ok then remaining - 1 else remaining)) = (evs', st2)" by (meson surj_pair)
  have "ok \<longleftrightarrow> 0 < remaining \<and> gate spec (map_of slos (ev_namespace ev))
        (int_at counts (ev_namespace ev)) (recentEvictions pl (ev_namespace ev) (now_at E (i # p)))"
    using arg_cong [OF c_def, of fst] by (simp add: c canDisrupt_gate split: if_splits)
  moreover have "pl' \<in> {pl, storePruned (now_at E (i # p)) (ev_namespace ev) pl}"
    using snd_canDisruptNamespace [of "now_at E (i # p)" "ev_namespace ev" spec "map_of slos (ev_namespace ev)"
        "int_at counts (ev_namespace ev)" pl] arg_cong [OF c_def, of snd] by (simp add: c split: if_splits)
  moreover note run = assms [unfolded grantBudgets.simps Let_def, folded c_def, unfolded c prod.case]
  have "out = (if ok then ev\<lparr>ev_allowed := True\<rparr> else ev\<lparr>ev_reason := ev_reason ev @ '' (budget exhausted)''\<rparr>) # evs'"
    and "st = st2"
    using run rec by (cases ok; simp)+
  ultimately show ?thesis using rec that by blast
qed

text \<open>An eviction without the marks the budget loop sets.\<close>

definition unmarked :: "plan_eviction \<Rightarrow> plan_eviction" where
  "unmarked ev = ev\<lparr>ev_allowed := False, ev_reason := []\<rparr>"

text \<open>The second planner state is the first after some sequence of prunings, made at times in \<open>T\<close>.\<close>

definition prunes_at :: "gotime set \<Rightarrow> planner \<Rightarrow> planner \<Rightarrow> bool" where
  "prunes_at T pl pl' \<longleftrightarrow> (\<exists>es. (\<forall>e\<in>set es. \<exists>t ns. t \<in> T \<and> e = Pruned t ns)
     \<and> pl' = fold (apply_event RecordEviction storePruned) es pl)"

definition prunes_to :: "planner \<Rightarrow> planner \<Rightarrow> bool" where
  "prunes_to = prunes_at UNIV"

lemma prunes_at_refl [simp]: "prunes_at T pl pl"
  unfolding prunes_at_def by (rule exI [of _ "[]"]) simp

lemma prunes_to_refl [simp]: "prunes_to pl pl"
  by (simp add: prunes_to_def)

lemma prunes_at_weaken: "prunes_at T pl pl' \<Longrightarrow> prunes_to pl pl'"
  by (fastforce simp: prunes_to_def prunes_at_def)

lemma prunes_at_step: "pl' \<in> {pl, storePruned t ns pl} \<Longrightarrow> t \<in> T \<Longrightarrow> prunes_at T pl' pl'' \<Longrightarrow> prunes_at T pl pl''"
proof -
  assume step: "pl' \<in> {pl, storePruned t ns pl}" and t: "t \<in> T" and "prunes_at T pl' pl''"
  then obtain es where es: "\<forall>e\<in>set es. \<exists>t ns. t \<in> T \<and> e = Pruned t ns"
    and pl'': "pl'' = fold (apply_event RecordEviction storePruned) es pl'" by (auto simp: prunes_at_def)
  from step show "prunes_at T pl pl''"
  proof
    assume "pl' = pl"
    with es pl'' show ?thesis by (auto simp: prunes_at_def)
  next
    assume "pl' \<in> {storePruned t ns pl}"
    with es pl'' t show ?thesis unfolding prunes_at_def by (intro exI [of _ "Pruned t ns # es"]) auto
  qed
qed

lemma prunes_at_trans: "prunes_at T pl pl' \<Longrightarrow> prunes_at T pl' pl'' \<Longrightarrow> prunes_at T pl pl''"
proof -
  assume "prunes_at T pl pl'" "prunes_at T pl' pl''"
  then obtain es es' where "\<forall>e\<in>set (es @ es'). \<exists>t ns. t \<in> T \<and> e = Pruned t ns"
    and "pl'' = fold (apply_event RecordEviction storePruned) (es @ es') pl"
    unfolding prunes_at_def by fastforce
  then show ?thesis unfolding prunes_at_def by blast
qed

lemma grantBudgets_frame:
  "grantBudgets E p i spec slos evs (pl, counts, remaining) = (out, pl', counts', remaining') \<Longrightarrow>
   list_all (\<lambda>ev. \<not> ev_allowed ev) evs \<Longrightarrow>
   map unmarked out = map unmarked evs \<and> prunes_at (range (now_at E)) pl pl'
   \<and> int_at counts' ns = int_at counts ns + int (allowed_in out ns)
   \<and> (map_of counts' ns \<noteq> None \<longleftrightarrow> map_of counts ns \<noteq> None \<or> 0 < allowed_in out ns)
   \<and> (wf_map counts \<longrightarrow> wf_map counts') \<and> remaining' = remaining - int (allowed_total out)
   \<and> (0 \<le> remaining \<longrightarrow> 0 \<le> remaining')"
proof (induction evs arbitrary: i pl counts remaining out)
  case (Cons ev evs)
  from Cons.prems(1) show ?case
  proof (cases rule: grantBudgets_step)
    case (1 ok pl1 evs')
    have new: "\<not> ev_allowed ev" and rest: "list_all (\<lambda>ev. \<not> ev_allowed ev) evs" using Cons.prems(2) by simp_all
    note IH = Cons.IH [OF 1(4) rest]
    have "prunes_at (range (now_at E)) pl pl'" using 1(2) IH by (auto intro: prunes_at_step)
    with IH 1(1,3) new show ?thesis
      by (cases ok) (auto simp: unmarked_def map_of_update)
  qed
qed simp

lemma grantBudgets_allowed:
  "grantBudgets E p i spec slos evs (pl, counts, remaining) = (out, st) \<Longrightarrow>
   list_all (\<lambda>ev. \<not> ev_allowed ev) evs \<Longrightarrow>
   (\<And>j k. j \<le> k \<Longrightarrow> now_at E (j # p) \<le> now_at E (k # p)) \<Longrightarrow> j < length out \<Longrightarrow>
   ev_allowed (out ! j) \<longleftrightarrow> int (allowed_total (take j out)) < remaining
     \<and> gate spec (map_of slos (ev_namespace (out ! j)))
         (int_at counts (ev_namespace (out ! j)) + int (allowed_in (take j out) (ev_namespace (out ! j))))
         (recentEvictions pl (ev_namespace (out ! j)) (now_at E ((i + j) # p)))"
proof (induction evs arbitrary: i pl counts remaining out j)
  case (Cons ev evs)
  from Cons.prems(1) show ?case
  proof (cases rule: grantBudgets_step)
    case (1 ok pl1 evs')
    have new: "\<not> ev_allowed ev" and rest: "list_all (\<lambda>ev. \<not> ev_allowed ev) evs" using Cons.prems(2) by simp_all
    show ?thesis
    proof (cases j)
      case 0
      with 1(1,3) new show ?thesis by simp
    next
      case (Suc k)
      have recent: "recentEvictions pl1 ns (now_at E (Suc (i + k) # p)) = recentEvictions pl ns (now_at E (Suc (i + k) # p))" for ns
        using 1(2) planner_log.recent_prn [of "now_at E (i # p)" "now_at E (Suc (i + k) # p)"] Cons.prems(3) [of i "Suc (i + k)"]
        by auto
      note IH = Cons.IH [OF 1(4) rest Cons.prems(3), of k]
      show ?thesis using IH 1(3) Cons.prems(4) new
        by (cases ok) (auto simp: Suc recent algebra_simps)
    qed
  qed
qed simp

subsection \<open>The plan\<close>

definition plan_stats_of :: "'z kube_env_scheme \<Rightarrow> pos \<Rightarrow> policy_spec \<Rightarrow> node_ref list \<Rightarrow> node_ref list \<Rightarrow>
    float64 gomap \<Rightarrow> plan_stats" where
  "plan_stats_of E p spec hot cold util = \<lparr>stat_hotNodes = int (length hot), stat_coldNodes = int (length cold),
     stat_variance = computeVariance E (1 # p) util, stat_targetVariance = targetVariance spec\<rparr>"

lemma Plan_cases:
  assumes run: "Plan E p pl snap spec = (pln, snap', pl')"
    and cls: "classifyNodes E (0 # p) (snap_nodes snap) (defaultWeights (resourceWeights spec)) spec = (nodes, hot, cold, util)"
  obtains (idle) "pln = \<lparr>plan_evictions = [], plan_requeueAfter = 30 * second,
        plan_stats = plan_stats_of E p spec hot cold util, plan_budgets = []\<rparr>" and "pl' = pl"
  | (busy) snap2 cands chosen evs pl1 counts left budgets where "hot \<noteq> []" and "cold \<noteq> []"
    and "filterCandidates E (2 # p) pl (snap\<lparr>snap_nodes := nodes\<rparr>) spec hot = (snap2, cands)"
    and "greedyPlan E (3 # p) snap2 cands spec cold util = (chosen, snap')"
    and "grantBudgets E (4 # p) 0 spec (snap_slos snap') chosen (pl, [], evictionLimit spec) = (evs, pl1, counts, left)"
    and "budget_loop E (6 # p) 0 spec (snap_slos snap') (go_range E (5 # p) counts) (pl1, []) = (pl', budgets)"
    and "pln = \<lparr>plan_evictions = evs, plan_requeueAfter = 30 * second,
        plan_stats = plan_stats_of E p spec hot cold util, plan_budgets = budgets\<rparr>"
proof -
  obtain snap2 cands where f: "filterCandidates E (2 # p) pl (snap\<lparr>snap_nodes := nodes\<rparr>) spec hot = (snap2, cands)"
    by fastforce
  obtain chosen snap3 where g: "greedyPlan E (3 # p) snap2 cands spec cold util = (chosen, snap3)" by fastforce
  obtain evs pl1 counts left where b: "grantBudgets E (4 # p) 0 spec (snap_slos snap3) chosen (pl, [], evictionLimit spec)
      = (evs, pl1, counts, left)" by (metis prod_cases4)
  obtain pl2 budgets where l: "budget_loop E (6 # p) 0 spec (snap_slos snap3) (go_range E (5 # p) counts) (pl1, [])
      = (pl2, budgets)" by fastforce
  note eval = run [unfolded Plan_def Let_def cls prod.case f g b l, folded plan_stats_of_def]
  show ?thesis
  proof (cases "hot = [] \<or> cold = [] \<or> cands = [] \<or> chosen = []")
    case True
    with eval show ?thesis by (intro idle) (auto split: if_splits)
  next
    case False
    with eval have "snap' = snap3" "pl' = pl2" and pln: "pln = \<lparr>plan_evictions = evs, plan_requeueAfter = 30 * second,
        plan_stats = plan_stats_of E p spec hot cold util, plan_budgets = budgets\<rparr>" by simp_all
    with False f g b l show ?thesis by (intro busy [OF _ _ f _ _ _ pln]) simp_all
  qed
qed

text \<open>What a planned eviction is, in terms of the snapshot that was handed in.\<close>

definition safe_eviction :: "'z kube_env_scheme \<Rightarrow> snapshot \<Rightarrow> policy_spec \<Rightarrow> node_ref list \<Rightarrow> node_ref list \<Rightarrow>
    plan_eviction \<Rightarrow> bool" where
  "safe_eviction E snap spec hot cold ev \<longleftrightarrow>
     (\<exists>c\<in>set (snap_pods snap). ev_pod ev = ps_object c \<and> ev_fromNode ev = ps_nodeName c
        \<and> ev_namespace ev = pod_namespace (ps_object c) \<and> movable E snap spec hot c
        \<and> (\<exists>t\<in>set cold. \<exists>node q. ev_targets ev = [t] \<and> map_of (snap_nodes snap) t = Some node
             \<and> canSchedule E q snap (ps_object c) (ns_object node)))"

lemma isHotNode_cong:
  "(\<And>k. map_option ns_object (map_of nodes' k) = map_option ns_object (map_of nodes k)) \<Longrightarrow>
   isHotNode nodes' ns name = isHotNode nodes ns name"
proof -
  assume eq: "\<And>k. map_option ns_object (map_of nodes' k) = map_option ns_object (map_of nodes k)"
  have "map_option (\<lambda>st. node_name (ns_object st)) m = map_option node_name (map_option ns_object m)" for m
    by (cases m) simp_all
  with eq have "map_option (\<lambda>st. node_name (ns_object st)) (map_of nodes' k)
      = map_option (\<lambda>st. node_name (ns_object st)) (map_of nodes k)" for k by metis
  then show ?thesis by (induction ns) auto
qed

lemma canSchedule_cong:
  assumes "\<And>k. map_option ns_object (map_of (snap_nodes snap') k) = map_option ns_object (map_of (snap_nodes snap) k)"
    and "map ps_object (snap_pods snap') = map ps_object (snap_pods snap)"
  shows "canSchedule E p snap' pod node = canSchedule E p snap pod node"
proof -
  have objs: "checkPods s pod nss sel key val pos ps = checkPods s pod nss sel key val pos qs"
    if "map ps_object ps = map ps_object qs" for s nss sel key val pos ps qs
    using that
  proof (induction ps arbitrary: qs)
    case (Cons a ps)
    then obtain b qs' where "qs = b # qs'" "ps_object b = ps_object a" "map ps_object ps = map ps_object qs'" by auto
    with Cons.IH [of qs'] show ?case by simp
  qed simp
  have "checkPods snap' = checkPods snap" by (intro ext checkPods_cong assms(1))
  with objs [OF assms(2)] have "checkPodAffinityTerm E snap' pod node t pos = checkPodAffinityTerm E snap pod node t pos" for t pos
    by (simp add: checkPodAffinityTerm_def Let_def split: option.split)
  then have "passesPodAffinity E snap' pod node = passesPodAffinity E snap pod node"
    by (simp add: passesPodAffinity_def split: option.split)
  then show ?thesis by (simp add: canSchedule_def)
qed

lemma Plan_evictions_safe_facts:
  assumes env: "go_runtime E" and wf: "wf_nodes (snap_nodes snap)"
    and cls: "classifyNodes E (0 # p) (snap_nodes snap) (defaultWeights (resourceWeights spec)) spec = (nodes, hot, cold, util)"
    and run: "Plan E p pl snap spec = (pln, snap', pl')"
  shows "list_all (safe_eviction E snap spec hot cold) (plan_evictions pln)
    \<and> distinct (map (\<lambda>ev. visitKey (ev_pod ev)) (plan_evictions pln))"
  using run cls
proof (cases rule: Plan_cases)
  case (busy snap2 cands chosen evs pl1 counts left budgets)
  note cf = classifyNodes_facts [OF env wf cls]
  let ?snap1 = "snap\<lparr>snap_nodes := nodes\<rparr>"
  have objs: "map_option ns_object (map_of nodes k) = map_option ns_object (map_of (snap_nodes snap) k)" for k
    by (cases "map_of (snap_nodes snap) k") (simp_all add: cf(1))
  have snap2: "snap_nodes snap2 = nodes" "map ps_object (snap_pods snap2) = map ps_object (snap_pods snap)"
    using busy(3) by (auto simp: filterCandidates_eq case_prod_beta comp_def
        map_fst_enumerate intro!: nth_equalityI simp: nth_enumerate_eq)
  note gp = greedyPlan_inv [OF env, of snap2 util cold cands "3 # p" spec, unfolded busy(4) fst_conv snap2(1)]
  have wf1: "wf_nodes nodes" "wf_map util" using cf(6) by simp_all
  have grant: "map unmarked evs = map unmarked chosen"
    by (rule grantBudgets_frame [OF busy(5), THEN conjunct1])
       (use gp [OF wf1] in \<open>auto simp: list_all_iff planned_move_def\<close>)
  have chosen: "safe_eviction E snap spec hot cold ev" if "ev \<in> set chosen" for ev
  proof -
    from gp [OF wf1] that obtain c t node q where c: "c \<in> set cands" and ev: "ev_pod ev = ps_object c"
      "ev_fromNode ev = ps_nodeName c" "ev_namespace ev = pod_namespace (ps_object c)" "t \<in> set cold"
      "ev_targets ev = [t]" "map_of nodes t = Some node" "canSchedule E q snap2 (ps_object c) (ns_object node)"
      unfolding list_all_iff planned_move_def by (auto simp: snap2(1))
    from c busy(3) have c': "c \<in> set (snd (filterCandidates E (2 # p) pl ?snap1 spec hot))" by simp
    obtain i where i: "i < length (snap_pods snap)" "c = mark_pod (snap_pods snap ! i)"
      using candidate_kept [OF env c'] by auto
    define pod where "pod = snap_pods snap ! i"
    have pod: "pod \<in> set (snap_pods snap)" "c = mark_pod pod" using i by (simp_all add: pod_def)
    have "movable E ?snap1 spec hot pod" using candidate_movable [OF env c'] by (simp only: pod(2) movable_mark)
    then have "movable E snap spec hot pod"
      using isHotNode_cong [of nodes "snap_nodes snap" hot, OF objs] by (simp add: movable_def)
    moreover obtain node0 where "map_of (snap_nodes snap) t = Some node0" "ns_object node0 = ns_object node"
      using objs [of t] ev(6) by (cases "map_of (snap_nodes snap) t") auto
    moreover have "canSchedule E q snap (ps_object c) (ns_object node)"
      using ev(7) canSchedule_cong [of snap2 snap E q] objs snap2 by simp
    ultimately show ?thesis
      using pod ev unfolding safe_eviction_def by (intro bexI [of _ pod]) auto
  qed
  have inv: "safe_eviction E snap spec hot cold ev = safe_eviction E snap spec hot cold (unmarked ev)"
    "visitKey (ev_pod ev) = visitKey (ev_pod (unmarked ev))" for ev
    by (simp_all add: safe_eviction_def unmarked_def)
  have "list_all (safe_eviction E snap spec hot cold) evs"
    using chosen inv(1) grant by (metis (no_types, lifting) list.pred_map list_all_iff comp_apply list.pred_cong)
  moreover have "map (\<lambda>ev. visitKey (ev_pod ev)) evs = map (\<lambda>ev. visitKey (ev_pod ev)) chosen"
  proof -
    have "map (\<lambda>ev. visitKey (ev_pod ev)) xs = map (\<lambda>ev. visitKey (ev_pod ev)) (map unmarked xs)" for xs
      by (simp add: unmarked_def)
    then show ?thesis by (metis grant)
  qed
  ultimately show ?thesis using gp [OF wf1] busy(7) by simp
qed simp

lemma Plan_distinct:
  assumes "go_runtime E" and "wf_nodes (snap_nodes snap)" and "Plan E p pl snap spec = (pln, snap', pl')"
  shows "distinct (map (\<lambda>ev. visitKey (ev_pod ev)) (plan_evictions pln))"
proof -
  obtain nodes hot cold util where cls: "classifyNodes E (0 # p) (snap_nodes snap)
      (defaultWeights (resourceWeights spec)) spec = (nodes, hot, cold, util)" by (metis prod_cases4)
  show ?thesis by (rule Plan_evictions_safe_facts [OF assms(1,2) cls assms(3), THEN conjunct2])
qed

text \<open>
  C5: every eviction of a plan is safe for the snapshot it was made from. It moves a pod of the snapshot
  that may be moved (no DaemonSet pod, not pinned, not in an excluded namespace, no exhausted disruption
  budget or critical priority where these are respected) from a node classified hot to a node
  classified cold on which the pod can be scheduled, and no pod is in the plan twice.
\<close>

theorem Plan_evictions_safe:
  assumes "go_runtime E" and "wf_nodes (snap_nodes snap)"
    and "classifyNodes E (0 # p) (snap_nodes snap) (defaultWeights (resourceWeights spec)) spec = (nodes, hot, cold, util)"
    and "Plan E p pl snap spec = (pln, snap', pl')"
  shows "list_all (safe_eviction E snap spec hot cold) (plan_evictions pln)
    \<and> distinct (map (\<lambda>ev. visitKey (ev_pod ev)) (plan_evictions pln))"
  by (rule Plan_evictions_safe_facts [OF assms])

text \<open>The plan before the budgets, and its marks.\<close>

lemma Plan_grants:
  assumes env: "go_runtime E" and wf: "wf_nodes (snap_nodes snap)" and run: "Plan E p pl snap spec = (pln, snap', pl')"
  shows "\<exists>chosen pl1 counts left. grantBudgets E (4 # p) 0 spec (snap_slos snap) chosen (pl, [], evictionLimit spec)
      = (plan_evictions pln, pl1, counts, left) \<and> list_all (\<lambda>ev. \<not> ev_allowed ev) chosen
    \<and> budget_loop E (6 # p) 0 spec (snap_slos snap) (go_range E (5 # p) counts) (pl1, []) = (pl', plan_budgets pln)"
proof -
  obtain nodes hot cold util where cls: "classifyNodes E (0 # p) (snap_nodes snap)
      (defaultWeights (resourceWeights spec)) spec = (nodes, hot, cold, util)" by (metis prod_cases4)
  have r0: "go_range E (5 # p) [] = []"
    using go_runtime.set_go_range [OF env wf_map_Nil, of "5 # p"] by (cases "go_range E (5 # p) []") auto
  from run cls show ?thesis
  proof (cases rule: Plan_cases)
    case idle
    then show ?thesis by (intro exI [of _ "[]"] exI [of _ pl] exI [of _ "evictionLimit spec"]) (simp add: r0)
  next
    case (busy snap2 cands chosen evs pl1 counts left budgets)
    have "wf_nodes (snap_nodes snap2)" "wf_map util"
      using classifyNodes_facts(6) [OF env wf cls] busy(3) by (auto simp: filterCandidates_eq)
    note gp = greedyPlan_inv [OF env this, of cold cands "3 # p" spec, unfolded busy(4) fst_conv snd_conv]
    have "list_all (\<lambda>ev. \<not> ev_allowed ev) chosen" using gp by (simp add: list_all_iff planned_move_def)
    moreover have "snap_slos snap2 = snap_slos snap" using busy(3) by (auto simp: filterCandidates_eq)
    then have "snap_slos snap' = snap_slos snap" using gp by (simp add: usage_only_def)
    ultimately show ?thesis using busy(5,6,7) by auto
  qed
qed

text \<open>
  C1: exactly which evictions are allowed. Over a clock that does not run backwards, the \<open>i\<close>-th eviction
  of a plan is allowed if and only if fewer than the limit were allowed before it and the gate of its
  namespace is open: fewer than the per-plan cap were allowed in it before, and, as of the moment it is
  considered, fewer evictions of the namespace were recorded in the last hour than its hourly cap. What
  the plan itself has allowed does not count towards the hourly cap.
\<close>

theorem Plan_allowed_iff:
  assumes "go_runtime E" and "wf_nodes (snap_nodes snap)" and "Plan E p pl snap spec = (pln, snap', pl')"
    and "\<And>j k. j \<le> k \<Longrightarrow> now_at E (j # 4 # p) \<le> now_at E (k # 4 # p)"
    and "i < length (plan_evictions pln)"
  shows "let ev = plan_evictions pln ! i; before = take i (plan_evictions pln); ns = ev_namespace ev in
    ev_allowed ev \<longleftrightarrow> int (allowed_total before) < evictionLimit spec
      \<and> gate spec (map_of (snap_slos snap) ns) (int (allowed_in before ns)) (recentEvictions pl ns (now_at E (i # 4 # p)))"
  using Plan_grants [OF assms(1-3)] grantBudgets_allowed [OF _ _ assms(4,5)] by (fastforce simp: Let_def)

lemma unmarked_eqD:
  "unmarked a = unmarked b \<Longrightarrow> ev_namespace a = ev_namespace b"
  "unmarked a = unmarked b \<Longrightarrow> ev_pod a = ev_pod b"
  by (cases a; cases b; simp add: unmarked_def)+

lemma grantBudgets_namespace_cap:
  assumes "grantBudgets E p i spec slos evs (pl, counts, remaining) = (out, st)"
    and "list_all (\<lambda>ev. \<not> ev_allowed ev) evs" and cap: "maxEvictionsPerNamespace spec > 0"
  shows "int_at counts ns \<le> maxEvictionsPerNamespace spec \<Longrightarrow>
    int_at counts ns + int (allowed_in out ns) \<le> maxEvictionsPerNamespace spec"
  using assms(1,2)
proof (induction evs arbitrary: i pl counts remaining out)
  case (Cons ev evs)
  from Cons.prems(2) show ?case
  proof (cases rule: grantBudgets_step)
    case (1 ok pl1 evs')
    have new: "\<not> ev_allowed ev" and rest: "list_all (\<lambda>ev. \<not> ev_allowed ev) evs" using Cons.prems(3) by simp_all
    note IH = Cons.IH [OF _ 1(4) rest]
    show ?thesis
    proof (cases "ok \<and> ev_namespace ev = ns")
      case True
      then have "int_at counts ns + 1 \<le> maxEvictionsPerNamespace spec" using 1(1) cap by (auto simp: gate_def)
      with IH True 1(3) show ?thesis by simp
    next
      case False
      with IH 1(3) new Cons.prems(1) show ?thesis by (cases ok) simp_all
    qed
  qed
qed simp

lemma Plan_caps_facts:
  assumes "go_runtime E" and "wf_nodes (snap_nodes snap)" and "Plan E p pl snap spec = (pln, snap', pl')"
  shows "int (allowed_total (plan_evictions pln)) \<le> max 1 (maxEvictionsPerMinute spec)
    \<and> (maxEvictionsPerNamespace spec > 0 \<longrightarrow>
        (\<forall>ns. int (allowed_in (plan_evictions pln) ns) \<le> maxEvictionsPerNamespace spec))"
proof -
  obtain chosen pl1 counts left where g: "grantBudgets E (4 # p) 0 spec (snap_slos snap) chosen (pl, [], evictionLimit spec)
      = (plan_evictions pln, pl1, counts, left)" and new: "list_all (\<lambda>ev. \<not> ev_allowed ev) chosen"
    using Plan_grants [OF assms] by blast
  have lim: "0 \<le> evictionLimit spec" "evictionLimit spec = max 1 (maxEvictionsPerMinute spec)"
    by (auto simp: evictionLimit_def)
  note frame = grantBudgets_frame [OF g new]
  have "left = evictionLimit spec - int (allowed_total (plan_evictions pln))" and "0 \<le> left"
    using frame lim(1) by blast+
  then show ?thesis using lim(2) grantBudgets_namespace_cap [OF g new] by simp
qed

lemmas Plan_limit = Plan_caps_facts [THEN conjunct1]

text \<open>
  C6: the caps. A plan allows at most as many evictions as the limit of the policy, one when the limit
  is not positive, and in no namespace more than the positive per-namespace cap.
\<close>

theorem Plan_caps:
  assumes "go_runtime E" and "wf_nodes (snap_nodes snap)" and "Plan E p pl snap spec = (pln, snap', pl')"
  shows "int (allowed_total (plan_evictions pln)) \<le> max 1 (maxEvictionsPerMinute spec)
    \<and> (maxEvictionsPerNamespace spec > 0 \<longrightarrow>
        (\<forall>ns. int (allowed_in (plan_evictions pln) ns) \<le> maxEvictionsPerNamespace spec))"
  by (rule Plan_caps_facts [OF assms])

text \<open>
  The hourly cap of a namespace bounds what was executed in the last hour, not what one plan adds.
  When the namespace has no per-plan cap, fewer recorded evictions than its hourly cap, and the limit
  covers the list, every eviction is allowed, however many there are.
\<close>

lemma hourly_cap_not_counted:
  assumes "\<And>j k. j \<le> k \<Longrightarrow> now_at E (j # p) \<le> now_at E (k # p)"
    and "list_all (\<lambda>ev. \<not> ev_allowed ev \<and> ev_namespace ev = ns) evs" and "int (length evs) \<le> limit"
    and "maxEvictionsPerNamespace spec \<le> 0" and "map_of slos ns = Some s"
    and "\<And>j. int (recentEvictions pl ns (now_at E (j # p))) < maxDisruptionsPerHour s"
  shows "list_all ev_allowed (fst (grantBudgets E p 0 spec slos evs (pl, [], limit)))"
proof -
  obtain out pl1 counts left where run: "grantBudgets E p 0 spec slos evs (pl, [], limit) = (out, pl1, counts, left)"
    by (metis prod_cases4)
  have new: "list_all (\<lambda>ev. \<not> ev_allowed ev) evs" using assms(2) by (simp add: list_all_iff)
  have marks: "map unmarked out = map unmarked evs" using grantBudgets_frame [OF run new] by blast
  have len: "length out = length evs" using arg_cong [OF marks, of length] by simp
  have ns: "ev_namespace (out ! j) = ns" if "j < length out" for j
  proof -
    have "unmarked (out ! j) = unmarked (evs ! j)" using marks that len by (metis nth_map)
    then have "ev_namespace (out ! j) = ev_namespace (evs ! j)"
      by (rule unmarked_eqD(1))
    then show ?thesis using assms(2) that len by (simp add: list_all_length)
  qed
  have "ev_allowed (out ! j)" if "j < length out" for j
  proof -
    have "allowed_total (take j out) \<le> j"
      unfolding allowed_total_def using length_filter_le [of ev_allowed "take j out"] by simp
    then have "int (allowed_total (take j out)) < limit" using that len assms(3) by linarith
    then show ?thesis
      using grantBudgets_allowed [OF run new assms(1) that] ns [OF that] assms(4-6) by (simp add: gate_def)
  qed
  then show ?thesis by (simp add: run list_all_length)
qed

subsection \<open>The reported budgets\<close>

text \<open>What the budget loop writes for a namespace that used \<open>used\<close> evictions, \<open>r\<close> being its remaining budget.\<close>

definition reported :: "int \<Rightarrow> int \<Rightarrow> int" where
  "reported r used = (if r < 0 then - 1 else max 0 (r - used))"

lemma budget_loop_facts:
  "budget_loop E p i spec slos kvs (pl, budgets) = (pl', budgets') \<Longrightarrow> wf_map kvs \<Longrightarrow>
   prunes_at (range (now_at E)) pl pl' \<and> (case map_of kvs ns of None \<Rightarrow> map_of budgets' ns = map_of budgets ns
     | Some used \<Rightarrow> \<exists>t pl0. map_of budgets' ns =
         Some (reported (fst (remainingNamespaceBudget t ns spec (map_of slos ns) pl0)) used))"
proof (induction kvs arbitrary: i pl budgets)
  case (Cons kv kvs)
  obtain k used where kv: "kv = (k, used)" by (cases kv)
  define r where "r = remainingNamespaceBudget (now_at E (i # p)) k spec (map_of slos k) pl"
  have rep: "(if q < 0 then - 1 else if q - u < 0 then 0 else q - u) = reported q u" for q u
    by (simp add: reported_def)
  have wf: "wf_map kvs" and none: "map_of kvs k = None"
    using Cons.prems(2) by (auto simp: kv wf_map_def map_of_eq_None_iff)
  have "budget_loop E p (Suc i) spec slos kvs (snd r, AList.update k (reported (fst r) used) budgets) = (pl', budgets')"
    using Cons.prems(1) unfolding kv budget_loop.simps Let_def case_prod_beta r_def [symmetric] rep .
  note IH = Cons.IH [OF this wf]
  have "prunes_at (range (now_at E)) pl pl'"
    using IH snd_remainingNamespaceBudget [of "now_at E (i # p)" k spec "map_of slos k" pl]
    by (auto simp: r_def intro: prunes_at_step)
  with IH none show ?case
    by (cases "ns = k") (fastforce simp: kv r_def map_of_update split: option.splits)+
qed simp

text \<open>
  C27: the budgets a plan reports. They name exactly the namespaces in which it allows an eviction; a
  budget is -1 if nothing limits the namespace, and otherwise it is not negative and, together with
  the evictions the plan allows there, stays within the per-plan cap.
\<close>

theorem Plan_budgets:
  assumes "go_runtime E" and "wf_nodes (snap_nodes snap)" and "Plan E p pl snap spec = (pln, snap', pl')"
    and "\<And>ns s. map_of (snap_slos snap) ns = Some s \<Longrightarrow> 0 \<le> maxDisruptionsPerHour s"
  shows "(map_of (plan_budgets pln) ns \<noteq> None \<longleftrightarrow> 0 < allowed_in (plan_evictions pln) ns)
    \<and> (\<forall>b. map_of (plan_budgets pln) ns = Some b \<longrightarrow>
         (b = - 1 \<longleftrightarrow> maxEvictionsPerNamespace spec \<le> 0
            \<and> (\<forall>s. map_of (snap_slos snap) ns = Some s \<longrightarrow> maxDisruptionsPerHour s = 0))
       \<and> (b \<noteq> - 1 \<longrightarrow> 0 \<le> b)
       \<and> (0 < maxEvictionsPerNamespace spec \<longrightarrow>
            b + int (allowed_in (plan_evictions pln) ns) \<le> maxEvictionsPerNamespace spec))"
proof -
  obtain chosen pl1 counts left where g: "grantBudgets E (4 # p) 0 spec (snap_slos snap) chosen (pl, [], evictionLimit spec)
      = (plan_evictions pln, pl1, counts, left)" and new: "list_all (\<lambda>ev. \<not> ev_allowed ev) chosen"
    and b: "budget_loop E (6 # p) 0 spec (snap_slos snap) (go_range E (5 # p) counts) (pl1, []) = (pl', plan_budgets pln)"
    using Plan_grants [OF assms(1-3)] by blast
  let ?n = "allowed_in (plan_evictions pln) ns"
  note frame = grantBudgets_frame [OF g new, of ns]
  have wf: "wf_map counts" using frame by simp
  have "wf_map (go_range E (5 # p) counts)" by (rule go_runtime.wf_map_go_range [OF assms(1) wf])
  note loop = budget_loop_facts [OF b this, of ns, unfolded go_runtime.map_of_go_range [OF assms(1) wf]]
  have cap: "int ?n \<le> maxEvictionsPerNamespace spec" if "0 < maxEvictionsPerNamespace spec"
    using grantBudgets_namespace_cap [OF g new that, of ns] that by simp
  show ?thesis
  proof (cases "map_of counts ns")
    case None
    with frame loop show ?thesis by simp
  next
    case (Some used)
    then have used: "used = int ?n" and pos: "0 < ?n" using frame by (simp_all add: int_at_def)
    from loop Some obtain t pl0 where val: "map_of (plan_budgets pln) ns =
        Some (reported (fst (remainingNamespaceBudget t ns spec (map_of (snap_slos snap) ns) pl0)) (int ?n))"
      unfolding used by auto
    show ?thesis
      using pos cap assms(4) [of ns]
      by (auto simp: val reported_def fst_remainingNamespaceBudget Let_def split: option.splits if_splits)
  qed
qed

text \<open>
  Planning reads the histories of evictions and prunes them, and does nothing else to the planner, so
  the log of evictions the histories stand for is the same.
\<close>

lemma Plan_prunes_at:
  assumes "go_runtime E" and "wf_nodes (snap_nodes snap)" and "Plan E p pl snap spec = (pln, snap', pl')"
  shows "prunes_at (range (now_at E)) pl pl'"
proof -
  obtain chosen pl1 counts left where g: "grantBudgets E (4 # p) 0 spec (snap_slos snap) chosen (pl, [], evictionLimit spec)
      = (plan_evictions pln, pl1, counts, left)" and new: "list_all (\<lambda>ev. \<not> ev_allowed ev) chosen"
    and b: "budget_loop E (6 # p) 0 spec (snap_slos snap) (go_range E (5 # p) counts) (pl1, []) = (pl', plan_budgets pln)"
    using Plan_grants [OF assms] by blast
  have "wf_map counts" using grantBudgets_frame [OF g new] by simp
  then have "prunes_at (range (now_at E)) pl pl1" "prunes_at (range (now_at E)) pl1 pl'"
    using grantBudgets_frame [OF g new] budget_loop_facts [OF b] go_runtime.wf_map_go_range [OF assms(1)] by blast+
  then show ?thesis by (rule prunes_at_trans)
qed

lemmas Plan_prunes = Plan_prunes_at [THEN prunes_at_weaken]

subsection \<open>The example cluster, end to end\<close>

text \<open>What the evaluation of a candidate reads of the snapshot and of the candidate.\<close>

definition same_candidate :: "snapshot \<Rightarrow> pod_state \<Rightarrow> snapshot \<Rightarrow> pod_state \<Rightarrow> bool" where
  "same_candidate snap' pod' snap pod \<longleftrightarrow> snap_nodes snap' = snap_nodes snap
     \<and> map ps_object (snap_pods snap') = map ps_object (snap_pods snap) \<and> ps_object pod' = ps_object pod
     \<and> ps_nodeName pod' = ps_nodeName pod \<and> ps_requests pod' = ps_requests pod"

lemma scoreNode_cong:
  assumes "same_candidate snap' pod' snap pod"
  shows "scoreNode E p snap' pod' spec util cur node = scoreNode E p snap pod spec util cur node"
proof -
  have same: "snap_nodes snap' = snap_nodes snap" "map ps_object (snap_pods snap') = map ps_object (snap_pods snap)"
      "ps_object pod' = ps_object pod" "ps_nodeName pod' = ps_nodeName pod" "ps_requests pod' = ps_requests pod"
    using assms by (simp_all add: same_candidate_def)
  have can: "canSchedule E q snap' obj nd = canSchedule E q snap obj nd" for q obj nd
    by (rule canSchedule_cong) (simp_all add: same)
  have req: "requestCPU E pod' = requestCPU E pod" "requestMem E pod' = requestMem E pod"
    by (simp_all add: requestCPU_def requestMem_def same)
  show ?thesis unfolding scoreNode_def can req same(1,3,4) ..
qed

definition example_marked :: snapshot where
  "example_marked = example_hot_cold\<lparr>snap_pods := [mark_pod example_mover]\<rparr>"

lemma example_kept: "kept (plain_env t) p (New 0) example_hot_cold example_spec [''busy''] 0 example_mover"
proof -
  have hot: "isHotNode (snap_nodes example_hot_cold) [''busy''] ''busy''"
    by (simp add: example_hot_cold_def)
  show ?thesis
    using hot by (simp add: kept_def considerPod_def example_mover_def blank_pod_state_def blank_pod_def example_spec_def
        Allow_iff isPinned_def isHighPriority_def systemCriticalPriority_def pdbAllows_def skipLocalStorage_def
        skipHostPath_def hasBackoff_def example_hot_cold_def example_cluster_def blank_snapshot_def)
qed

lemma example_filtered:
  "filterCandidates (plain_env t) p (New 0) example_hot_cold example_spec [''busy'']
     = (example_marked, [mark_pod example_mover])"
proof -
  have "snap_pods example_hot_cold = [example_mover]"
    by (simp add: example_hot_cold_def example_cluster_def)
  then show ?thesis
    by (simp add: filterCandidates_eq example_kept example_marked_def sort_slice_def less_at_def insertion_order_def)
qed

lemma example_evaluated_as:
  assumes "same_candidate snap c example_hot_cold example_mover"
  shows "evaluateCandidate (plain_env t) p snap c example_spec example_util (Fin (441 / 4096)) [''idle'']
    = evaluateCandidate (plain_env t) p example_hot_cold example_mover example_spec example_util (Fin (441 / 4096)) [''idle'']"
proof -
  have nodes: "snap_nodes snap = snap_nodes example_hot_cold" using assms by (simp add: same_candidate_def)
  show ?thesis
    unfolding evaluateCandidate_def evaluate_loop.simps nodes scoreNode_cong [OF assms] ..
qed

lemma example_planned_as:
  assumes "same_candidate snap c example_hot_cold example_mover"
  shows "fst (greedyPlan (plain_env t) p snap [c] example_spec [''idle''] example_util) = [example_eviction]"
proof -
  have init: "greedy_init (plain_env t) q snap example_util =
      \<lparr>g_snapshot = snap, g_util = example_util, g_variance = Fin (441 / 4096), g_visited = {}, g_plan = []\<rparr>" for q
    by (simp add: greedy_init_def example_variance)
  have "ps_object c = ps_object example_mover" using assms by (simp add: same_candidate_def)
  then have "g_plan (greedy_loop (plain_env t) (1 # p) 0 example_spec [''idle''] [c]
      (greedy_init (plain_env t) (0 # p) snap example_util)) = [example_eviction]"
    by (simp add: init considerMove_def example_evaluated_as [OF assms] example_evaluated split: prod.split)
  then show ?thesis
    by (simp add: greedyPlan_eq sort_slice_def less_at_def insertion_order_def)
qed

lemma example_marked_same: "same_candidate example_marked (mark_pod example_mover) example_hot_cold example_mover"
  by (simp add: same_candidate_def example_marked_def example_hot_cold_def example_cluster_def)

lemma example_defaultWeights: "defaultWeights (resourceWeights example_spec) = resourceWeights example_spec"
  by (simp add: defaultWeights_def example_spec_def feq_def)

lemma example_nodes_classified:
  "classifyNodes (plain_env 0) p (snap_nodes example_cluster) (defaultWeights (resourceWeights example_spec)) example_spec
     = (snap_nodes example_hot_cold, [''busy''], [''idle''], example_util)"
  unfolding example_defaultWeights example_classified by (simp add: example_hot_cold_def example_util_def)

lemma example_plan:
  "\<exists>pln snap' pl'. Plan (plain_env 0) p (New 0) example_cluster example_spec = (pln, snap', pl')
     \<and> plan_evictions pln = [example_eviction\<lparr>ev_allowed := True\<rparr>] \<and> plan_budgets pln = [(''prod'', - 1)]
     \<and> plan_requeueAfter pln = 30 * second"
proof -
  let ?E = "plain_env 0"
  have snap: "example_cluster\<lparr>snap_nodes := snap_nodes example_hot_cold\<rparr> = example_hot_cold"
    by (simp add: example_hot_cold_def)
  obtain snap3 where g: "greedyPlan ?E (3 # p) example_marked [mark_pod example_mover] example_spec [''idle''] example_util
      = ([example_eviction], snap3)"
    using example_planned_as [OF example_marked_same, of 0 "3 # p"] by (metis prod.collapse)
  have slos: "snap_slos snap3 = []"
  proof -
    have "wf_nodes (snap_nodes example_marked)" using wf_example_hot_cold by (simp add: example_marked_def)
    then have "usage_only example_marked snap3"
      using greedyPlan_inv [OF go_runtime_plain_env [of 0], where snap = example_marked and util = example_util and cold = "[''idle'']"
          and cands = "[mark_pod example_mover]" and p = "3 # p" and spec = example_spec]
        wf_example_util by (simp add: g)
    then show ?thesis by (simp add: usage_only_def example_marked_def example_hot_cold_def example_cluster_def blank_snapshot_def)
  qed
  have "Plan ?E p (New 0) example_cluster example_spec =
      (\<lparr>plan_evictions = [example_eviction\<lparr>ev_allowed := True\<rparr>], plan_requeueAfter = 30 * second,
        plan_stats = plan_stats_of ?E p example_spec [''busy''] [''idle''] example_util,
        plan_budgets = [(''prod'', - 1)]\<rparr>, snap3, New 0)"
    unfolding Plan_def Let_def example_nodes_classified prod.case snap example_filtered g plan_stats_of_def
    by (simp add: slos evictionLimit_def example_spec_def example_eviction_def canDisruptNamespace_def
        remainingNamespaceBudget_def wf_map_def)
  then show ?thesis by simp
qed


theorem Plan_evictions_safe_witness:
  "safe_eviction (plain_env 0) example_cluster example_spec [''busy''] [''idle''] (example_eviction\<lparr>ev_allowed := True\<rparr>)"
proof -
  have cls: "classifyNodes (plain_env 0) [0] (snap_nodes example_cluster) (defaultWeights (resourceWeights example_spec)) example_spec
      = (snap_nodes example_hot_cold, [''busy''], [''idle''], example_util)"
    unfolding example_defaultWeights example_classified by (simp add: example_hot_cold_def example_util_def)
  obtain pln snap' pl' where run: "Plan (plain_env 0) [] (New 0) example_cluster example_spec = (pln, snap', pl')"
    and evs: "plan_evictions pln = [example_eviction\<lparr>ev_allowed := True\<rparr>]" using example_plan by blast
  show ?thesis
    using Plan_evictions_safe [OF go_runtime_plain_env wf_example_cluster cls run] by (simp add: evs)
qed

theorem Plan_allowed_iff_witness:
  "\<exists>pln snap' pl'. Plan (plain_env 0) [] (New 0) example_cluster example_spec = (pln, snap', pl')
     \<and> ev_allowed (plan_evictions pln ! 0)"
proof -
  obtain pln snap' pl' where run: "Plan (plain_env 0) [] (New 0) example_cluster example_spec = (pln, snap', pl')"
    and evs: "plan_evictions pln = [example_eviction\<lparr>ev_allowed := True\<rparr>]" using example_plan by blast
  have "gate example_spec slo 0 r \<longleftrightarrow> (\<forall>s. slo = Some s \<longrightarrow> maxDisruptionsPerHour s = 0 \<or> int r < maxDisruptionsPerHour s)" for slo r
    by (simp add: gate_def example_spec_def)
  moreover have "snap_slos example_cluster = []" by (simp add: example_cluster_def blank_snapshot_def)
  moreover have "0 < evictionLimit example_spec" by (simp add: evictionLimit_def example_spec_def)
  moreover have "0 < length (plan_evictions pln)" by (simp add: evs)
  note Plan_allowed_iff [OF go_runtime_plain_env wf_example_cluster run _ this]
  ultimately have "ev_allowed (plan_evictions pln ! 0)" by (simp add: Let_def)
  with run show ?thesis by blast
qed

theorem Plan_caps_witness:
  "\<exists>pln snap' pl'. Plan (plain_env 0) [] (New 0) example_cluster example_spec = (pln, snap', pl')
     \<and> plan_evictions pln \<noteq> [] \<and> int (allowed_total (plan_evictions pln)) \<le> 3"
proof -
  obtain pln snap' pl' where run: "Plan (plain_env 0) [] (New 0) example_cluster example_spec = (pln, snap', pl')"
    and evs: "plan_evictions pln = [example_eviction\<lparr>ev_allowed := True\<rparr>]" using example_plan by blast
  have "max 1 (maxEvictionsPerMinute example_spec) = 3" by (simp add: example_spec_def)
  with Plan_caps [OF go_runtime_plain_env wf_example_cluster run] run evs show ?thesis by auto
qed

theorem Plan_budgets_witness:
  "\<exists>pln snap' pl'. Plan (plain_env 0) [] (New 0) example_cluster example_spec = (pln, snap', pl')
     \<and> map_of (plan_budgets pln) ''prod'' \<noteq> None \<and> map_of (plan_budgets pln) ''dev'' = None"
proof -
  obtain pln snap' pl' where run: "Plan (plain_env 0) [] (New 0) example_cluster example_spec = (pln, snap', pl')"
    and evs: "plan_evictions pln = [example_eviction\<lparr>ev_allowed := True\<rparr>]" using example_plan by blast
  have slo: "0 \<le> maxDisruptionsPerHour s" if "map_of (snap_slos example_cluster) ns = Some s" for ns s
    using that by (simp add: example_cluster_def blank_snapshot_def)
  have n: "allowed_in (plan_evictions pln) ''prod'' = 1" "allowed_in (plan_evictions pln) ''dev'' = 0"
    by (simp_all add: evs example_eviction_def)
  have b: "map_of (plan_budgets pln) ns \<noteq> None \<longleftrightarrow> 0 < allowed_in (plan_evictions pln) ns" for ns
    by (rule Plan_budgets [OF go_runtime_plain_env wf_example_cluster run, THEN conjunct1]) (rule slo)
  have "map_of (plan_budgets pln) ''prod'' \<noteq> None" "map_of (plan_budgets pln) ''dev'' = None"
    using b [of "''prod''"] b [of "''dev''"] unfolding n by simp_all
  with run show ?thesis by blast
qed

subsection \<open>Progress\<close>

text \<open>
  A candidate that can be improved on at once: at whatever point of the run it is evaluated, one of the
  cold nodes takes the pod and brings the variance below the present one.
\<close>

definition improves ::
    "'z kube_env_scheme \<Rightarrow> snapshot \<Rightarrow> policy_spec \<Rightarrow> node_ref list \<Rightarrow> float64 gomap \<Rightarrow> float64 \<Rightarrow> pod_state \<Rightarrow> bool" where
  "improves E snap spec cold util variance c \<longleftrightarrow> (\<forall>q. \<exists>ev u v.
     evaluateCandidate E q snap c spec util variance cold = (Some ev, u, v) \<and> \<not> fge v variance)"

lemma considerMove_improves:
  assumes "improves E (g_snapshot g) spec cold (g_util g) (g_variance g) c" and "g_visited g = {}"
  shows "g_plan (fst (considerMove E p spec cold c g)) \<noteq> []"
proof -
  obtain ev u v where "evaluateCandidate E p (g_snapshot g) c spec (g_util g) (g_variance g) cold = (Some ev, u, v)"
    and "\<not> fge v (g_variance g)"
    using assms(1) unfolding improves_def by blast
  then show ?thesis using assms(2) by (simp add: considerMove_def)
qed

lemma greedy_loop_keeps_plan: "g_plan g \<noteq> [] \<Longrightarrow> g_plan (greedy_loop E p i spec cold cands g) \<noteq> []"
proof (induction cands arbitrary: i g)
  case (Cons c cands)
  obtain g' stop where step: "considerMove E (i # p) spec cold c g = (g', stop)" by fastforce
  then have "g_plan g' \<noteq> []" using Cons.prems by (cases rule: considerMove_cases) simp_all
  with step Cons.IH show ?case by simp
qed simp

lemma greedy_loop_progress:
  assumes "c \<in> set cands" and "improves E (g_snapshot g) spec cold (g_util g) (g_variance g) c" and "g_visited g = {}"
  shows "g_plan (greedy_loop E p i spec cold cands g) \<noteq> []"
  using assms
proof (induction cands arbitrary: i)
  case (Cons d cands)
  obtain g' stop where step: "considerMove E (i # p) spec cold d g = (g', stop)" by fastforce
  show ?case
  proof (cases "g_plan g' = []")
    case False
    then show ?thesis using greedy_loop_keeps_plan [OF False, of E p "Suc i" spec cold cands] False by (simp add: step)
  next
    case True
    have "d \<noteq> c" using considerMove_improves [OF Cons.prems(2,3), of "i # p"] True step by auto
    moreover have "g' = g \<and> \<not> stop" using step by (cases rule: considerMove_cases) (use True in simp_all)
    ultimately show ?thesis using Cons.IH [of "Suc i"] Cons.prems by (simp add: step)
  qed
qed simp

lemma greedyPlan_progress:
  assumes "go_runtime E" and "c \<in> set cands"
    and "improves E snap spec cold util (computeVariance E (0 # p) util) c"
  shows "fst (greedyPlan E p snap cands spec cold util) \<noteq> []"
proof -
  let ?plan = "g_plan (greedy_loop E (1 # p) 0 spec cold cands (greedy_init E (0 # p) snap util))"
  have "?plan \<noteq> []" by (rule greedy_loop_progress [OF assms(2)]) (simp_all add: greedy_init_def assms(3))
  then have "length (fst (greedyPlan E p snap cands spec cold util)) \<noteq> 0"
    by (simp add: greedyPlan_eq go_runtime.length_sort_slice [OF assms(1)])
  then show ?thesis by simp
qed

lemma grantBudgets_first:
  assumes "grantBudgets E p i spec slos (ev # evs) (pl, [], remaining) = (out, st)" and "0 < remaining"
    and "list_all (\<lambda>(ns, s). maxDisruptionsPerHour s = 0) slos"
  shows "\<exists>rest. out = ev\<lparr>ev_allowed := True\<rparr> # rest"
  using assms(1)
proof (cases rule: grantBudgets_step)
  case (1 ok pl1 evs')
  have "gate spec (map_of slos (ev_namespace ev)) 0 n" for n
    using assms(3) by (auto simp: gate_def list_all_iff dest!: map_of_SomeD)
  with 1 assms(2) show ?thesis by simp
qed

text \<open>
  C28: progress. When there are hot and cold nodes, one candidate can be moved for a lower variance, and
  no workload objective limits disruptions, the plan contains an eviction that is allowed.
\<close>

theorem Plan_progress:
  assumes "go_runtime E"
    and "classifyNodes E (0 # p) (snap_nodes snap) (defaultWeights (resourceWeights spec)) spec = (nodes, hot, cold, util)"
    and "hot \<noteq> []" and "cold \<noteq> []"
    and "filterCandidates E (2 # p) pl (snap\<lparr>snap_nodes := nodes\<rparr>) spec hot = (snap2, cands)"
    and "c \<in> set cands" and "improves E snap2 spec cold util (computeVariance E (0 # 3 # p) util) c"
    and "list_all (\<lambda>(ns, s). maxDisruptionsPerHour s = 0) (snap_slos snap)" and "wf_nodes (snap_nodes snap)"
  shows "\<exists>ev. ev \<in> set (plan_evictions (fst (Plan E p pl snap spec))) \<and> ev_allowed ev"
proof -
  obtain pln snap' pl' where run: "Plan E p pl snap spec = (pln, snap', pl')" by (metis prod_cases3)
  obtain chosen snap3 where greedy: "greedyPlan E (3 # p) snap2 cands spec cold util = (chosen, snap3)" by fastforce
  have "chosen \<noteq> []" using greedyPlan_progress [OF assms(1,6,7)] by (simp add: greedy)
  have cands: "cands \<noteq> []" using assms(6) by auto
  obtain evs pl1 counts left where grant: "grantBudgets E (4 # p) 0 spec (snap_slos snap3) chosen (pl, [], evictionLimit spec)
      = (evs, pl1, counts, left)" by (metis prod_cases4)
  have evs: "plan_evictions pln = evs"
    using run \<open>chosen \<noteq> []\<close> cands assms(3,4)
    by (simp add: Plan_def Let_def assms(2,5) greedy grant split: prod.splits) auto
  obtain ev rest where "chosen = ev # rest" using \<open>chosen \<noteq> []\<close> by (cases chosen) auto
  note grant [unfolded this]
  then have "evs \<noteq> []" by (cases rule: grantBudgets_step) simp
  obtain chosen' pl1' counts' left' where g: "grantBudgets E (4 # p) 0 spec (snap_slos snap) chosen' (pl, [], evictionLimit spec)
      = (plan_evictions pln, pl1', counts', left')" using Plan_grants [OF assms(1,9) run] by blast
  obtain ev' rest' where "chosen' = ev' # rest'" using g evs \<open>evs \<noteq> []\<close> by (cases chosen') auto
  have "0 < evictionLimit spec" by (simp add: evictionLimit_def)
  from grantBudgets_first [OF g [unfolded \<open>chosen' = ev' # rest'\<close>] this assms(8)]
  obtain more where "plan_evictions pln = ev'\<lparr>ev_allowed := True\<rparr> # more" by blast
  then show ?thesis by (intro exI [of _ "ev'\<lparr>ev_allowed := True\<rparr>"]) (simp add: run)
qed

theorem Plan_progress_witness:
  "\<exists>ev. ev \<in> set (plan_evictions (fst (Plan (plain_env 0) [] (New 0) example_cluster example_spec))) \<and> ev_allowed ev"
proof -
  have cls: "classifyNodes (plain_env 0) [0] (snap_nodes example_cluster) (defaultWeights (resourceWeights example_spec)) example_spec
      = (snap_nodes example_hot_cold, [''busy''], [''idle''], example_util)"
    unfolding example_defaultWeights example_classified by (simp add: example_hot_cold_def example_util_def)
  have snap: "example_cluster\<lparr>snap_nodes := snap_nodes example_hot_cold\<rparr> = example_hot_cold"
    by (simp add: example_hot_cold_def)
  have filtered: "filterCandidates (plain_env 0) [2] (New 0) (example_cluster\<lparr>snap_nodes := snap_nodes example_hot_cold\<rparr>)
      example_spec [''busy''] = (example_marked, [mark_pod example_mover])"
    unfolding snap by (rule example_filtered)
  have "improves (plain_env 0) example_marked example_spec [''idle''] example_util
      (computeVariance (plain_env 0) [0, 3] example_util) (mark_pod example_mover)"
    unfolding improves_def example_variance
    by (simp add: example_evaluated_as [OF example_marked_same] example_evaluated)
  from Plan_progress [OF go_runtime_plain_env cls _ _ filtered _ this _ wf_example_cluster]
  show ?thesis by (simp add: example_cluster_def blank_snapshot_def)
qed

end
