(* ===== verification/Recorder.thy ===== *)
theory Recorder
  imports Planning
begin

text \<open>
  The metrics recorder (\<open>pkg/observability/metrics.go\<close>). Prometheus is not part of the repository, so a
  method is the list of the calls it makes on the collectors, in order: registering one, setting a gauge
  for label values, incrementing a counter. \<open>NewRecorder\<close> runs its registrations through a fresh
  \<open>sync.Once\<close>, so it makes them.

  The lemmas show that every call is made on a collector the recorder registered, of the right kind and
  with as many label values as it has labels (the library panics otherwise), and what a snapshot sets.
\<close>

datatype metric_kind = Gauge | Counter

datatype metric_call =
    Register metric_kind string "string list"
  | GaugeSet string "string list" float64
  | CounterInc string "string list"

definition NewRecorder :: "metric_call list" where
  "NewRecorder =
     [Register Gauge ''rebalancer_node_utilization'' [''node'', ''resource''],
      Register Gauge ''rebalancer_sigma'' [],
      Register Counter ''rebalancer_evictions_total'' [''namespace'', ''reason''],
      Register Counter ''rebalancer_dry_run_evictions_total'' [],
      Register Gauge ''rebalancer_budget_remaining'' [''namespace'']]"

definition ObservePlan :: "plan \<Rightarrow> metric_call list" where
  "ObservePlan pln = [GaugeSet ''rebalancer_sigma'' [] (stat_variance (plan_stats pln))]"

definition RecordNodeUtil :: "string \<Rightarrow> float64 \<Rightarrow> float64 \<Rightarrow> metric_call list" where
  "RecordNodeUtil node cpu memory =
     [GaugeSet ''rebalancer_node_utilization'' [node, ''cpu''] cpu,
      GaugeSet ''rebalancer_node_utilization'' [node, ''memory''] memory]"

fun RecordSnapshot_loop :: "(string \<times> node_state) list \<Rightarrow> metric_call list" where
  "RecordSnapshot_loop [] = []"
| "RecordSnapshot_loop ((name, st) # rest) =
     RecordNodeUtil name (util_cpu (ns_utilization st)) (util_memory (ns_utilization st)) @ RecordSnapshot_loop rest"

definition RecordSnapshot :: "'z runtime_scheme \<Rightarrow> pos \<Rightarrow> snapshot \<Rightarrow> metric_call list" where
  "RecordSnapshot E p snap = RecordSnapshot_loop (go_range E p (snap_nodes snap))"

definition RecordEvictionMetric :: "plan_eviction \<Rightarrow> bool \<Rightarrow> metric_call list" where
  "RecordEvictionMetric ev executed =
     (if executed then [CounterInc ''rebalancer_evictions_total'' [ev_namespace ev, ev_reason ev]]
      else [CounterInc ''rebalancer_dry_run_evictions_total'' []])"

definition RecordBudget :: "string \<Rightarrow> int \<Rightarrow> metric_call list" where
  "RecordBudget namespace remaining = [GaugeSet ''rebalancer_budget_remaining'' [namespace] (float_of_int remaining)]"

subsection \<open>Calls on registered collectors\<close>

definition registered :: "metric_kind \<Rightarrow> string \<Rightarrow> nat \<Rightarrow> bool" where
  "registered kind name n \<longleftrightarrow> (\<exists>ls. Register kind name ls \<in> set NewRecorder \<and> length ls = n)"

fun well_typed_call :: "metric_call \<Rightarrow> bool" where
  "well_typed_call (Register k n ls) = False"
| "well_typed_call (GaugeSet n vs x) = registered Gauge n (length vs)"
| "well_typed_call (CounterInc n vs) = registered Counter n (length vs)"

lemma registered_simps [simp]:
  "registered Gauge ''rebalancer_sigma'' 0"
  "registered Gauge ''rebalancer_node_utilization'' (Suc (Suc 0))"
  "registered Gauge ''rebalancer_budget_remaining'' (Suc 0)"
  "registered Counter ''rebalancer_evictions_total'' (Suc (Suc 0))"
  "registered Counter ''rebalancer_dry_run_evictions_total'' 0"
  by (auto simp: registered_def NewRecorder_def)

lemma well_typed_recorder [simp]:
  "list_all well_typed_call (ObservePlan pln)"
  "list_all well_typed_call (RecordNodeUtil node cpu memory)"
  "list_all well_typed_call (RecordEvictionMetric ev executed)"
  "list_all well_typed_call (RecordBudget ns r)"
  by (simp_all add: ObservePlan_def RecordNodeUtil_def RecordEvictionMetric_def RecordBudget_def)

lemma well_typed_RecordSnapshot [simp]: "list_all well_typed_call (RecordSnapshot E p snap)"
proof -
  have "list_all well_typed_call (RecordSnapshot_loop kvs)" for kvs
    by (induction kvs rule: RecordSnapshot_loop.induct) simp_all
  then show ?thesis by (simp add: RecordSnapshot_def)
qed

text \<open>A snapshot sets the two gauges of each of its nodes, and no others.\<close>

lemma set_RecordSnapshot:
  assumes "go_runtime E" and "wf_nodes (snap_nodes snap)"
  shows "set (RecordSnapshot E p snap) =
    {c. \<exists>k st. map_of (snap_nodes snap) k = Some st
       \<and> c \<in> set (RecordNodeUtil k (util_cpu (ns_utilization st)) (util_memory (ns_utilization st)))}"
proof -
  have wf: "wf_map (snap_nodes snap)" using assms(2) by (simp add: wf_nodes_def)
  have "set (RecordSnapshot_loop kvs) = {c. \<exists>k st. (k, st) \<in> set kvs
       \<and> c \<in> set (RecordNodeUtil k (util_cpu (ns_utilization st)) (util_memory (ns_utilization st)))}" for kvs
    by (induction kvs rule: RecordSnapshot_loop.induct) auto
  then show ?thesis
    by (simp add: RecordSnapshot_def go_runtime.set_go_range [OF assms(1) wf] wf_map_mem_iff [OF wf])
qed

end
