(* ===== verification/Reconcile.thy ===== *)
theory Reconcile
  imports Recorder "HOL-Library.Sublist"
begin

text \<open>
  The control loop: \<open>Reconcile\<close> and \<open>updateStatus\<close> of \<open>controllers/policy_controller.go\<close> and \<open>Evict\<close>
  of \<open>controllers/executors/eviction.go\<close>. The answers of the API server are the fields of
  \<open>cluster_io\<close>: the policy read, the lists behind the snapshot, the answer to each eviction (\<open>None\<close>
  when it was accepted) and to the status patch, and the two error classifiers of the client libraries.
  What the loop does to the outside is a trace of effects; logging is left out. One reconciliation runs
  at a time (\<open>MaxConcurrentReconciles\<close> is 1), so each is one step on the planner state.

  The lemmas show what each answer leads to, that only allowed evictions are attempted and only accepted
  ones recorded, that a dry run attempts none, and, over any sequence of reconciliations, that no pod is
  evicted again before its back-off has passed.
\<close>

datatype effect =
    Metric metric_call
  | KubeEvent string string string
  | EvictCall nsname int
  | PatchStatus policy policy

record cluster_io =
  io_policy :: "err + policy"
  io_reads :: cluster_reads
  io_evict :: "nat \<Rightarrow> err option"
  io_patch :: "err option"
  isNotFound :: "err \<Rightarrow> bool"
  isTooManyRequests :: "err \<Rightarrow> bool"

record outcome =
  out_effects :: "effect list"
  out_requeueAfter :: duration
  out_error :: "err option"

subsection \<open>The evictor\<close>

definition Evict :: "err option \<Rightarrow> plan_eviction \<Rightarrow> effect list \<times> err option" where
  "Evict response ev =
     (if pod_name (ev_pod ev) = [] then ([], Some (ErrNew ''eviction missing pod name''))
      else ([EvictCall (pod_key (ev_pod ev)) 30], response))"

subsection \<open>The reconciler\<close>

definition updateStatus ::
    "'z runtime_scheme \<Rightarrow> pos \<Rightarrow> cluster_io \<Rightarrow> policy \<Rightarrow> plan \<Rightarrow> int \<Rightarrow> duration \<Rightarrow> outcome" where
  "updateStatus E p io pol pln executed requeue =
     (let original = pol;
          updated = pol\<lparr>policy_status := \<lparr>observedGeneration = policy_generation pol,
            status_plan = \<lparr>st_hotNodes = stat_hotNodes (plan_stats pln),
              st_coldNodes = stat_coldNodes (plan_stats pln), st_variance = stat_variance (plan_stats pln),
              st_planned = int (length (plan_evictions pln)), st_executed = executed,
              st_lastExecution = Some (now_at E p), st_dryRun = dryRun (policy_spec pol), st_message = []\<rparr>\<rparr>\<rparr> in
      \<lparr>out_effects = [PatchStatus original updated], out_requeueAfter = requeue, out_error = io_patch io\<rparr>)"

definition podText :: "plan_eviction \<Rightarrow> string" where
  "podText ev = pod_namespace (ev_pod ev) @ ''/'' @ pod_name (ev_pod ev)"

definition dryRunEvent :: "plan_eviction \<Rightarrow> effect" where
  "dryRunEvent ev = KubeEvent ''Normal'' ''DryRunEviction''
     (''Would evict pod '' @ podText ev @ '' from node '' @ ev_fromNode ev
      @ '' to reduce variance (reason='' @ ev_reason ev @ '')'')"

definition failedEvent :: "plan_eviction \<Rightarrow> err \<Rightarrow> effect" where
  "failedEvent ev err = KubeEvent ''Warning'' ''EvictionFailed''
     (''Failed evicting pod '' @ podText ev @ '': '' @ err_msg err)"

definition evictedEvent :: "plan_eviction \<Rightarrow> effect" where
  "evictedEvent ev = KubeEvent ''Normal'' ''Evicted''
     (''Evicted pod '' @ podText ev @ '' from node '' @ ev_fromNode ev @ '' (reason='' @ ev_reason ev @ '')'')"

fun dryRun_loop :: "plan_eviction list \<Rightarrow> effect list" where
  "dryRun_loop [] = []"
| "dryRun_loop (ev # evs) =
     dryRunEvent ev # map Metric (RecordEvictionMetric ev False) @ dryRun_loop evs"

text \<open>
  The loop over the evictions; the flag of its result says that it was left by the early return of a
  throttled eviction.
\<close>

fun execute_loop ::
    "'z runtime_scheme \<Rightarrow> pos \<Rightarrow> nat \<Rightarrow> cluster_io \<Rightarrow> plan_eviction list \<Rightarrow> planner \<times> int \<Rightarrow>
     effect list \<times> planner \<times> int \<times> bool" where
  "execute_loop E p i io [] (pl, executed) = ([], pl, executed, False)"
| "execute_loop E p i io (ev # evs) (pl, executed) =
     (if \<not> ev_allowed ev then execute_loop E p (Suc i) io evs (pl, executed)
      else
        case Evict (io_evict io i) ev of
          (fx, Some err) \<Rightarrow>
            if isTooManyRequests io err then (fx, pl, executed, True)
            else
              let (fx', st) = execute_loop E p (Suc i) io evs (pl, executed) in
              (fx @ failedEvent ev err # fx', st)
        | (fx, None) \<Rightarrow>
            let (fx', st) = execute_loop E p (Suc i) io evs
                  (RecordEviction (now_at E (i # p)) (pod_key (ev_pod ev)) pl, executed + 1) in
            (fx @ evictedEvent ev # map Metric (RecordEvictionMetric ev True) @ fx', st))"

fun recordBudgets :: "(string \<times> int) list \<Rightarrow> metric_call list" where
  "recordBudgets [] = []"
| "recordBudgets ((ns, remaining) # rest) = RecordBudget ns remaining @ recordBudgets rest"

definition Reconcile ::
    "'z kube_env_scheme \<Rightarrow> pos \<Rightarrow> cluster_io \<Rightarrow> planner \<Rightarrow> outcome \<times> planner" where
  "Reconcile E p io pl =
     (case io_policy io of
        Inl err \<Rightarrow> (\<lparr>out_effects = [], out_requeueAfter = 0,
                     out_error = (if isNotFound io err then None else Some err)\<rparr>, pl)
      | Inr pol \<Rightarrow> (case Snapshot E (0 # p) (io_reads io) pl of
          Inl err \<Rightarrow> (\<lparr>out_effects = [], out_requeueAfter = minute, out_error = Some err\<rparr>, pl)
        | Inr snap \<Rightarrow>
            let (pln, snap', pl1) = Plan E (1 # p) pl snap (policy_spec pol);
                fx = map Metric (RecordSnapshot E (2 # p) snap' @ ObservePlan pln
                       @ recordBudgets (go_range E (3 # p) (plan_budgets pln))) in
            if dryRun (policy_spec pol) then
              let st = updateStatus E (4 # p) io pol pln 0 (plan_requeueAfter pln) in
              (st\<lparr>out_effects := fx @ dryRun_loop (plan_evictions pln) @ out_effects st\<rparr>, pl1)
            else
              let (fx', pl2, executed, throttled) = execute_loop E (5 # p) 0 io (plan_evictions pln) (pl1, 0) in
              if throttled
              then (\<lparr>out_effects = fx @ fx', out_requeueAfter = plan_requeueAfter pln, out_error = None\<rparr>, pl2)
              else
                let st = updateStatus E (4 # p) io pol pln executed (plan_requeueAfter pln) in
                (st\<lparr>out_effects := fx @ fx' @ out_effects st\<rparr>, pl2)))"

subsection \<open>What a trace says\<close>

fun call_of :: "effect \<Rightarrow> nsname option" where
  "call_of (EvictCall k g) = Some k"
| "call_of e = None"

fun patch_of :: "effect \<Rightarrow> policy option" where
  "patch_of (PatchStatus old new) = Some new"
| "patch_of e = None"

definition evict_calls :: "effect list \<Rightarrow> nsname list" where
  "evict_calls fx = List.map_filter call_of fx"

definition patches :: "effect list \<Rightarrow> policy list" where
  "patches fx = List.map_filter patch_of fx"

lemma trace_simps [simp]:
  "evict_calls [] = []" "evict_calls (EvictCall k g # fx) = k # evict_calls fx"
  "evict_calls (KubeEvent a b c # fx) = evict_calls fx" "evict_calls (Metric m # fx) = evict_calls fx"
  "evict_calls (PatchStatus old new # fx) = evict_calls fx"
  "evict_calls (fx @ fy) = evict_calls fx @ evict_calls fy" "evict_calls (map Metric ms) = []"
  "patches [] = []" "patches (EvictCall k g # fx) = patches fx"
  "patches (KubeEvent a b c # fx) = patches fx" "patches (Metric m # fx) = patches fx"
  "patches (PatchStatus old new # fx) = new # patches fx"
  "patches (fx @ fy) = patches fx @ patches fy" "patches (map Metric ms) = []"
  "evict_calls (dryRunEvent ev # fx) = evict_calls fx" "patches (dryRunEvent ev # fx) = patches fx"
  "evict_calls (failedEvent ev err # fx) = evict_calls fx" "patches (failedEvent ev err # fx) = patches fx"
  "evict_calls (evictedEvent ev # fx) = evict_calls fx" "patches (evictedEvent ev # fx) = patches fx"
  by (simp_all add: dryRunEvent_def failedEvent_def evictedEvent_def evict_calls_def patches_def List.map_filter_def comp_def)

lemma dryRun_loop_silent [simp]: "evict_calls (dryRun_loop evs) = []" "patches (dryRun_loop evs) = []"
  by (induction evs) simp_all

lemma updateStatus_trace [simp]:
  "evict_calls (out_effects (updateStatus E p io pol pln n d)) = []"
  "length (patches (out_effects (updateStatus E p io pol pln n d))) = 1"
  by (simp_all add: updateStatus_def)

subsection \<open>The execution loop\<close>

text \<open>The eviction at index \<open>i\<close> is attempted, and whether its answer ends the loop.\<close>

definition attempted :: "plan_eviction \<Rightarrow> bool" where
  "attempted ev \<longleftrightarrow> ev_allowed ev \<and> pod_name (ev_pod ev) \<noteq> []"

definition throttles :: "cluster_io \<Rightarrow> nat \<Rightarrow> plan_eviction \<Rightarrow> bool" where
  "throttles io i ev \<longleftrightarrow> ev_allowed ev \<and>
     (\<exists>err. snd (Evict (io_evict io i) ev) = Some err \<and> isTooManyRequests io err)"

fun handled :: "cluster_io \<Rightarrow> nat \<Rightarrow> plan_eviction list \<Rightarrow> plan_eviction list" where
  "handled io i [] = []"
| "handled io i (ev # evs) = (if throttles io i ev then [ev] else ev # handled io (Suc i) evs)"

text \<open>The evictions that were accepted, with the time they were recorded at.\<close>

fun accepted :: "'z runtime_scheme \<Rightarrow> pos \<Rightarrow> nat \<Rightarrow> cluster_io \<Rightarrow> plan_eviction list \<Rightarrow> (gotime \<times> nsname) list" where
  "accepted E p i io [] = []"
| "accepted E p i io (ev # evs) =
     (if attempted ev \<and> io_evict io i = None
      then (now_at E (i # p), pod_key (ev_pod ev)) # accepted E p (Suc i) io evs
      else accepted E p (Suc i) io evs)"

definition record_all :: "(gotime \<times> nsname) list \<Rightarrow> planner \<Rightarrow> planner" where
  "record_all recs pl = fold (\<lambda>(t, k). RecordEviction t k) recs pl"

lemma record_all_simps [simp]:
  "record_all [] pl = pl" "record_all ((t, k) # recs) pl = record_all recs (RecordEviction t k pl)"
  by (simp_all add: record_all_def)

lemma handled_subset: "set (handled io i evs) \<subseteq> set evs"
  by (induction evs arbitrary: i) auto

lemma execute_loop_spec:
  "execute_loop E p i io evs (pl, n) = (fx, pl', n', thr) \<Longrightarrow>
     pl' = record_all (accepted E p i io (handled io i evs)) pl
   \<and> n' = n + int (length (accepted E p i io (handled io i evs)))
   \<and> evict_calls fx = map (\<lambda>ev. pod_key (ev_pod ev)) (filter attempted (handled io i evs))
   \<and> patches fx = []
   \<and> (thr \<longleftrightarrow> (\<exists>j < length evs. throttles io (i + j) (evs ! j)))"
proof (induction evs arbitrary: i pl n fx pl' n' thr)
  case (Cons ev evs)
  have ex: "(\<exists>j < length (ev # evs). throttles io (i + j) ((ev # evs) ! j)) \<longleftrightarrow>
      throttles io i ev \<or> (\<exists>j < length evs. throttles io (Suc i + j) (evs ! j))"
    by (auto simp: less_Suc_eq_0_disj)
  show ?case
  proof (cases "ev_allowed ev")
    case False
    with Cons.prems have "execute_loop E p (Suc i) io evs (pl, n) = (fx, pl', n', thr)" by simp
    note IH = Cons.IH [OF this]
    have "\<not> throttles io i ev" "\<not> attempted ev" using False by (simp_all add: throttles_def attempted_def)
    with IH show ?thesis unfolding ex by simp
  next
    case allowed: True
    obtain fx0 r where ev: "Evict (io_evict io i) ev = (fx0, r)" by fastforce
    have fx0: "evict_calls fx0 = (if attempted ev then [pod_key (ev_pod ev)] else [])" "patches fx0 = []"
      and r: "r = None \<longleftrightarrow> attempted ev \<and> io_evict io i = None"
      using ev allowed by (auto simp: Evict_def attempted_def split: if_splits)
    show ?thesis
    proof (cases r)
      case None
      obtain fx' pl2 n2 thr2 where rec: "execute_loop E p (Suc i) io evs
          (RecordEviction (now_at E (i # p)) (pod_key (ev_pod ev)) pl, n + 1) = (fx', pl2, n2, thr2)"
        by (metis prod_cases4)
      note IH = Cons.IH [OF rec]
      have "\<not> throttles io i ev" using None by (simp add: throttles_def ev)
      moreover have "attempted ev \<and> io_evict io i = None" using r None by simp
      moreover have "fx = fx0 @ evictedEvent ev # map Metric (RecordEvictionMetric ev True) @ fx'"
          "pl' = pl2" "n' = n2" "thr = thr2"
        using Cons.prems None allowed by (simp_all add: ev rec)
      ultimately show ?thesis
        unfolding ex using IH fx0 by simp
    next
      case (Some err)
      then have not: "\<not> (attempted ev \<and> io_evict io i = None)" using r by auto
      show ?thesis
      proof (cases "isTooManyRequests io err")
        case True
        then have "throttles io i ev" using Some allowed by (simp add: throttles_def ev)
        moreover have "fx = fx0" "pl' = pl" "n' = n" thr
          using Cons.prems Some True allowed by (simp_all add: ev)
        ultimately show ?thesis unfolding ex using fx0 not by auto
      next
        case False
        obtain fx' pl2 n2 thr2 where rec: "execute_loop E p (Suc i) io evs (pl, n) = (fx', pl2, n2, thr2)"
          by (metis prod_cases4)
        note IH = Cons.IH [OF rec]
        have "\<not> throttles io i ev" using Some False by (simp add: throttles_def ev)
        moreover have "fx = fx0 @ failedEvent ev err # fx'" "pl' = pl2" "n' = n2" "thr = thr2"
          using Cons.prems Some False allowed by (simp_all add: ev rec)
        ultimately show ?thesis unfolding ex using IH fx0 not by auto
      qed
    qed
  qed
qed simp

subsection \<open>One reconciliation\<close>

definition publish :: "'z kube_env_scheme \<Rightarrow> pos \<Rightarrow> snapshot \<Rightarrow> plan \<Rightarrow> metric_call list" where
  "publish E p snap pln = RecordSnapshot E (2 # p) snap @ ObservePlan pln
     @ recordBudgets (go_range E (3 # p) (plan_budgets pln))"

lemma Reconcile_cases:
  assumes "Reconcile E p io pl = (out, pl')"
  obtains (no_policy) err where "io_policy io = Inl err" and "pl' = pl"
      and "out = \<lparr>out_effects = [], out_requeueAfter = 0, out_error = (if isNotFound io err then None else Some err)\<rparr>"
  | (no_snapshot) pol err where "io_policy io = Inr pol" and "Snapshot E (0 # p) (io_reads io) pl = Inl err"
      and "pl' = pl" and "out = \<lparr>out_effects = [], out_requeueAfter = minute, out_error = Some err\<rparr>"
  | (dry) pol snap pln snap' where "io_policy io = Inr pol" and "Snapshot E (0 # p) (io_reads io) pl = Inr snap"
      and "Plan E (1 # p) pl snap (policy_spec pol) = (pln, snap', pl')" and "dryRun (policy_spec pol)"
      and "out = (updateStatus E (4 # p) io pol pln 0 (plan_requeueAfter pln))\<lparr>out_effects :=
             map Metric (publish E p snap' pln) @ dryRun_loop (plan_evictions pln)
             @ out_effects (updateStatus E (4 # p) io pol pln 0 (plan_requeueAfter pln))\<rparr>"
  | (live) pol snap pln snap' pl1 fx executed throttled where "io_policy io = Inr pol"
      and "Snapshot E (0 # p) (io_reads io) pl = Inr snap"
      and "Plan E (1 # p) pl snap (policy_spec pol) = (pln, snap', pl1)" and "\<not> dryRun (policy_spec pol)"
      and "execute_loop E (5 # p) 0 io (plan_evictions pln) (pl1, 0) = (fx, pl', executed, throttled)"
      and "out = (if throttled then \<lparr>out_effects = map Metric (publish E p snap' pln) @ fx,
               out_requeueAfter = plan_requeueAfter pln, out_error = None\<rparr>
             else (updateStatus E (4 # p) io pol pln executed (plan_requeueAfter pln))\<lparr>out_effects :=
               map Metric (publish E p snap' pln) @ fx
               @ out_effects (updateStatus E (4 # p) io pol pln executed (plan_requeueAfter pln))\<rparr>)"
proof (cases "io_policy io")
  case (Inl err)
  with assms show ?thesis by (intro no_policy [OF Inl]) (auto simp: Reconcile_def)
next
  case pol: (Inr pol)
  show ?thesis
  proof (cases "Snapshot E (0 # p) (io_reads io) pl")
    case (Inl err)
    with assms pol show ?thesis by (intro no_snapshot [OF pol Inl]) (auto simp: Reconcile_def)
  next
    case snap: (Inr snap)
    obtain pln snap' pl1 where plan: "Plan E (1 # p) pl snap (policy_spec pol) = (pln, snap', pl1)"
      by (metis prod_cases3)
    obtain fx pl2 executed throttled where exec: "execute_loop E (5 # p) 0 io (plan_evictions pln) (pl1, 0)
        = (fx, pl2, executed, throttled)" by (metis prod_cases4)
    note run = assms [unfolded Reconcile_def pol snap plan sum.case Let_def prod.case, folded publish_def]
    show ?thesis
    proof (cases "dryRun (policy_spec pol)")
      case True
      with run have "pl1 = pl'" by simp
      show ?thesis
        by (rule dry [OF pol snap plan [unfolded \<open>pl1 = pl'\<close>] True]) (use run True in simp)
    next
      case False
      have "pl2 = pl'" using run False exec by (simp split: if_splits)
      show ?thesis
        by (rule live [OF pol snap plan False exec [unfolded \<open>pl2 = pl'\<close>]]) (use run False exec in \<open>simp split: if_splits\<close>)
    qed
  qed
qed

lemma planned_wf: "go_runtime E \<Longrightarrow> Snapshot E p rd pl = Inr snap \<Longrightarrow> wf_nodes (snap_nodes snap)"
  using Snapshot_wf [of E p rd pl snap] by (simp add: wf_snapshot_def)

text \<open>
  C16: a dry run evicts nothing. It attempts no eviction whatever the plan allows, leaves the planner's
  record of evictions as it is up to pruning, and reports a status with no execution.
\<close>

theorem dry_run_evicts_nothing:
  assumes "go_runtime E" and "io_policy io = Inr pol" and "dryRun (policy_spec pol)"
    and "Reconcile E p io pl = (out, pl')"
  shows "evict_calls (out_effects out) = [] \<and> prunes_to pl pl'
    \<and> list_all (\<lambda>new. st_executed (status_plan (policy_status new)) = 0
         \<and> st_dryRun (status_plan (policy_status new))) (patches (out_effects out))"
  using assms(4)
proof (cases rule: Reconcile_cases)
  case (dry pol' snap pln snap')
  have "prunes_to pl pl'"
    by (rule Plan_prunes [OF assms(1) planned_wf [OF assms(1) dry(2)] dry(3)])
  then show ?thesis
    using dry assms(2,3) by (simp add: updateStatus_def)
next
  case (live pol' snap pln snap' pl1 fx executed throttled)
  with assms(2,3) show ?thesis by simp
qed simp_all

text \<open>
  C2: what a live reconciliation executes. The attempted evictions are the allowed ones of the plan with
  a pod name, in the plan's order, up to the first answer that throttles; the planner records exactly
  the accepted ones, each at the time it was accepted, on top of the planner as \<open>Plan\<close> left it; no pod
  is attempted twice, and no more than the limit of the policy are attempted.
\<close>

theorem Reconcile_executes:
  assumes "go_runtime E" and "io_policy io = Inr pol" and "\<not> dryRun (policy_spec pol)"
    and "Snapshot E (0 # p) (io_reads io) pl = Inr snap"
    and "Plan E (1 # p) pl snap (policy_spec pol) = (pln, snap', pl1)"
  shows "let (out, pl') = Reconcile E p io pl; reached = handled io 0 (plan_evictions pln) in
      evict_calls (out_effects out) = map (\<lambda>ev. pod_key (ev_pod ev)) (filter attempted reached)
    \<and> pl' = record_all (accepted E (5 # p) 0 io reached) pl1
    \<and> distinct (evict_calls (out_effects out))
    \<and> int (length (evict_calls (out_effects out))) \<le> max 1 (maxEvictionsPerMinute (policy_spec pol))"
proof -
  obtain out pl' where run: "Reconcile E p io pl = (out, pl')" by fastforce
  obtain fx executed throttled where exec: "execute_loop E (5 # p) 0 io (plan_evictions pln) (pl1, 0) = (fx, pl', executed, throttled)"
    and calls: "evict_calls (out_effects out) = evict_calls fx"
    using run by (cases rule: Reconcile_cases) (use assms(2-5) in \<open>auto split: if_splits\<close>)
  note spec = execute_loop_spec [OF exec]
  let ?evs = "plan_evictions pln" and ?r = "handled io 0 (plan_evictions pln)"
  note wf = planned_wf [OF assms(1,4)]
  obtain ys where ys: "?evs = ?r @ ys"
  proof -
    have "\<exists>ys. evs = handled io i evs @ ys" for i evs
      by (induction evs arbitrary: i) auto
    then show ?thesis using that by blast
  qed
  have "distinct (map (\<lambda>ev. visitKey (ev_pod ev)) ?evs)" by (rule Plan_distinct [OF assms(1) wf assms(5)])
  then have "distinct (map (\<lambda>ev. pod_key (ev_pod ev)) ?evs)"
    by (auto simp: distinct_map inj_on_def pod_key_def visitKey_def)
  then have "distinct (map (\<lambda>ev. pod_key (ev_pod ev)) ?r)"
    using arg_cong [OF ys, of "map (\<lambda>ev. pod_key (ev_pod ev))"] by simp
  then have dist: "distinct (map (\<lambda>ev. pod_key (ev_pod ev)) (filter attempted ?r))"
    by (rule distinct_map_filter)
  have "filter attempted ?r = filter (\<lambda>ev. pod_name (ev_pod ev) \<noteq> []) (filter ev_allowed ?r)"
    by (auto simp: attempted_def intro!: filter_cong)
  then have "length (filter attempted ?r) \<le> length (filter ev_allowed ?r)" by (simp only: length_filter_le)
  also have "\<dots> \<le> allowed_total ?evs"
    using arg_cong [OF ys, of "\<lambda>xs. length (filter ev_allowed xs)"] by (simp add: allowed_total_def)
  finally have "int (length (filter attempted ?r)) \<le> max 1 (maxEvictionsPerMinute (policy_spec pol))"
    using Plan_limit [OF assms(1) wf assms(5)] by linarith
  with spec dist calls show ?thesis by (simp add: run)
qed

text \<open>
  C18: the status of a live reconciliation. If an answer throttles, there is no status update and no
  error, only a new attempt after the interval of the plan; otherwise there is exactly one status
  update, which counts the planned and the accepted evictions, and its error is the error returned.
\<close>

theorem Reconcile_status:
  assumes "io_policy io = Inr pol" and "\<not> dryRun (policy_spec pol)"
    and "Snapshot E (0 # p) (io_reads io) pl = Inr snap"
    and "Plan E (1 # p) pl snap (policy_spec pol) = (pln, snap', pl1)"
  shows "let out = fst (Reconcile E p io pl); evs = plan_evictions pln in
      out_requeueAfter out = plan_requeueAfter pln
    \<and> (if \<exists>j < length evs. throttles io j (evs ! j)
       then patches (out_effects out) = [] \<and> out_error out = None
       else out_error out = io_patch io \<and> (\<exists>new. patches (out_effects out) = [new]
         \<and> policy_spec new = policy_spec pol
         \<and> observedGeneration (policy_status new) = policy_generation pol
         \<and> st_planned (status_plan (policy_status new)) = int (length evs)
         \<and> st_executed (status_plan (policy_status new))
             = int (length (accepted E (5 # p) 0 io (handled io 0 evs)))))"
proof -
  obtain out pl' where run: "Reconcile E p io pl = (out, pl')" by fastforce
  obtain fx executed throttled where exec: "execute_loop E (5 # p) 0 io (plan_evictions pln) (pl1, 0) = (fx, pl', executed, throttled)"
    and out: "out = (if throttled then \<lparr>out_effects = map Metric (publish E p snap' pln) @ fx,
               out_requeueAfter = plan_requeueAfter pln, out_error = None\<rparr>
             else (updateStatus E (4 # p) io pol pln executed (plan_requeueAfter pln))\<lparr>out_effects :=
               map Metric (publish E p snap' pln) @ fx
               @ out_effects (updateStatus E (4 # p) io pol pln executed (plan_requeueAfter pln))\<rparr>)"
    using run by (cases rule: Reconcile_cases) (use assms in auto)
  note spec = execute_loop_spec [OF exec, simplified]
  show ?thesis
  proof (cases throttled)
    case True
    with spec show ?thesis by (simp add: run out Let_def)
  next
    case False
    then have "\<not> (\<exists>j < length (plan_evictions pln). throttles io j (plan_evictions pln ! j))" using spec by blast
    with False spec show ?thesis by (simp add: run out Let_def updateStatus_def)
  qed
qed

text \<open>
  C29: the errors of a reconciliation. It has no effect exactly when reading the policy or building the
  snapshot fails, and then the planner keeps its state; it returns an error exactly when the policy
  cannot be read for another reason than being gone, when the snapshot fails (retried after a minute),
  or when the status patch fails in a run that no eviction throttled.
\<close>

theorem Reconcile_errors:
  assumes "Reconcile E p io pl = (out, pl')"
  shows "(out_effects out = [] \<longleftrightarrow> (\<exists>err. io_policy io = Inl err)
        \<or> (\<exists>pol err. io_policy io = Inr pol \<and> Snapshot E (0 # p) (io_reads io) pl = Inl err))
    \<and> (if out_effects out = [] then pl' = pl
       else out_error out = (if patches (out_effects out) = [] then None else io_patch io))
    \<and> (case io_policy io of Inl err \<Rightarrow> out_error out = (if isNotFound io err then None else Some err)
       | Inr pol \<Rightarrow> (case Snapshot E (0 # p) (io_reads io) pl of
           Inl err \<Rightarrow> out_error out = Some err \<and> out_requeueAfter out = 60 * 1000000000
         | Inr snap \<Rightarrow> out_effects out \<noteq> []))"
  using assms
proof (cases rule: Reconcile_cases)
  case (dry pol snap pln snap')
  then show ?thesis by (simp add: publish_def ObservePlan_def updateStatus_def)
next
  case (live pol snap pln snap' pl1 fx executed throttled)
  then show ?thesis
    using execute_loop_spec [OF live(5)] by (simp add: publish_def ObservePlan_def updateStatus_def)
qed (simp_all add: minute_def second_def)


subsection \<open>The example cluster, reconciled\<close>

definition example_policy :: policy where
  "example_policy = \<lparr>policy_name = ''default'', policy_generation = 7, policy_spec = example_spec,
     policy_status = \<lparr>observedGeneration = 0, status_plan = \<lparr>st_hotNodes = 0, st_coldNodes = 0, st_variance = Fin 0,
       st_planned = 0, st_executed = 0, st_lastExecution = None, st_dryRun = False, st_message = []\<rparr>\<rparr>\<rparr>"

definition example_cluster_reads :: cluster_reads where
  "example_cluster_reads = \<lparr>
     rd_nodeMetrics = Inr [(''busy'', zero_usage\<lparr>cpuCores := Fin (7 / 2), memoryBytes := 4096\<rparr>),
                           (''idle'', zero_usage\<lparr>cpuCores := Fin (1 / 2), memoryBytes := 1024\<rparr>)],
     rd_podMetrics = Inr [],
     rd_nodes = Inr [ns_object (example_node_state ''busy'' 0 0), ns_object (example_node_state ''idle'' 0 0)],
     rd_pods = Inr [ps_object example_mover], rd_pdbs = Inr [], rd_priorityClasses = Inr [],
     rd_slos = Inr [], rd_nodeClasses = Inr []\<rparr>"

definition example_io :: "err option \<Rightarrow> cluster_io" where
  "example_io answer = \<lparr>io_policy = Inr example_policy, io_reads = example_cluster_reads,
     io_evict = (\<lambda>i. answer), io_patch = None,
     isNotFound = (\<lambda>err. \<exists>m. err = ErrStatus ''NotFound'' 404 m),
     isTooManyRequests = (\<lambda>err. \<exists>m. err = ErrStatus ''TooManyRequests'' 429 m)\<rparr>"

lemma example_snapshot:
  "Snapshot (plain_env 0) p example_cluster_reads (New 0) = Inr example_cluster"
proof -
  have busy: "newNodeState [(''busy'', zero_usage\<lparr>cpuCores := Fin (7 / 2), memoryBytes := 4096\<rparr>),
        (''idle'', zero_usage\<lparr>cpuCores := Fin (1 / 2), memoryBytes := 1024\<rparr>)] (ns_object (example_node_state ''busy'' 0 0))
      = example_node_state ''busy'' (7 / 2) 4096"
    by (simp add: newNodeState_def usage_at_def example_node_state_def blank_defs)
  have idle: "newNodeState [(''busy'', zero_usage\<lparr>cpuCores := Fin (7 / 2), memoryBytes := 4096\<rparr>),
        (''idle'', zero_usage\<lparr>cpuCores := Fin (1 / 2), memoryBytes := 1024\<rparr>)] (ns_object (example_node_state ''idle'' 0 0))
      = example_node_state ''idle'' (1 / 2) 1024"
    by (simp add: newNodeState_def usage_at_def example_node_state_def blank_defs)
  have pod: "buildPodState (plain_env 0) q (ps_object example_mover) (usage_at [] k) None None = example_mover" for q k
    by (simp add: buildPodState_def example_mover_def blank_defs addResourceLists_def usage_at_def wf_map_def int_at_def)
  have classes: "assignClasses (plain_env 0) q i [] kvs nodes = fold (\<lambda>(k, ns). AList.update k ns) kvs nodes" for q i kvs nodes
  proof -
    have "go_range (plain_env 0) r ([] :: node_class gomap) = []" for r by simp
    then show ?thesis by (induction kvs arbitrary: i nodes) auto
  qed
  show ?thesis
    by (simp add: Snapshot_def example_cluster_reads_def Let_def busy idle pod classes lastEvicted_def New_def wf_map_def)
      (simp add: example_cluster_def blank_snapshot_def example_mover_def)
qed

lemma example_run:
  obtains pln snap' pl1 where "Plan (plain_env 0) (1 # p) (New 0) example_cluster (policy_spec example_policy) = (pln, snap', pl1)"
    and "plan_evictions pln = [example_eviction\<lparr>ev_allowed := True\<rparr>]" and "plan_requeueAfter pln = 30 * second"
  using example_plan [of "1 # p"] by (fastforce simp: example_policy_def)

lemma example_io_sel [simp]:
  "io_policy (example_io a) = Inr example_policy" "io_reads (example_io a) = example_cluster_reads"
  "io_evict (example_io a) i = a" "io_patch (example_io a) = None"
  "isTooManyRequests (example_io a) e \<longleftrightarrow> (\<exists>m. e = ErrStatus ''TooManyRequests'' 429 m)"
  by (simp_all add: example_io_def)

lemma example_live [simp]: "\<not> dryRun (policy_spec example_policy)"
  by (simp add: example_policy_def example_spec_def)

lemma example_eviction_sel [simp]:
  "pod_key (ev_pod example_eviction) = (''prod'', ''web'')" "pod_name (ev_pod example_eviction) = ''web''"
  by (simp_all add: example_eviction_def example_mover_def pod_key_def blank_pod_def)

theorem dry_run_evicts_nothing_witness:
  "evict_calls (out_effects (fst (Reconcile (plain_env 0) []
     (example_io None\<lparr>io_policy := Inr (example_policy\<lparr>policy_spec := example_spec\<lparr>dryRun := True\<rparr>\<rparr>)\<rparr>) (New 0)))) = []"
proof -
  let ?io = "example_io None\<lparr>io_policy := Inr (example_policy\<lparr>policy_spec := example_spec\<lparr>dryRun := True\<rparr>\<rparr>)\<rparr>"
  obtain out pl' where run: "Reconcile (plain_env 0) [] ?io (New 0) = (out, pl')" by fastforce
  show ?thesis
    using dry_run_evicts_nothing [OF go_runtime_plain_env _ _ run] by (simp add: run)
qed

theorem Reconcile_executes_witness:
  "evict_calls (out_effects (fst (Reconcile (plain_env 0) [] (example_io None) (New 0)))) = [(''prod'', ''web'')]"
proof -
  obtain pln snap' pl1 where plan: "Plan (plain_env 0) [1] (New 0) example_cluster (policy_spec example_policy) = (pln, snap', pl1)"
    and evs: "plan_evictions pln = [example_eviction\<lparr>ev_allowed := True\<rparr>]" by (rule example_run)
  have "handled (example_io None) 0 (plan_evictions pln) = plan_evictions pln"
    by (simp add: evs throttles_def Evict_def)
  then show ?thesis
    using Reconcile_executes [OF go_runtime_plain_env, of "example_io None" example_policy 0 "[]" "New 0" example_cluster pln snap' pl1]
      plan example_snapshot [of "[0]"]
    by (simp add: case_prod_beta Let_def evs attempted_def)
qed

theorem Reconcile_status_witness:
  "patches (out_effects (fst (Reconcile (plain_env 0) []
     (example_io (Some (ErrStatus ''TooManyRequests'' 429 ''budget''))) (New 0)))) = []"
proof -
  let ?io = "example_io (Some (ErrStatus ''TooManyRequests'' 429 ''budget''))"
  obtain pln snap' pl1 where plan: "Plan (plain_env 0) [1] (New 0) example_cluster (policy_spec example_policy) = (pln, snap', pl1)"
    and evs: "plan_evictions pln = [example_eviction\<lparr>ev_allowed := True\<rparr>]" by (rule example_run)
  have "\<exists>j < length (plan_evictions pln). throttles ?io j (plan_evictions pln ! j)"
    by (simp add: evs throttles_def Evict_def)
  then show ?thesis
    using Reconcile_status [of ?io example_policy "plain_env 0" "[]" "New 0" example_cluster pln snap' pl1]
      plan example_snapshot [of "[0]"]
    by (simp add: Let_def)
qed

theorem Reconcile_errors_witness:
  "out_error (fst (Reconcile (plain_env 0) []
     (example_io None\<lparr>io_policy := Inl (ErrStatus ''NotFound'' 404 ''gone'')\<rparr>) (New 0))) = None"
proof -
  let ?io = "example_io None\<lparr>io_policy := Inl (ErrStatus ''NotFound'' 404 ''gone'')\<rparr>"
  obtain out pl' where run: "Reconcile (plain_env 0) [] ?io (New 0) = (out, pl')" by fastforce
  have "isNotFound ?io (ErrStatus ''NotFound'' 404 ''gone'')" by (simp add: example_io_def)
  with Reconcile_errors [OF run] show ?thesis by (simp add: run)
qed

subsection \<open>Any number of reconciliations\<close>

lemma Plan_origin:
  assumes env: "go_runtime E" and wf: "wf_nodes (snap_nodes snap)"
    and run: "Plan E p pl snap spec = (pln, snap', pl')" and ev: "ev \<in> set (plan_evictions pln)"
  shows "\<exists>i < length (snap_pods snap). ev_pod ev = ps_object (snap_pods snap ! i)
    \<and> \<not> hasBackoff (now_at E (1 # i # 2 # p)) (snap_pods snap ! i) (policy_backoff spec)"
proof -
  obtain nodes hot cold util where cls: "classifyNodes E (0 # p) (snap_nodes snap)
      (defaultWeights (resourceWeights spec)) spec = (nodes, hot, cold, util)" by (metis prod_cases4)
  from run cls show ?thesis
  proof (cases rule: Plan_cases)
    case (busy snap2 cands chosen evs pl1 counts left budgets)
    have wf2: "wf_nodes (snap_nodes snap2)" "wf_map util"
      using classifyNodes_facts(6) [OF env wf cls] busy(3) by (auto simp: filterCandidates_eq)
    note gp = greedyPlan_inv [OF env wf2, of cold cands "3 # p" spec, unfolded busy(4) fst_conv]
    have marks: "map unmarked evs = map unmarked chosen"
      by (rule grantBudgets_frame [OF busy(5), THEN conjunct1]) (use gp in \<open>auto simp: list_all_iff planned_move_def\<close>)
    have "unmarked ev \<in> unmarked ` set evs" using ev busy(7) by simp
    then have "unmarked ev \<in> unmarked ` set chosen" using marks by (metis image_set)
    then obtain ev' where ev': "ev' \<in> set chosen" "unmarked ev = unmarked ev'" by blast
    then have "ev_pod ev = ev_pod ev'" by (intro unmarked_eqD(2))
    with gp ev'(1) obtain c where c: "c \<in> set cands" "ev_pod ev = ps_object c"
      by (auto simp: list_all_iff planned_move_def)
    then have "c \<in> set (snd (filterCandidates E (2 # p) pl (snap\<lparr>snap_nodes := nodes\<rparr>) spec hot))" using busy(3) by simp
    then obtain i where "i < length (snap_pods snap)" "c = mark_pod (snap_pods snap ! i)"
      and kept: "kept E (2 # p) pl (snap\<lparr>snap_nodes := nodes\<rparr>) spec hot i (snap_pods snap ! i)"
      using candidate_kept [OF env] by fastforce
    with c(2) kept_movable(2) [OF kept] show ?thesis by auto
  qed (use ev in simp)
qed

lemma lastEvicted_prunes: "prunes_to pl pl' \<Longrightarrow> lastEvicted pl' k = lastEvicted pl k"
proof -
  assume "prunes_to pl pl'"
  then obtain es where es: "\<forall>e\<in>set es. \<exists>t ns. e = Pruned t ns"
    and pl': "pl' = fold (apply_event RecordEviction storePruned) es pl" by (auto simp: prunes_to_def prunes_at_def)
  have "log_last es k = None" using es by (induction es) auto
  then show ?thesis by (simp add: pl' planner_log.last_run)
qed

text \<open>The last time a pod occurs in a list of recorded evictions.\<close>

definition last_time :: "(gotime \<times> nsname) list \<Rightarrow> nsname \<Rightarrow> gotime option" where
  "last_time recs k = map_of (rev (map prod.swap recs)) k"

lemma last_time_simps [simp]:
  "last_time [] k = None"
  "last_time (recs @ recs') k = (case last_time recs' k of None \<Rightarrow> last_time recs k | Some t \<Rightarrow> Some t)"
  by (simp_all add: last_time_def map_add_def split: option.split)

lemma last_time_mem: "last_time recs k = Some t \<Longrightarrow> (t, k) \<in> set recs"
  by (auto simp: last_time_def dest: map_of_SomeD)

lemma lastEvicted_record_all:
  "lastEvicted (record_all recs pl) k = (case last_time recs k of None \<Rightarrow> lastEvicted pl k | Some t \<Rightarrow> Some t)"
proof (induction recs rule: rev_induct)
  case (snoc r recs)
  obtain t j where r: "r = (t, j)" by (cases r)
  have "record_all (recs @ [r]) pl = RecordEviction t j (record_all recs pl)" by (simp add: record_all_def r)
  with snoc show ?case by (simp add: planner_log.last_rec r last_time_def)
qed simp

text \<open>
  What a reconciliation records: nothing unless it is live, and then the accepted evictions it reached.
\<close>

definition recorded_by :: "'z kube_env_scheme \<Rightarrow> pos \<Rightarrow> cluster_io \<Rightarrow> planner \<Rightarrow> (gotime \<times> nsname) list" where
  "recorded_by E p io pl = (case io_policy io of
     Inl err \<Rightarrow> []
   | Inr pol \<Rightarrow> (case Snapshot E (0 # p) (io_reads io) pl of
       Inl err \<Rightarrow> []
     | Inr snap \<Rightarrow> if dryRun (policy_spec pol) then []
         else accepted E (5 # p) 0 io (handled io 0 (plan_evictions (fst (Plan E (1 # p) pl snap (policy_spec pol)))))))"

lemma Reconcile_records_at:
  assumes "go_runtime E" and "Reconcile E p io pl = (out, pl')"
  shows "\<exists>pl1. prunes_at (range (now_at E)) pl pl1 \<and> pl' = record_all (recorded_by E p io pl) pl1"
  using assms(2)
proof (cases rule: Reconcile_cases)
  case (dry pol snap pln snap')
  then show ?thesis
    using Plan_prunes_at [OF assms(1) planned_wf [OF assms(1) dry(2)] dry(3)] by (auto simp: recorded_by_def)
next
  case (live pol snap pln snap' pl1 fx executed throttled)
  have "pl' = record_all (recorded_by E p io pl) pl1"
    using execute_loop_spec [OF live(5)] live(1-4) by (simp add: recorded_by_def)
  then show ?thesis using Plan_prunes_at [OF assms(1) planned_wf [OF assms(1) live(2)] live(3)] by blast
qed (auto simp: recorded_by_def intro: prunes_at_refl)

lemma Reconcile_records:
  assumes "go_runtime E" and "Reconcile E p io pl = (out, pl')"
  shows "\<exists>pl1. prunes_to pl pl1 \<and> pl' = record_all (recorded_by E p io pl) pl1"
  using Reconcile_records_at [OF assms] prunes_at_weaken by blast

lemma accepted_mem:
  "(t, k) \<in> set (accepted E p i io evs) \<Longrightarrow>
   \<exists>j ev. ev \<in> set evs \<and> k = pod_key (ev_pod ev) \<and> t = now_at E (j # p)"
  by (induction evs arbitrary: i) (force split: if_splits)+

lemma accepted_keys: "subseq (map snd (accepted E p i io evs)) (map (\<lambda>ev. pod_key (ev_pod ev)) evs)"
  by (induction evs arbitrary: i) auto

text \<open>
  The operator over time: from a new planner, any number of reconciliations, each with its own runtime,
  answers and policy, whose back-off is at least \<open>B\<close>. Within a reconciliation the clock of the filter
  is not ahead of the clock of the executions. The list collects what was recorded.
\<close>

inductive operator_run :: "duration \<Rightarrow> planner \<Rightarrow> (gotime \<times> nsname) list \<Rightarrow> bool" for B where
  start: "operator_run B (New n) []"
| reconcile: "operator_run B pl recs \<Longrightarrow> go_runtime (E :: kube_env) \<Longrightarrow>
    (\<And>i j. now_at E (1 # i # 2 # 1 # p) \<le> now_at E (j # 5 # p)) \<Longrightarrow>
    (\<And>pol. io_policy io = Inr pol \<Longrightarrow> B \<le> policy_backoff (policy_spec pol) \<and> in_int64 (policy_backoff (policy_spec pol))) \<Longrightarrow>
    Reconcile E p io pl = (out, pl') \<Longrightarrow> operator_run B pl' (recs @ recorded_by E p io pl)"

definition spaced :: "duration \<Rightarrow> (gotime \<times> nsname) list \<Rightarrow> bool" where
  "spaced B recs \<longleftrightarrow> sorted_wrt (\<lambda>(t, k) (u, j). k = j \<longrightarrow> B \<le> u - t) recs"

lemma spaced_last: "0 < B \<Longrightarrow> spaced B recs \<Longrightarrow> (t, k) \<in> set recs \<Longrightarrow> \<exists>u. last_time recs k = Some u \<and> t \<le> u"
proof (induction recs rule: rev_induct)
  case (snoc r recs)
  obtain u j where r: "r = (u, j)" by (cases r)
  show ?case
  proof (cases "j = k")
    case True
    then have "t \<le> u" using snoc.prems by (auto simp: r spaced_def sorted_wrt_append)
    then show ?thesis by (simp add: r True last_time_def)
  next
    case False
    then have "(t, k) \<in> set recs" "spaced B recs" using snoc.prems by (auto simp: r spaced_def sorted_wrt_append)
    with snoc.IH snoc.prems(1) False show ?thesis by (auto simp: r last_time_def)
  qed
qed simp

lemma distinct_subseq: "subseq xs ys \<Longrightarrow> distinct ys \<Longrightarrow> distinct xs"
  by (induction rule: list_emb.induct) (auto dest: list_emb_set)

lemma distinct_pairwise: "distinct (map f xs) \<Longrightarrow> sorted_wrt (\<lambda>a b. f a \<noteq> f b) xs"
  by (induction xs) (auto simp: image_iff)

lemma recorded_by_spaced:
  assumes env: "go_runtime E" and clock: "\<And>i j. now_at E (1 # i # 2 # 1 # p) \<le> now_at E (j # 5 # p)"
    and backoff: "\<And>pol. io_policy io = Inr pol \<Longrightarrow> B \<le> policy_backoff (policy_spec pol) \<and> in_int64 (policy_backoff (policy_spec pol))"
    and "0 < B"
  shows "distinct (map snd (recorded_by E p io pl))"
    and "(t, k) \<in> set (recorded_by E p io pl) \<Longrightarrow> lastEvicted pl k = Some u \<Longrightarrow> B \<le> t - u"
proof -
  have "distinct (map snd (recorded_by E p io pl))
    \<and> ((t, k) \<in> set (recorded_by E p io pl) \<longrightarrow> lastEvicted pl k = Some u \<longrightarrow> B \<le> t - u)"
  proof (cases "\<exists>pol snap. io_policy io = Inr pol \<and> Snapshot E (0 # p) (io_reads io) pl = Inr snap \<and> \<not> dryRun (policy_spec pol)")
    case False
    then have "recorded_by E p io pl = []" by (auto simp: recorded_by_def split: sum.splits)
    then show ?thesis by simp
  next
    case True
    then obtain pol snap where pol: "io_policy io = Inr pol" and snap: "Snapshot E (0 # p) (io_reads io) pl = Inr snap"
      and dry: "\<not> dryRun (policy_spec pol)" by blast
    note wf = planned_wf [OF env snap]
    obtain pln snap' pl1 where plan: "Plan E (1 # p) pl snap (policy_spec pol) = (pln, snap', pl1)" by (metis prod_cases3)
    let ?evs = "plan_evictions pln" and ?r = "handled io 0 (plan_evictions pln)"
    have rec: "recorded_by E p io pl = accepted E (5 # p) 0 io ?r" using pol snap plan dry by (simp add: recorded_by_def)
    have "distinct (map (\<lambda>ev. visitKey (ev_pod ev)) ?evs)" by (rule Plan_distinct [OF env wf plan])
    then have "distinct (map (\<lambda>ev. pod_key (ev_pod ev)) ?evs)"
      by (auto simp: distinct_map inj_on_def pod_key_def visitKey_def)
    moreover have "subseq (handled io i evs) evs" for i evs by (induction evs arbitrary: i) auto
    then have "subseq (map (\<lambda>ev. pod_key (ev_pod ev)) ?r) (map (\<lambda>ev. pod_key (ev_pod ev)) ?evs)" by (rule subseq_map)
    then have "subseq (map snd (recorded_by E p io pl)) (map (\<lambda>ev. pod_key (ev_pod ev)) ?evs)"
      unfolding rec by (rule subseq_order.order_trans [OF accepted_keys])
    ultimately have "distinct (map snd (recorded_by E p io pl))" by (blast intro: distinct_subseq)
    moreover have "B \<le> t - u" if mem: "(t, k) \<in> set (recorded_by E p io pl)" and last: "lastEvicted pl k = Some u"
    proof -
      from mem obtain j ev where ev: "ev \<in> set ?r" "k = pod_key (ev_pod ev)" "t = now_at E (j # 5 # p)"
        unfolding rec using accepted_mem by metis
      then have "ev \<in> set ?evs" using handled_subset by blast
      from Plan_origin [OF env wf plan this] obtain i where i: "i < length (snap_pods snap)"
        "ev_pod ev = ps_object (snap_pods snap ! i)"
        "\<not> hasBackoff (now_at E (1 # i # 2 # 1 # p)) (snap_pods snap ! i) (policy_backoff (policy_spec pol))" by blast
      have "ps_lastEvicted (snap_pods snap ! i) = Some u"
        using snapshot_pod_lastEvicted [OF snap] i(1,2) ev(2) last by (metis nth_mem)
      moreover have "0 < policy_backoff (policy_spec pol)" using backoff [OF pol] \<open>0 < B\<close> by linarith
      ultimately have "policy_backoff (policy_spec pol) \<le> now_at E (1 # i # 2 # 1 # p) - u"
        using i(3) hasBackoff_iff [of "policy_backoff (policy_spec pol)"] backoff [OF pol] by auto
      then show ?thesis using clock [of i j] backoff [OF pol] ev(3) by linarith
    qed
    ultimately show ?thesis by blast
  qed
  then show "distinct (map snd (recorded_by E p io pl))"
    and "(t, k) \<in> set (recorded_by E p io pl) \<Longrightarrow> lastEvicted pl k = Some u \<Longrightarrow> B \<le> t - u" by blast+
qed

lemma operator_run_inv:
  "operator_run B pl recs \<Longrightarrow> 0 < B \<Longrightarrow> spaced B recs \<and> (\<forall>k. lastEvicted pl k = last_time recs k)"
proof (induction rule: operator_run.induct)
  case (start n)
  then show ?case by (simp add: spaced_def)
next
  case (reconcile pl recs E p io out pl')
  let ?new = "recorded_by E p io pl"
  have sp: "spaced B recs" and last: "\<And>k. lastEvicted pl k = last_time recs k"
    using reconcile.IH reconcile.prems by blast+
  note new = recorded_by_spaced [OF reconcile.hyps(2,3,4) reconcile.prems]
  obtain pl1 where pl1: "prunes_to pl pl1" "pl' = record_all ?new pl1"
    using Reconcile_records [OF reconcile.hyps(2,5)] by blast
  have "spaced B (recs @ ?new)"
    unfolding spaced_def sorted_wrt_append
  proof (intro conjI ballI)
    show "sorted_wrt (\<lambda>(t, k) (u, j). k = j \<longrightarrow> B \<le> u - t) recs" using sp by (simp add: spaced_def)
    have "sorted_wrt (\<lambda>a b. snd a \<noteq> snd b) ?new"
      using new(1) by (rule distinct_pairwise)
    then show "sorted_wrt (\<lambda>(t, k) (u, j). k = j \<longrightarrow> B \<le> u - t) ?new"
      by (rule sorted_wrt_mono_rel [rotated]) auto
    fix x y assume x: "x \<in> set recs" and y: "y \<in> set ?new"
    obtain t k where xt: "x = (t, k)" by (cases x)
    obtain u j where yu: "y = (u, j)" by (cases y)
    have "B \<le> u - t" if "k = j"
    proof -
      obtain v where v: "last_time recs k = Some v" "t \<le> v"
        using spaced_last [OF reconcile.prems sp] x xt by blast
      have "B \<le> u - v" using new(2) y yu that v(1) last by auto
      with v(2) show ?thesis by linarith
    qed
    then show "(case x of (t, k) \<Rightarrow> \<lambda>(u, j). k = j \<longrightarrow> B \<le> u - t) y" by (simp add: xt yu)
  qed
  moreover have "lastEvicted pl' k = last_time (recs @ ?new) k" for k
    using lastEvicted_prunes [OF pl1(1)] last by (simp add: pl1(2) lastEvicted_record_all split: option.split)
  ultimately show ?case by blast
qed

text \<open>
  C3: the back-off of the operator as a whole. However many reconciliations run, whatever the cluster
  answers in each, two evictions of a pod of the same namespace and name are at least the back-off
  apart, provided every policy asks for at least that back-off.
\<close>

theorem backoff_between_evictions:
  assumes "operator_run B pl recs" and "0 < B"
  shows "sorted_wrt (\<lambda>(t, k) (u, j). k = j \<longrightarrow> B \<le> u - t) recs
    \<and> (\<forall>k. lastEvicted pl k = last_time recs k)"
  using operator_run_inv [OF assms] by (simp add: spaced_def)

theorem backoff_between_evictions_witness:
  "\<exists>pl. operator_run (15 * minute) pl [(0, (''prod'', ''web''))] \<and> lastEvicted pl (''prod'', ''web'') = Some 0"
proof -
  obtain pln snap' pl1 where plan: "Plan (plain_env 0) [1] (New 0) example_cluster (policy_spec example_policy) = (pln, snap', pl1)"
    and evs: "plan_evictions pln = [example_eviction\<lparr>ev_allowed := True\<rparr>]" by (rule example_run)
  obtain out pl' where run: "Reconcile (plain_env 0) [] (example_io None) (New 0) = (out, pl')" by fastforce
  have rec: "recorded_by (plain_env 0) [] (example_io None) (New 0) = [(0, (''prod'', ''web''))]"
    using plan by (simp add: recorded_by_def example_snapshot evs throttles_def Evict_def attempted_def)
  have backoff: "policy_backoff (policy_spec example_policy) = 15 * minute"
    by (simp add: policy_backoff_def example_policy_def example_spec_def defaultBackoff_def)
  have "operator_run (15 * minute) pl' ([] @ recorded_by (plain_env 0) [] (example_io None) (New 0))"
    by (rule operator_run.reconcile [OF operator_run.start go_runtime_plain_env _ _ run])
       (auto simp: backoff in_int64_def duration_defs)
  then have op: "operator_run (15 * minute) pl' [(0, (''prod'', ''web''))]" by (simp add: rec)
  then have "lastEvicted pl' (''prod'', ''web'') = last_time [(0, (''prod'', ''web''))] (''prod'', ''web'')"
    using backoff_between_evictions [OF op] by (simp add: minute_def second_def)
  with op show ?thesis by (auto simp: last_time_def)
qed

subsection \<open>Metrics\<close>

text \<open>
  C30: every metric a reconciliation touches is one the recorder has registered, as a gauge where it is
  set and as a counter where it is incremented, with one value for each of its labels.
\<close>

theorem Reconcile_metrics_typed:
  "list_all (\<lambda>e. case e of Metric m \<Rightarrow> well_typed_call m | _ \<Rightarrow> True)
     (out_effects (fst (Reconcile E p io pl)))"
proof -
  define typed where "typed = (\<lambda>e. case e of Metric m \<Rightarrow> well_typed_call m | _ \<Rightarrow> True)"
  have [simp]: "typed (Metric m) = well_typed_call m" "typed (KubeEvent a b c)" "typed (EvictCall k g)" "typed (PatchStatus old new)"
    for m a b c k g old new by (simp_all add: typed_def)
  have [simp]: "list_all typed (map Metric ms) = list_all well_typed_call ms" for ms by (simp add: list_all_iff)
  have [simp]: "typed (dryRunEvent ev)" "typed (failedEvent ev err)" "typed (evictedEvent ev)" for ev err
    by (simp_all add: dryRunEvent_def failedEvent_def evictedEvent_def)
  have [simp]: "list_all well_typed_call (recordBudgets kvs)" for kvs
    by (induction kvs rule: recordBudgets.induct) simp_all
  have [simp]: "list_all well_typed_call (publish E p snap pln)" for snap pln by (simp add: publish_def)
  have [simp]: "list_all typed (dryRun_loop evs)" for evs by (induction evs) simp_all
  have [simp]: "list_all typed (out_effects (updateStatus E q io pol pln n d))" for q pol pln n d
    by (simp add: updateStatus_def)
  have exec: "list_all typed (fst (execute_loop E q i io evs st))" for q i evs st
  proof (induction evs arbitrary: i st)
    case (Cons ev evs)
    obtain pl n where st: "st = (pl, n)" by (cases st)
    have "list_all typed (fst (Evict r ev))" for r by (simp add: Evict_def)
    with Cons show ?case
      by (auto simp: st split: prod.split option.split) (metis fst_conv)+
  next
    case Nil
    show ?case by (cases st) simp
  qed
  obtain out pl' where run: "Reconcile E p io pl = (out, pl')" by fastforce
  then have "list_all typed (out_effects out)"
  proof (cases rule: Reconcile_cases)
    case (live pol snap pln snap' pl1 fx executed throttled)
    with exec [of "5 # p" 0 "plan_evictions pln" "(pl1, 0)"] show ?thesis by simp
  qed simp_all
  then show ?thesis by (simp add: run typed_def)
qed

end
