(* ===== verification/OperatorLog.thy ===== *)
theory OperatorLog
  imports Reconcile
begin

text \<open>
  The histories of the planner over the life of the operator. What the planner keeps is pruned again and
  again, by the budgets of plans and by recording; the lemmas show that after any number of
  reconciliations it still answers like the full list of the evictions ever recorded.
\<close>

text \<open>
  Any number of reconciliations from a new planner, with any runtimes, answers and policies, whose clock
  readings are not after \<open>T\<close>; the list collects what was recorded.
\<close>

inductive timed_run :: "gotime \<Rightarrow> planner \<Rightarrow> (gotime \<times> nsname) list \<Rightarrow> bool" for T where
  start: "timed_run T (New n) []"
| reconcile: "timed_run T pl recs \<Longrightarrow> go_runtime (E :: kube_env) \<Longrightarrow> (\<And>q. now_at E q \<le> T) \<Longrightarrow>
    Reconcile E p io pl = (out, pl') \<Longrightarrow> timed_run T pl' (recs @ recorded_by E p io pl)"

fun recording :: "log_event \<Rightarrow> (gotime \<times> nsname) list" where
  "recording (Recorded t k) = [(t, k)]"
| "recording (Pruned t ns) = []"

definition recordings :: "log_event list \<Rightarrow> (gotime \<times> nsname) list" where
  "recordings es = concat (map recording es)"

lemma recordings_simps [simp]:
  "recordings [] = []" "recordings (e # es) = recording e @ recordings es" "recordings (es @ es') = recordings es @ recordings es'"
  by (simp_all add: recordings_def)

lemma log_last_recordings: "log_last es k = last_time (recordings es) k"
proof (induction es)
  case (Cons e es)
  have first: "last_time ((t, j) # recs) k = (case last_time recs k of None \<Rightarrow> if j = k then Some t else None | Some u \<Rightarrow> Some u)"
    for t j recs by (simp add: last_time_def map_add_def split: option.split)
  show ?case by (cases e) (simp_all add: Cons first split: option.split)
qed simp

definition evicted_since :: "gotime \<Rightarrow> string \<Rightarrow> (gotime \<times> nsname) list \<Rightarrow> nat" where
  "evicted_since t ns recs = length (filter (\<lambda>(u, k). fst k = ns \<and> t < u) recs)"

lemma log_recent_recordings: "log_recent es ns now = evicted_since (now - hour) ns (recordings es)"
proof (induction es)
  case (Cons e es)
  then show ?case by (cases e) (auto simp: log_recent_def evicted_since_def)
qed (simp add: log_recent_def evicted_since_def)

lemma record_all_events:
  "record_all recs pl = fold (apply_event RecordEviction storePruned) (map (\<lambda>(t, k). Recorded t k) recs) pl"
  by (induction recs arbitrary: pl) auto

lemma recordings_recorded: "recordings (map (\<lambda>(t, k). Recorded t k) recs) = recs"
  by (induction recs) auto

lemma recorded_by_times: "(t, k) \<in> set (recorded_by E p io pl) \<Longrightarrow> \<exists>q. t = now_at E q"
  by (auto simp: recorded_by_def split: sum.splits if_splits dest!: accepted_mem)

text \<open>The invariant: the planner is the replay of a log whose recordings are the list.\<close>

lemma timed_run_log:
  "timed_run T pl recs \<Longrightarrow>
   \<exists>n es. pl = fold (apply_event RecordEviction storePruned) es (New n) \<and> events_until T es \<and> recordings es = recs"
proof (induction rule: timed_run.induct)
  case (start n)
  show ?case by (rule exI [of _ n], rule exI [of _ "[]"]) (simp add: events_until_def)
next
  case (reconcile pl recs E p io out pl')
  let ?new = "recorded_by E p io pl" and ?replay = "fold (apply_event RecordEviction storePruned)"
  from reconcile.IH obtain n es where es: "pl = ?replay es (New n)" "events_until T es" "recordings es = recs" by blast
  obtain pl1 where pl1: "prunes_at (range (now_at E)) pl pl1" "pl' = record_all ?new pl1"
    using Reconcile_records_at [OF reconcile.hyps(2,4)] by blast
  then obtain ps where ps: "\<forall>e\<in>set ps. \<exists>t ns. t \<in> range (now_at E) \<and> e = Pruned t ns" "pl1 = ?replay ps pl"
    by (auto simp: prunes_at_def)
  let ?log = "es @ ps @ map (\<lambda>(t, k). Recorded t k) ?new"
  have replay: "pl' = ?replay ?log (New n)" by (simp add: pl1(2) ps(2) es(1) record_all_events)
  have "events_until T ps" using ps(1) reconcile.hyps(3) by (fastforce simp: events_until_def)
  moreover have "event_time (case r of (t, k) \<Rightarrow> Recorded t k) \<le> T" if "r \<in> set ?new" for r
    using recorded_by_times [of "fst r" "snd r" E p io pl] that reconcile.hyps(3) by (cases r) auto
  ultimately have "events_until T ?log" using es(2) by (simp add: events_until_def ball_Un)
  moreover have "recordings ps = []" using ps(1) by (induction ps) auto
  then have "recordings ?log = recs @ ?new" by (simp add: es(3) recordings_recorded)
  ultimately show ?case using replay by blast
qed

lemma recent_timed_run:
  assumes "timed_run T pl recs" and "T \<le> now"
  shows "recentEvictions pl ns now = evicted_since (now - hour) ns recs"
proof -
  from timed_run_log [OF assms(1)] obtain n es where
    es: "pl = fold (apply_event RecordEviction storePruned) es (New n)" "events_until T es" "recordings es = recs" by blast
  have "events_until now es" using es(2) assms(2) by (auto simp: events_until_def)
  then show ?thesis by (simp add: es(1,3) recent_events_until log_recent_recordings)
qed

text \<open>
  C10: the operator remembers what it must. After any number of reconciliations, and at any time that is
  not before them, the last eviction of a pod and the number of evictions of a namespace in the last
  hour are those of the full list of recorded evictions; so the gate of a namespace opens exactly when
  its cap in the plan is off or not reached and, if an objective caps it by the hour, fewer of all the
  evictions ever recorded fall in the last hour.
\<close>

theorem operator_refines_record:
  assumes "timed_run T pl recs" and "T \<le> now"
  shows "lastEvicted pl k = last_time recs k \<and> recentEvictions pl ns now = evicted_since (now - hour) ns recs
    \<and> (fst (canDisruptNamespace now ns spec slo c pl) \<longleftrightarrow>
         (maxEvictionsPerNamespace spec \<le> 0 \<or> c < maxEvictionsPerNamespace spec)
         \<and> (case slo of None \<Rightarrow> True | Some s \<Rightarrow> maxDisruptionsPerHour s = 0
              \<or> int (evicted_since (now - hour) ns recs) < maxDisruptionsPerHour s))"
proof -
  from timed_run_log [OF assms(1)] obtain n es where
    es: "pl = fold (apply_event RecordEviction storePruned) es (New n)" "events_until T es" "recordings es = recs" by blast
  note recent = recent_timed_run [OF assms]
  have "lastEvicted pl k = last_time recs k"
    by (simp add: es(1) planner_log.last_run log_last_recordings es(3) split: option.split)
  with recent show ?thesis by (auto simp: fst_canDisruptNamespace split: option.splits)
qed

lemma example_recorded: "recorded_by (plain_env 0) [] (example_io None) (New 0) = [(0, (''prod'', ''web''))]"
proof -
  obtain pln snap' pl1 where plan: "Plan (plain_env 0) [1] (New 0) example_cluster (policy_spec example_policy) = (pln, snap', pl1)"
    and evs: "plan_evictions pln = [example_eviction\<lparr>ev_allowed := True\<rparr>]" by (rule example_run)
  from plan show ?thesis
    by (simp add: recorded_by_def example_snapshot evs throttles_def Evict_def attempted_def)
qed

theorem operator_refines_record_witness:
  "\<exists>pl. timed_run 0 pl [(0, (''prod'', ''web''))]
     \<and> \<not> fst (canDisruptNamespace (30 * minute) ''prod'' example_spec (Some example_slo) 0 pl)"
proof -
  obtain out pl' where run: "Reconcile (plain_env 0) [] (example_io None) (New 0) = (out, pl')" by fastforce
  have "timed_run 0 pl' ([] @ recorded_by (plain_env 0) [] (example_io None) (New 0))"
    by (rule timed_run.reconcile [OF timed_run.start go_runtime_plain_env _ run]) simp
  then have op: "timed_run 0 pl' [(0, (''prod'', ''web''))]" by (simp add: example_recorded)
  have "0 \<le> 30 * minute" by (simp add: duration_defs)
  from operator_refines_record [OF op this, of "(''prod'', ''web'')" "''prod''" example_spec "Some example_slo" 0]
  have "\<not> fst (canDisruptNamespace (30 * minute) ''prod'' example_spec (Some example_slo) 0 pl')"
    by (simp add: example_slo_def evicted_since_def duration_defs)
  with op show ?thesis by blast
qed

end
