(* ===== verification/Disruptions.thy ===== *)
theory Disruptions
  imports OperatorLog
begin

text \<open>
  What the hourly cap of a workload objective amounts to over the life of the operator. The gate compares
  the evictions on record with the cap, once for every eviction it is asked about, and none of the plan
  is on record while the plan is made. The lemmas follow one plan, then any number of reconciliations.
\<close>

subsection \<open>One plan\<close>

lemma recentEvictions_mono: "now \<le> hi \<Longrightarrow> recentEvictions pl ns hi \<le> recentEvictions pl ns now"
  unfolding recentEvictions_def by (rule length_filter_mono) simp

text \<open>An eviction was allowed, so the gate was open at some reading; pruning before it has not touched what counts.\<close>

lemma grantBudgets_gate:
  assumes "grantBudgets E p i spec slos evs (pl, counts, remaining) = (out, st)"
    and "list_all (\<lambda>ev. \<not> ev_allowed ev) evs" and "0 < allowed_in out ns"
    and clock: "\<And>q. now_at E q \<le> hi" and slo: "map_of slos ns = Some s" "maxDisruptionsPerHour s \<noteq> 0"
  shows "int (recentEvictions pl ns hi) < maxDisruptionsPerHour s"
  using assms(1-3)
proof (induction evs arbitrary: i pl counts remaining out)
  case (Cons ev evs)
  from Cons.prems(1) show ?case
  proof (cases rule: grantBudgets_step)
    case (1 ok pl1 evs')
    have same: "recentEvictions pl1 ns hi = recentEvictions pl ns hi"
      using 1(2) planner_log.recent_prn [OF clock] by auto
    show ?thesis
    proof (cases "ok \<and> ev_namespace ev = ns")
      case True
      then have "int (recentEvictions pl ns (now_at E (i # p))) < maxDisruptionsPerHour s"
        using 1(1) slo by (auto simp: gate_def)
      then show ?thesis using recentEvictions_mono [OF clock, of pl ns "i # p"] by linarith
    next
      case False
      then have "0 < allowed_in evs' ns" using 1(3) Cons.prems(2,3) by (auto split: if_splits)
      with Cons.IH [OF 1(4)] Cons.prems(2) same show ?thesis by simp
    qed
  qed
qed simp

definition plan_cap :: "policy_spec \<Rightarrow> int" where
  "plan_cap spec = (if maxEvictionsPerNamespace spec > 0
     then min (maxEvictionsPerNamespace spec) (evictionLimit spec) else evictionLimit spec)"

lemma allowed_in_total: "allowed_in evs ns \<le> allowed_total evs"
  by (induction evs) auto

lemma Plan_allowed_in:
  assumes "go_runtime E" and "wf_nodes (snap_nodes snap)" and "Plan E p pl snap spec = (pln, snap', pl')"
  shows "int (allowed_in (plan_evictions pln) ns) \<le> plan_cap spec"
proof -
  have "evictionLimit spec = max 1 (maxEvictionsPerMinute spec)" by (auto simp: evictionLimit_def)
  moreover have "int (allowed_in (plan_evictions pln) ns) \<le> int (allowed_total (plan_evictions pln))"
    using allowed_in_total by simp
  ultimately show ?thesis using Plan_caps_facts [OF assms] by (auto simp: plan_cap_def)
qed

text \<open>What is recorded of a namespace was allowed in it.\<close>

definition recorded_in :: "string \<Rightarrow> (gotime \<times> nsname) list \<Rightarrow> nat" where
  "recorded_in ns recs = length (filter (\<lambda>(t, k). fst k = ns) recs)"

lemma recorded_in_accepted:
  "\<forall>ev\<in>set evs. ev_namespace ev = pod_namespace (ev_pod ev) \<Longrightarrow>
   recorded_in ns (accepted E p i io (handled io i evs)) \<le> allowed_in evs ns"
proof (induction evs arbitrary: i)
  case (Cons ev evs)
  then have "recorded_in ns (accepted E p (Suc i) io (handled io (Suc i) evs)) \<le> allowed_in evs ns" by simp
  with Cons.prems show ?case by (auto simp: recorded_in_def attempted_def pod_key_def)
qed (simp add: recorded_in_def)

subsection \<open>One reconciliation\<close>

definition hourly_cap :: "string \<Rightarrow> int \<Rightarrow> workload_slo list \<Rightarrow> bool" where
  "hourly_cap ns M slos \<longleftrightarrow> (\<exists>s\<in>set slos. slo_namespace s = ns) \<and>
     (\<forall>s\<in>set slos. slo_namespace s = ns \<longrightarrow> maxDisruptionsPerHour s \<noteq> 0 \<and> maxDisruptionsPerHour s \<le> M)"

lemma hourly_cap_slo:
  assumes "hourly_cap ns M ss"
  obtains s where "map_of (index_by slo_namespace id ss []) ns = Some s"
    and "maxDisruptionsPerHour s \<noteq> 0" and "maxDisruptionsPerHour s \<le> M"
proof -
  have "map_of (index_by slo_namespace id ss []) ns \<noteq> None"
    using assms by (force simp: map_of_index_by hourly_cap_def map_of_eq_None_iff split: option.split)
  then obtain s where s: "map_of (index_by slo_namespace id ss []) ns = Some s" by blast
  from map_of_index_by_SomeD [OF this] assms that [OF s] show ?thesis by (auto simp: hourly_cap_def)
qed

lemma Reconcile_recorded_in:
  assumes env: "go_runtime E" and clock: "\<And>q. now_at E q \<le> hi"
    and cap: "\<And>pol. io_policy io = Inr pol \<Longrightarrow> plan_cap (policy_spec pol) \<le> C"
    and slo: "\<And>ss. rd_slos (io_reads io) = Inr ss \<Longrightarrow> hourly_cap ns M ss"
    and some: "0 < recorded_in ns (recorded_by E p io pl)"
  shows "int (recentEvictions pl ns hi) < M" and "int (recorded_in ns (recorded_by E p io pl)) \<le> C"
proof -
  from some obtain pol where pol: "io_policy io = Inr pol"
    by (cases "io_policy io") (auto simp: recorded_by_def recorded_in_def)
  from some obtain snap where snap: "Snapshot E (0 # p) (io_reads io) pl = Inr snap"
    by (cases "Snapshot E (0 # p) (io_reads io) pl") (auto simp: recorded_by_def recorded_in_def pol)
  obtain pln snap' pl' where plan: "Plan E (1 # p) pl snap (policy_spec pol) = (pln, snap', pl')" by (metis prod_cases3)
  note wf = planned_wf [OF env snap]
  have rec: "recorded_by E p io pl = accepted E (5 # p) 0 io (handled io 0 (plan_evictions pln))"
    using some plan by (auto simp: recorded_by_def recorded_in_def pol snap split: if_splits)
  obtain nodes hot cold util where "classifyNodes E (0 # 1 # p) (snap_nodes snap)
      (defaultWeights (resourceWeights (policy_spec pol))) (policy_spec pol) = (nodes, hot, cold, util)" by (metis prod_cases4)
  from Plan_evictions_safe_facts [OF env wf this plan]
  have "\<forall>ev\<in>set (plan_evictions pln). ev_namespace ev = pod_namespace (ev_pod ev)"
    by (auto simp: list_all_iff safe_eviction_def)
  then have few: "recorded_in ns (recorded_by E p io pl) \<le> allowed_in (plan_evictions pln) ns"
    unfolding rec by (rule recorded_in_accepted)
  with Plan_allowed_in [OF env wf plan, of ns] cap [OF pol] show "int (recorded_in ns (recorded_by E p io pl)) \<le> C" by linarith
  from snap obtain ss where ss: "rd_slos (io_reads io) = Inr ss" and slos: "snap_slos snap = index_by slo_namespace id ss []"
    by (elim Snapshot_InrE) simp
  from slo [OF ss] obtain s where s: "map_of (snap_slos snap) ns = Some s" "maxDisruptionsPerHour s \<noteq> 0" "maxDisruptionsPerHour s \<le> M"
    unfolding slos by (rule hourly_cap_slo)
  from Plan_grants [OF env wf plan] obtain chosen pl1 counts left where
    "grantBudgets E (4 # 1 # p) 0 (policy_spec pol) (snap_slos snap) chosen (pl, [], evictionLimit (policy_spec pol))
      = (plan_evictions pln, pl1, counts, left)" "list_all (\<lambda>ev. \<not> ev_allowed ev) chosen" by blast
  from grantBudgets_gate [OF this _ clock s(1,2)] few some s(3) show "int (recentEvictions pl ns hi) < M" by linarith
qed

subsection \<open>Any number of reconciliations\<close>

text \<open>
  Reconciliations one after the other, each taking at most \<open>D\<close>, in a cluster where objectives cap the
  namespace by \<open>M\<close> an hour and every policy grants it at most \<open>C\<close> evictions in a plan.
\<close>

inductive capped_run :: "string \<Rightarrow> int \<Rightarrow> int \<Rightarrow> duration \<Rightarrow> gotime \<Rightarrow> planner \<Rightarrow> (gotime \<times> nsname) list \<Rightarrow> bool"
  for ns M C D where
  start: "capped_run ns M C D T (New n) []"
| reconcile: "capped_run ns M C D T pl recs \<Longrightarrow> go_runtime (E :: kube_env) \<Longrightarrow> T \<le> lo \<Longrightarrow>
    (\<And>q. lo \<le> now_at E q \<and> now_at E q \<le> lo + D) \<Longrightarrow>
    (\<And>pol. io_policy io = Inr pol \<Longrightarrow> plan_cap (policy_spec pol) \<le> C) \<Longrightarrow>
    (\<And>ss. rd_slos (io_reads io) = Inr ss \<Longrightarrow> hourly_cap ns M ss) \<Longrightarrow>
    Reconcile E p io pl = (out, pl') \<Longrightarrow> capped_run ns M C D (lo + D) pl' (recs @ recorded_by E p io pl)"

lemma timed_run_later: "timed_run T pl recs \<Longrightarrow> T \<le> T' \<Longrightarrow> timed_run T' pl recs"
proof (induction rule: timed_run.induct)
  case (reconcile pl recs E p io out pl')
  have "now_at E q \<le> T'" for q using reconcile.hyps(3) [of q] reconcile.prems by linarith
  with reconcile show ?case by (intro timed_run.reconcile) auto
qed (rule timed_run.start)

lemma capped_run_timed: "capped_run ns M C D T pl recs \<Longrightarrow> timed_run T pl recs"
proof (induction rule: capped_run.induct)
  case (reconcile T pl recs E lo io p out pl')
  have "lo \<le> lo + D" using reconcile.hyps(4) [of "[]"] by linarith
  with reconcile.hyps(3) have "timed_run (lo + D) pl recs" by (intro timed_run_later [OF reconcile.IH]) linarith
  then show ?case using reconcile.hyps(2,4,7) by (intro timed_run.reconcile) auto
qed (rule timed_run.start)

definition evicted_between :: "gotime \<Rightarrow> gotime \<Rightarrow> string \<Rightarrow> (gotime \<times> nsname) list \<Rightarrow> nat" where
  "evicted_between a b ns recs = length (filter (\<lambda>(t, k). fst k = ns \<and> a < t \<and> t \<le> b) recs)"

lemma evicted_between_append [simp]:
  "evicted_between a b ns (recs @ recs') = evicted_between a b ns recs + evicted_between a b ns recs'"
  by (simp add: evicted_between_def)

lemma evicted_between_bounds:
  "evicted_between a b ns recs \<le> recorded_in ns recs" "c \<le> a \<Longrightarrow> evicted_between a b ns recs \<le> evicted_since c ns recs"
  unfolding evicted_between_def recorded_in_def evicted_since_def by (rule length_filter_mono; auto)+

lemma evicted_between_pos: "0 < evicted_between a b ns recs \<Longrightarrow> \<exists>t k. (t, k) \<in> set recs \<and> a < t \<and> t \<le> b"
  unfolding evicted_between_def length_greater_0_conv filter_empty_conv by auto

text \<open>
  C4: what an hourly cap guarantees. In any number of reconciliations that take at most \<open>D\<close> each, with a
  cap of \<open>M\<close> disruptions an hour on a namespace and at most \<open>C\<close> evictions of it in a plan, no more than
  \<open>M - 1 + C\<close> of its pods are evicted in any hour less \<open>D\<close>: the plan that reaches the cap may overshoot it,
  and no later plan adds to it.
\<close>

theorem hourly_disruptions_bounded:
  assumes "capped_run ns M C D T pl recs" and "0 < M" and "0 \<le> C"
  shows "int (evicted_between a (a + hour - D) ns recs) \<le> M - 1 + C"
  using assms(1)
proof (induction rule: capped_run.induct)
  case (start T n)
  show ?case using assms(2,3) by (simp add: evicted_between_def)
next
  case (reconcile T pl recs E lo io p out pl')
  let ?new = "recorded_by E p io pl" and ?hi = "lo + D"
  let ?W = "evicted_between a (a + hour - D) ns"
  note clock = reconcile.hyps(4)
  show ?case
  proof (cases "?W ?new = 0")
    case True
    with reconcile.IH show ?thesis by simp
  next
    case False
    then obtain t k where "(t, k) \<in> set ?new" and late: "t \<le> a + hour - D" using evicted_between_pos [of a "a + hour - D" ns ?new] by auto
    then have "lo \<le> t" using recorded_by_times clock by metis
    have some: "0 < recorded_in ns ?new" using False evicted_between_bounds(1) [of a "a + hour - D" ns ?new] by linarith
    have hi: "now_at E q \<le> ?hi" for q using clock by simp
    note one = Reconcile_recorded_in [where C = C and M = M, OF reconcile.hyps(2) hi reconcile.hyps(5,6) some]
    have "T \<le> ?hi" using reconcile.hyps(3) clock [of "[]"] by linarith
    then have "recentEvictions pl ns ?hi = evicted_since (?hi - hour) ns recs"
      by (rule recent_timed_run [OF capped_run_timed [OF reconcile.hyps(1)]])
    moreover have "?W recs \<le> evicted_since (?hi - hour) ns recs"
      using late \<open>lo \<le> t\<close> by (intro evicted_between_bounds(2)) linarith
    ultimately have "int (?W recs) < M" using one(1) by linarith
    moreover have "int (?W ?new) \<le> C" using one(2) evicted_between_bounds(1) [of a "a + hour - D" ns ?new] by linarith
    ultimately show ?thesis by simp
  qed
qed

subsection \<open>The example cluster under an objective\<close>

text \<open>The example cluster with an objective that allows its namespace one disruption an hour.\<close>

definition capped_io :: cluster_io where
  "capped_io = example_io None\<lparr>io_reads := example_cluster_reads\<lparr>rd_slos := Inr [example_slo]\<rparr>\<rparr>"

definition capped_mover :: pod_state where
  "capped_mover = example_mover\<lparr>ps_slo := Some example_slo\<rparr>"

definition capped_cluster :: snapshot where
  "capped_cluster = example_cluster\<lparr>snap_pods := [capped_mover], snap_slos := [(''prod'', example_slo)]\<rparr>"

definition capped_hot_cold :: snapshot where
  "capped_hot_cold = capped_cluster\<lparr>snap_nodes := snap_nodes example_hot_cold\<rparr>"

definition capped_marked :: snapshot where
  "capped_marked = capped_hot_cold\<lparr>snap_pods := [mark_pod capped_mover]\<rparr>"

lemma capped_snapshot: "Snapshot (plain_env 0) p (io_reads capped_io) (New 0) = Inr capped_cluster"
proof -
  obtain nm pm ns ps cs ss pcs pds where rd: "rd_nodeMetrics example_cluster_reads = Inr nm" "rd_podMetrics example_cluster_reads = Inr pm"
      "rd_nodes example_cluster_reads = Inr ns" "rd_pods example_cluster_reads = Inr ps" "rd_nodeClasses example_cluster_reads = Inr cs"
      "rd_slos example_cluster_reads = Inr ss" "rd_priorityClasses example_cluster_reads = Inr pcs" "rd_pdbs example_cluster_reads = Inr pds"
    and snap: "example_cluster = \<lparr>snap_nodes = assignClasses (plain_env 0) (2 # p) 0 (index_by class_name id cs [])
         (go_range (plain_env 0) (1 # p) (index_by node_name (newNodeState nm) ns []))
         (index_by node_name (newNodeState nm) ns []),
       snap_pods = buildPods (plain_env 0) (0 # p) 0 (New 0) pm (index_by slo_namespace id ss []) ps,
       snap_pdbs = pds, snap_slos = index_by slo_namespace id ss [],
       snap_nodeClasses = index_by class_name id cs [], snap_priorityClasses = index_by pc_name id pcs []\<rparr>"
    using example_snapshot [of p] by (rule Snapshot_InrE)
  have lists: "pm = []" "ps = [ps_object example_mover]" using rd(2,4) by (simp_all add: example_cluster_reads_def)
  have pod: "buildPodState (plain_env 0) q (ps_object example_mover) (usage_at [] k) (Some example_slo) None = capped_mover" for q k
    by (simp add: buildPodState_def example_mover_def capped_mover_def blank_defs addResourceLists_def usage_at_def wf_map_def int_at_def)
  have pods: "buildPods (plain_env 0) q 0 (New 0) pm [(''prod'', example_slo)] ps = [capped_mover]" for q
    using pod by (simp add: lists lastEvicted_def New_def)
      (simp add: example_mover_def blank_pod_def)
  have slos: "slo_namespace example_slo = ''prod''" by (simp add: example_slo_def)
  show ?thesis
    unfolding capped_cluster_def snap
    by (simp add: capped_io_def Snapshot_def rd Let_def slos pods)
qed


lemma capped_filtered:
  "filterCandidates (plain_env t) p (New 0) capped_hot_cold example_spec [''busy''] = (capped_marked, [mark_pod capped_mover])"
proof -
  have pods: "snap_pods capped_hot_cold = [capped_mover]" by (simp add: capped_hot_cold_def capped_cluster_def)
  have same: "considerPod E lim capped_hot_cold spec hot rules sels d t1 t2 capped_mover
      = considerPod E lim example_hot_cold spec hot rules sels d t1 t2 example_mover" for E :: kube_env and lim spec hot rules sels d t1 t2
    by (simp add: considerPod_def Let_def capped_hot_cold_def capped_cluster_def capped_mover_def example_hot_cold_def
        example_cluster_def example_mover_def blank_pod_state_def isHighPriority_def hasBackoff_def example_slo_def)
  have "kept (plain_env t) p (New 0) example_hot_cold example_spec [''busy''] 0 example_mover"
    by (rule example_kept)
  then have "kept (plain_env t) p (New 0) capped_hot_cold example_spec [''busy''] 0 capped_mover"
    unfolding kept_def same .
  then show ?thesis
    by (simp add: filterCandidates_eq pods capped_marked_def sort_slice_def less_at_def insertion_order_def)
qed

lemma capped_same: "same_candidate capped_marked (mark_pod capped_mover) example_hot_cold example_mover"
  by (simp add: same_candidate_def capped_marked_def capped_hot_cold_def capped_cluster_def capped_mover_def example_hot_cold_def
      example_cluster_def)

lemma capped_plan:
  "plan_evictions (fst (Plan (plain_env 0) p (New 0) capped_cluster example_spec)) = [example_eviction\<lparr>ev_allowed := True\<rparr>]"
proof -
  let ?E = "plain_env 0"
  have snap: "capped_cluster\<lparr>snap_nodes := snap_nodes example_hot_cold\<rparr> = capped_hot_cold" by (simp add: capped_hot_cold_def)
  have cls: "classifyNodes ?E (0 # p) (snap_nodes capped_cluster) (defaultWeights (resourceWeights example_spec)) example_spec
      = (snap_nodes example_hot_cold, [''busy''], [''idle''], example_util)"
    by (simp add: capped_cluster_def example_nodes_classified)
  obtain snap3 where g: "greedyPlan ?E (3 # p) capped_marked [mark_pod capped_mover] example_spec [''idle''] example_util
      = ([example_eviction], snap3)"
    using example_planned_as [OF capped_same, of 0 "3 # p"] by (metis prod.collapse)
  have "wf_nodes (snap_nodes capped_marked)" using wf_example_hot_cold by (simp add: capped_marked_def capped_hot_cold_def)
  then have "usage_only capped_marked snap3"
    using greedyPlan_inv [OF go_runtime_plain_env [of 0], where snap = capped_marked and util = example_util and cold = "[''idle'']"
        and cands = "[mark_pod capped_mover]" and p = "3 # p" and spec = example_spec]
      wf_example_util by (simp add: g)
  then have slos: "snap_slos snap3 = [(''prod'', example_slo)]"
    by (simp add: usage_only_def capped_marked_def capped_hot_cold_def capped_cluster_def)
  show ?thesis
    unfolding Plan_def Let_def cls prod.case snap capped_filtered g
    by (simp add: slos evictionLimit_def example_spec_def example_eviction_def example_slo_def canDisruptNamespace_def New_def
        pruned_filter Let_def split: prod.split)
qed

lemma capped_recorded: "recorded_by (plain_env 0) [] capped_io (New 0) = [(0, (''prod'', ''web''))]"
proof -
  have live: "\<not> dryRun example_spec" by (simp add: example_spec_def)
  have io: "io_policy capped_io = Inr example_policy" "io_evict capped_io i = None" for i by (simp_all add: capped_io_def)
  show ?thesis
    using capped_plan [of "[1]"]
    by (simp add: recorded_by_def io capped_snapshot live example_policy_def throttles_def Evict_def attempted_def)
qed

theorem hourly_disruptions_bounded_witness:
  "\<exists>pl. capped_run ''prod'' 1 3 minute minute pl [(0, (''prod'', ''web''))]
     \<and> evicted_between (- 1) (59 * minute - 1) ''prod'' [(0, (''prod'', ''web''))] \<le> 3"
proof -
  obtain out pl' where run: "Reconcile (plain_env 0) [] capped_io (New 0) = (out, pl')" by fastforce
  have cap: "plan_cap (policy_spec example_policy) \<le> 3"
    by (simp add: plan_cap_def example_policy_def example_spec_def evictionLimit_def)
  have slo: "hourly_cap ''prod'' 1 [example_slo]" by (simp add: hourly_cap_def example_slo_def)
  have "capped_run ''prod'' 1 3 minute (0 + minute) pl' ([] @ recorded_by (plain_env 0) [] capped_io (New 0))"
    by (rule capped_run.reconcile [OF capped_run.start go_runtime_plain_env order_refl _ _ _ run])
       (use cap slo in \<open>auto simp: capped_io_def duration_defs\<close>)
  then have op: "capped_run ''prod'' 1 3 minute minute pl' [(0, (''prod'', ''web''))]" by (simp add: capped_recorded)
  from hourly_disruptions_bounded [OF op, of "- 1"]
  have "evicted_between (- 1) (59 * minute - 1) ''prod'' [(0, (''prod'', ''web''))] \<le> 3"
    by (simp add: duration_defs)
  with op show ?thesis by blast
qed

end
