(* ===== verification/GoJson.thy ===== *)
theory GoJson
  imports KubeTypes "HOL-Library.List_Lexorder" "HOL-Library.Char_ord"
begin

text \<open>
  \<open>encoding/json\<close> as the types of the program use it, on JSON values rather than on their text. An encoder
  gives the JSON of a value or the error of an unsupported one; a decoder gets the value the target has
  and gives the value it has afterwards: \<open>null\<close> leaves it as it is, and the members of an object that has
  no field of their name are skipped. A struct is the list of its fields with their tags.

  A number is kept with the kind of value it was printed from: an integer prints all its digits, a float
  the shortest decimal that reads back as the same float. Names are compared exactly, as the decoder of
  the Kubernetes client does. Strings are valid UTF-8.

  The locale \<open>json_codec\<close> is the contract of a type: what was encoded is decoded to the same value, up to
  what the encoding does not keep. Slices, pointers and structs keep it when their elements do.
\<close>

datatype json =
    JNull
  | JBool bool
  | JInt int
  | JFloat rat
  | JString string
  | JArray "json list"
  | JObject "(string \<times> json) list"

subsection \<open>Plain values\<close>

definition mismatch :: "err + 'a" where
  "mismatch = Inl (ErrNew ''json: cannot unmarshal'')"

definition enc_bool :: "bool \<Rightarrow> err + json" where "enc_bool b = Inr (JBool b)"
definition enc_int :: "int \<Rightarrow> err + json" where "enc_int n = Inr (JInt n)"
definition enc_string :: "string \<Rightarrow> err + json" where "enc_string s = Inr (JString s)"

definition unsupported_value :: "float64 \<Rightarrow> err" where
  "unsupported_value x = ErrNew (''json: unsupported value: ''
     @ (if x = NaN then ''NaN'' else if x = PInf then ''+Inf'' else ''-Inf''))"

fun enc_float :: "float64 \<Rightarrow> err + json" where
  "enc_float (Fin a) = Inr (JFloat a)"
| "enc_float x = Inl (unsupported_value x)"

fun dec_bool :: "json \<Rightarrow> bool \<Rightarrow> err + bool" where
  "dec_bool JNull old = Inr old"
| "dec_bool (JBool b) old = Inr b"
| "dec_bool j old = mismatch"

fun dec_string :: "json \<Rightarrow> string \<Rightarrow> err + string" where
  "dec_string JNull old = Inr old"
| "dec_string (JString s) old = Inr s"
| "dec_string j old = mismatch"

fun dec_int :: "(int \<Rightarrow> bool) \<Rightarrow> json \<Rightarrow> int \<Rightarrow> err + int" where
  "dec_int in_range JNull old = Inr old"
| "dec_int in_range (JInt n) old = (if in_range n then Inr n else mismatch)"
| "dec_int in_range (JFloat a) old = (if of_int \<lfloor>a\<rfloor> = a \<and> in_range \<lfloor>a\<rfloor> then Inr \<lfloor>a\<rfloor> else mismatch)"
| "dec_int in_range j old = mismatch"

fun dec_float :: "json \<Rightarrow> float64 \<Rightarrow> err + float64" where
  "dec_float JNull old = Inr old"
| "dec_float (JFloat a) old = Inr (Fin a)"
| "dec_float (JInt n) old = (case float_of_int n of Fin a \<Rightarrow> Inr (Fin a) | _ \<Rightarrow> mismatch)"
| "dec_float j old = mismatch"

subsection \<open>Slices, maps and pointers\<close>

fun enc_elems :: "('a \<Rightarrow> err + json) \<Rightarrow> 'a list \<Rightarrow> err + json list" where
  "enc_elems enc [] = Inr []"
| "enc_elems enc (x # xs) = attempt id (enc x) (\<lambda>j. attempt id (enc_elems enc xs) (\<lambda>js. Inr (j # js)))"

text \<open>A slice that is not nil.\<close>

definition enc_slice :: "('a \<Rightarrow> err + json) \<Rightarrow> 'a list \<Rightarrow> err + json" where
  "enc_slice enc xs = attempt id (enc_elems enc xs) (\<lambda>js. Inr (JArray js))"

fun dec_elems :: "(json \<Rightarrow> 'a \<Rightarrow> err + 'a) \<Rightarrow> 'a \<Rightarrow> json list \<Rightarrow> err + 'a list" where
  "dec_elems dec zero [] = Inr []"
| "dec_elems dec zero (j # js) = attempt id (dec j zero) (\<lambda>x. attempt id (dec_elems dec zero js) (\<lambda>xs. Inr (x # xs)))"

fun dec_slice :: "(json \<Rightarrow> 'a \<Rightarrow> err + 'a) \<Rightarrow> 'a \<Rightarrow> json \<Rightarrow> 'a list \<Rightarrow> err + 'a list" where
  "dec_slice dec zero JNull old = Inr []"
| "dec_slice dec zero (JArray js) old = dec_elems dec zero js"
| "dec_slice dec zero j old = mismatch"

definition enc_ptr :: "('a \<Rightarrow> err + json) \<Rightarrow> 'a option \<Rightarrow> err + json" where
  "enc_ptr enc p = (case p of None \<Rightarrow> Inr JNull | Some x \<Rightarrow> enc x)"

definition dec_ptr :: "(json \<Rightarrow> 'a \<Rightarrow> err + 'a) \<Rightarrow> 'a \<Rightarrow> json \<Rightarrow> 'a option \<Rightarrow> err + 'a option" where
  "dec_ptr dec zero j old = (if j = JNull then Inr None
     else attempt id (dec j (case old of None \<Rightarrow> zero | Some x \<Rightarrow> x)) (\<lambda>x. Inr (Some x)))"

text \<open>A map from strings to strings is encoded in the order of its keys.\<close>

definition sorted_map :: "labels \<Rightarrow> labels" where
  "sorted_map m = sort_key fst m"

definition enc_map :: "labels \<Rightarrow> err + json" where
  "enc_map m = Inr (JObject (map (\<lambda>(k, v). (k, JString v)) (sorted_map m)))"

fun dec_entries :: "(string \<times> json) list \<Rightarrow> labels \<Rightarrow> err + labels" where
  "dec_entries [] m = Inr m"
| "dec_entries ((k, j) # kvs) m = attempt id (dec_string j []) (\<lambda>v. dec_entries kvs (AList.update k v m))"

fun dec_map :: "json \<Rightarrow> labels \<Rightarrow> err + labels" where
  "dec_map JNull old = Inr []"
| "dec_map (JObject kvs) old = dec_entries kvs old"
| "dec_map j old = mismatch"

subsection \<open>Structs\<close>

text \<open>
  A field of a struct: its name, whether \<open>omitempty\<close> leaves a value out, and how it is encoded and
  decoded. The last two components say what decoding an encoded value does to the field, and when the
  field has its zero value; they are for the proofs and no code uses them.
\<close>

record 's json_field =
  jf_name :: string
  jf_omit :: "'s \<Rightarrow> bool"
  jf_enc :: "'s \<Rightarrow> err + json"
  jf_dec :: "json \<Rightarrow> 's \<Rightarrow> err + 's"
  jf_copy :: "'s \<Rightarrow> 's \<Rightarrow> 's"
  jf_zero :: "'s \<Rightarrow> bool"

definition field ::
    "string \<Rightarrow> ('a \<Rightarrow> bool) \<Rightarrow> ('a \<Rightarrow> err + json) \<Rightarrow> (json \<Rightarrow> 'a \<Rightarrow> err + 'a) \<Rightarrow> 'a \<Rightarrow> ('a \<Rightarrow> 'a) \<Rightarrow>
     ('s \<Rightarrow> 'a) \<Rightarrow> (('a \<Rightarrow> 'a) \<Rightarrow> 's \<Rightarrow> 's) \<Rightarrow> 's json_field" where
  "field name omit enc dec zero kept get upd =
     \<lparr>jf_name = name, jf_omit = (\<lambda>s. omit (get s)), jf_enc = (\<lambda>s. enc (get s)),
      jf_dec = (\<lambda>j s. attempt id (dec j (get s)) (\<lambda>v. Inr (upd (\<lambda>_. v) s))),
      jf_copy = (\<lambda>x s. upd (\<lambda>_. kept (get x)) s), jf_zero = (\<lambda>s. get s = zero)\<rparr>"

fun enc_fields :: "'s json_field list \<Rightarrow> 's \<Rightarrow> err + (string \<times> json) list" where
  "enc_fields [] x = Inr []"
| "enc_fields (f # fs) x =
     (if jf_omit f x then enc_fields fs x
      else attempt id (jf_enc f x) (\<lambda>j. attempt id (enc_fields fs x) (\<lambda>kvs. Inr ((jf_name f, j) # kvs))))"

definition enc_struct :: "'s json_field list \<Rightarrow> 's \<Rightarrow> err + json" where
  "enc_struct fs x = attempt id (enc_fields fs x) (\<lambda>kvs. Inr (JObject kvs))"

fun dec_fields :: "'s json_field list \<Rightarrow> (string \<times> json) list \<Rightarrow> 's \<Rightarrow> err + 's" where
  "dec_fields fs [] s = Inr s"
| "dec_fields fs ((k, j) # kvs) s =
     (case find (\<lambda>f. jf_name f = k) fs of
        None \<Rightarrow> dec_fields fs kvs s
      | Some f \<Rightarrow> attempt id (jf_dec f j s) (dec_fields fs kvs))"

fun dec_struct :: "'s json_field list \<Rightarrow> json \<Rightarrow> 's \<Rightarrow> err + 's" where
  "dec_struct fs JNull s = Inr s"
| "dec_struct fs (JObject kvs) s = dec_fields fs kvs s"
| "dec_struct fs j s = mismatch"

subsection \<open>The contract of a codec\<close>

locale json_codec =
  fixes enc :: "'a \<Rightarrow> err + json" and dec :: "json \<Rightarrow> 'a \<Rightarrow> err + 'a" and zero :: 'a
    and kept :: "'a \<Rightarrow> 'a" and valid :: "'a \<Rightarrow> bool"
  assumes dec_enc: "valid x \<Longrightarrow> enc x = Inr j \<Longrightarrow> dec j zero = Inr (kept x)"
    and enc_not_null: "valid x \<Longrightarrow> enc x = Inr j \<Longrightarrow> j \<noteq> JNull"
begin

lemma elems_dec_enc: "list_all valid xs \<Longrightarrow> enc_elems enc xs = Inr js \<Longrightarrow> dec_elems dec zero js = Inr (map kept xs)"
  by (induction xs arbitrary: js) (auto elim!: attempt_InrE simp: dec_enc)

lemma slice_codec: "json_codec (enc_slice enc) (dec_slice dec zero) [] (map kept) (list_all valid)"
  by unfold_locales (auto simp: enc_slice_def elems_dec_enc elim!: attempt_InrE)

text \<open>A pointer is encoded as what it points to; a nil one is left out by its tag.\<close>

lemma ptr_dec_enc:
  assumes "enc_ptr enc p = Inr j" and "pred_option valid p"
  shows "dec_ptr dec zero j None = Inr (map_option kept p)"
proof (cases p)
  case (Some x)
  then have "valid x" "enc x = Inr j" using assms by (simp_all add: enc_ptr_def)
  with Some show ?thesis using enc_not_null [of x j] by (simp add: dec_ptr_def dec_enc)
qed (use assms in \<open>simp add: enc_ptr_def dec_ptr_def\<close>)

end

interpretation bool_codec: json_codec enc_bool dec_bool False id "\<lambda>_. True"
  by unfold_locales (auto simp: enc_bool_def)

interpretation string_codec: json_codec enc_string dec_string "[]" id "\<lambda>_. True"
  by unfold_locales (auto simp: enc_string_def)

interpretation int_codec: json_codec enc_int "dec_int in_range" 0 id in_range for in_range
  by unfold_locales (auto simp: enc_int_def)

interpretation float_codec: json_codec enc_float dec_float "Fin 0" id "\<lambda>_. True"
proof
  show "dec_float j (Fin 0) = Inr (id x)" if "enc_float x = Inr j" for x j
    using that by (cases x) auto
  show "j \<noteq> JNull" if "enc_float x = Inr j" for x j
    using that by (cases x) auto
qed

lemma dec_entries_strings:
  "distinct (map fst (m @ kvs)) \<Longrightarrow> dec_entries (map (\<lambda>(k, v). (k, JString v)) kvs) m = Inr (m @ kvs)"
proof (induction kvs arbitrary: m)
  case (Cons kv kvs)
  obtain k v where kv: "kv = (k, v)" by (cases kv)
  have "k \<notin> fst ` set m" using Cons.prems by (simp add: kv)
  then have "AList.update k v m = m @ [(k, v)]" by (induction m) auto
  with Cons show ?case by (simp add: kv)
qed simp

interpretation map_codec: json_codec enc_map dec_map "[]" sorted_map wf_map
proof
  show "dec_map j [] = Inr (sorted_map x)" if "wf_map x" "enc_map x = Inr j" for x j
  proof -
    have "distinct (map fst (sorted_map x))"
      using that(1) by (simp add: sorted_map_def wf_map_def distinct_map inj_on_def)
    with that(2) show ?thesis using dec_entries_strings [of "[]" "sorted_map x"] by (auto simp: enc_map_def)
  qed
qed (auto simp: enc_map_def)

subsection \<open>Structs keep the contract\<close>

text \<open>
  A field is sound for the structs in \<open>valid\<close> when what it encodes is decoded into a field that was zero,
  and what its tag leaves out is the zero value. Fields are independent when decoding one leaves those
  after it zero.
\<close>

definition sound_field :: "('s \<Rightarrow> bool) \<Rightarrow> 's json_field \<Rightarrow> bool" where
  "sound_field valid f \<longleftrightarrow>
     (\<forall>x s j. valid x \<longrightarrow> jf_zero f s \<longrightarrow> \<not> jf_omit f x \<longrightarrow> jf_enc f x = Inr j \<longrightarrow> jf_dec f j s = Inr (jf_copy f x s))
   \<and> (\<forall>x s. jf_zero f s \<longrightarrow> jf_omit f x \<longrightarrow> jf_copy f x s = s)"

definition independent :: "'s json_field list \<Rightarrow> bool" where
  "independent fs \<longleftrightarrow> sorted_wrt (\<lambda>f g. \<forall>x s. jf_zero g s \<longrightarrow> jf_zero g (jf_copy f x s)) fs"

definition copied :: "'s json_field list \<Rightarrow> 's \<Rightarrow> 's \<Rightarrow> 's" where
  "copied fs zero x = fold (\<lambda>f. jf_copy f x) fs zero"

lemma sound_fieldI:
  assumes "json_codec enc dec zero kept ok"
    and "\<And>v. omit v \<Longrightarrow> kept v = zero" and "\<And>s. get s = zero \<Longrightarrow> upd (\<lambda>_. zero) s = s" and "\<And>x. valid x \<Longrightarrow> ok (get x)"
  shows "sound_field valid (field name omit enc dec zero kept get upd)"
proof -
  have "dec j (get s) = Inr (kept (get x))" if "valid x" "get s = zero" "enc (get x) = Inr j" for x s j
    using json_codec.dec_enc [OF assms(1), of "get x" j] that assms(4) by simp
  then show ?thesis using assms(2,3) by (simp add: sound_field_def field_def)
qed

lemma sound_ptr_fieldI:
  assumes "json_codec enc dec zero kept ok" and "\<And>s. get s = None \<Longrightarrow> upd (\<lambda>_. None) s = s"
    and "\<And>x. valid x \<Longrightarrow> pred_option ok (get x)"
  shows "sound_field valid
    (field name (\<lambda>p. p = None) (enc_ptr enc) (dec_ptr dec zero) None (map_option kept) get upd)"
proof -
  have "dec_ptr dec zero j (get s) = Inr (map_option kept (get x))"
    if "valid x" "get s = None" "enc_ptr enc (get x) = Inr j" for x s j
    using json_codec.ptr_dec_enc [OF assms(1) that(3)] that assms(3) by simp
  then show ?thesis using assms(2) by (simp add: sound_field_def field_def)
qed

lemma jf_name_field [simp]: "jf_name (field name omit enc dec zero kept get upd) = name"
  by (simp add: field_def)

lemma enc_fields_ConsE:
  assumes "enc_fields (f # fs) x = Inr kvs"
  obtains (omitted) "jf_omit f x" and "enc_fields fs x = Inr kvs"
  | (kept) j kvs' where "\<not> jf_omit f x" and "jf_enc f x = Inr j" and "enc_fields fs x = Inr kvs'" and "kvs = (jf_name f, j) # kvs'"
  using assms by (cases "jf_omit f x") (auto elim!: attempt_InrE)

lemma dec_enc_fields:
  assumes "list_all (sound_field valid) fs" and "independent fs" and "list_all (\<lambda>f. jf_zero f s) fs"
    and "\<And>f. f \<in> set fs \<Longrightarrow> find (\<lambda>g. jf_name g = jf_name f) all = Some f"
    and "valid x" and "enc_fields fs x = Inr kvs"
  shows "dec_fields all kvs s = Inr (copied fs s x)"
  using assms
proof (induction fs arbitrary: s kvs)
  case (Cons f fs)
  have ind: "independent fs" and zero: "list_all (\<lambda>g. jf_zero g (jf_copy f x s)) fs"
    using Cons.prems(2,3) by (auto simp: independent_def list_all_iff)
  note sound = Cons.prems(1) [simplified, THEN conjunct1, unfolded sound_field_def]
  show ?case
  proof (cases "jf_omit f x")
    case True
    then have "jf_copy f x s = s" using sound Cons.prems(3) by simp
    with True Cons.prems Cons.IH [OF _ ind zero] show ?thesis by (simp add: copied_def)
  next
    case False
    with Cons.prems(6) obtain j kvs' where j: "jf_enc f x = Inr j" "enc_fields fs x = Inr kvs'" "kvs = (jf_name f, j) # kvs'"
      by (auto elim!: attempt_InrE)
    have "jf_dec f j s = Inr (jf_copy f x s)" using sound Cons.prems(3,5) False j(1) by simp
    with Cons.prems j(2) Cons.IH [OF _ ind zero, of kvs'] show ?thesis by (simp add: j(3) copied_def)
  qed
qed (simp add: copied_def)

lemma find_name: "distinct (map jf_name fs) \<Longrightarrow> f \<in> set fs \<Longrightarrow> find (\<lambda>g. jf_name g = jf_name f) fs = Some f"
  by (induction fs) auto

lemma struct_codec:
  assumes "list_all (sound_field valid) fs" and "independent fs" and "list_all (\<lambda>f. jf_zero f zero) fs"
    and "distinct (map jf_name fs)"
  shows "json_codec (enc_struct fs) (dec_struct fs) zero (copied fs zero) valid"
proof
  show "dec_struct fs j zero = Inr (copied fs zero x)" if "valid x" and "enc_struct fs x = Inr j" for x j
    using that(2) dec_enc_fields [OF assms(1-3) find_name [OF assms(4)] that(1)]
    by (auto simp: enc_struct_def elim!: attempt_InrE)
qed (auto simp: enc_struct_def elim!: attempt_InrE)

subsection \<open>When a struct can be encoded\<close>

definition encodes :: "err + json \<Rightarrow> bool" where
  "encodes r \<longleftrightarrow> (\<exists>j. r = Inr j)"

lemma encodes_simps [simp]:
  "encodes (enc_bool b)" "encodes (enc_int n)" "encodes (enc_string s)" "encodes (enc_map m)"
  "encodes (enc_ptr enc None)" "encodes (enc_ptr enc (Some y)) = encodes (enc y)"
  by (simp_all add: encodes_def enc_bool_def enc_int_def enc_string_def enc_map_def enc_ptr_def)

lemma encodes_float [simp]: "encodes (enc_float x) \<longleftrightarrow> finite_float x"
  by (cases x) (simp_all add: encodes_def)

lemma encodes_slice [simp]: "encodes (enc_slice enc xs) \<longleftrightarrow> list_all (\<lambda>x. encodes (enc x)) xs"
proof -
  have "(\<exists>js. enc_elems enc xs = Inr js) \<longleftrightarrow> list_all (\<lambda>x. encodes (enc x)) xs"
  proof (induction xs)
    case (Cons x xs)
    then show ?case by (cases "enc x"; cases "enc_elems enc xs") (auto simp: encodes_def)
  qed simp
  then show ?thesis unfolding encodes_def enc_slice_def by (cases "enc_elems enc xs") simp_all
qed

lemma encodes_struct [simp]:
  "encodes (enc_struct fs x) \<longleftrightarrow> list_all (\<lambda>f. jf_omit f x \<or> encodes (jf_enc f x)) fs"
proof -
  have "(\<exists>kvs. enc_fields fs x = Inr kvs) \<longleftrightarrow> list_all (\<lambda>f. jf_omit f x \<or> encodes (jf_enc f x)) fs"
  proof (induction fs)
    case (Cons f fs)
    then show ?case by (cases "jf_enc f x"; cases "enc_fields fs x") (auto simp: encodes_def)
  qed simp
  then show ?thesis unfolding encodes_def enc_struct_def by (cases "enc_fields fs x") simp_all
qed

text \<open>The members of an encoded struct are those of its fields that are not left out.\<close>

lemma enc_fields_names: "enc_fields fs x = Inr kvs \<Longrightarrow> fst ` set kvs \<subseteq> jf_name ` set fs"
proof (induction fs arbitrary: kvs)
  case (Cons f fs)
  from Cons.prems show ?case by (cases rule: enc_fields_ConsE) (use Cons.IH in force)+
qed simp

lemma enc_fields_member:
  "enc_fields fs x = Inr kvs \<Longrightarrow> distinct (map jf_name fs) \<Longrightarrow> f \<in> set fs \<Longrightarrow>
   map_of kvs (jf_name f) = (if jf_omit f x then None else Some (projr (jf_enc f x)))"
proof (induction fs arbitrary: kvs)
  case (Cons g fs)
  show ?case
  proof (cases "f = g")
    case True
    have new: "jf_name f \<notin> jf_name ` set fs" using Cons.prems(2) True by simp
    have none: "map_of kvs' (jf_name f) = None" if "enc_fields fs x = Inr kvs'" for kvs'
      using enc_fields_names [OF that] new by (auto simp: map_of_eq_None_iff)
    from Cons.prems(1) show ?thesis by (cases rule: enc_fields_ConsE) (use none True in auto)
  next
    case False
    then have f: "f \<in> set fs" and neq: "jf_name f \<noteq> jf_name g" using Cons.prems(2,3) by (auto simp: image_iff)
    have IH: "map_of kvs' (jf_name f) = (if jf_omit f x then None else Some (projr (jf_enc f x)))"
      if "enc_fields fs x = Inr kvs'" for kvs'
      using Cons.IH [OF that _ f] Cons.prems(2) by simp
    from Cons.prems(1) show ?thesis by (cases rule: enc_fields_ConsE) (use IH neq in auto)
  qed
qed simp

end
