(* ===== verification/ApiJson.thy ===== *)
theory ApiJson
  imports ApiTypes GoJson
begin

text \<open>
  The custom resources of \<open>api/v1\<close> as JSON, by the tags of their fields: \<open>omitempty\<close> leaves out a false
  boolean, a zero number, an empty string, slice or map and a nil pointer, and has no effect on a field
  that is a struct. The encodings of \<open>metav1.Duration\<close>, \<open>metav1.Time\<close>, \<open>metav1.LabelSelector\<close>,
  \<open>metav1.LabelSelectorRequirement\<close> and of the object metadata are not part of the repository: they are
  the record \<open>meta_codecs\<close>, and \<open>meta_ok\<close> states what they document. The members of the type metadata
  are left out, as the typed client leaves them empty.

  The lemmas show that every resource keeps the contract \<open>json_codec\<close> and when it can be encoded.
\<close>

subsection \<open>The types of the API machinery\<close>

record meta_codecs =
  enc_duration :: "duration \<Rightarrow> err + json"
  dec_duration :: "json \<Rightarrow> duration \<Rightarrow> err + duration"
  enc_time :: "gotime \<Rightarrow> err + json"
  dec_time :: "json \<Rightarrow> gotime \<Rightarrow> err + gotime"
  enc_selector :: "label_selector \<Rightarrow> err + json"
  dec_selector :: "json \<Rightarrow> label_selector \<Rightarrow> err + label_selector"
  enc_requirement :: "selector_req \<Rightarrow> err + json"
  dec_requirement :: "json \<Rightarrow> selector_req \<Rightarrow> err + selector_req"
  enc_meta :: "string \<times> int \<Rightarrow> err + json"
  dec_meta :: "json \<Rightarrow> string \<times> int \<Rightarrow> err + string \<times> int"

definition empty_selector :: label_selector where
  "empty_selector = \<lparr>sel_labels = [], sel_expressions = []\<rparr>"

definition empty_requirement :: selector_req where
  "empty_requirement = \<lparr>req_key = [], req_operator = [], req_values = []\<rparr>"

text \<open>
  A time is printed in whole seconds, and the zero time as \<open>null\<close>; its year has four digits. The labels of
  a selector come back in the order of their keys.
\<close>

definition valid_time :: "gotime \<Rightarrow> bool" where
  "valid_time t \<longleftrightarrow> second \<le> t \<and> t < 315537897600 * second"

definition whole_seconds :: "gotime \<Rightarrow> gotime" where
  "whole_seconds t = t div second * second"

definition kept_selector :: "label_selector \<Rightarrow> label_selector" where
  "kept_selector s = s\<lparr>sel_labels := sorted_map (sel_labels s)\<rparr>"

definition meta_ok :: "meta_codecs \<Rightarrow> bool" where
  "meta_ok M \<longleftrightarrow>
     json_codec (enc_duration M) (dec_duration M) 0 id in_int64
   \<and> json_codec (enc_time M) (dec_time M) 0 whole_seconds valid_time
   \<and> json_codec (enc_selector M) (dec_selector M) empty_selector kept_selector (\<lambda>s. wf_map (sel_labels s))
   \<and> json_codec (enc_requirement M) (dec_requirement M) empty_requirement id (\<lambda>_. True)
   \<and> json_codec (enc_meta M) (dec_meta M) ([], 0) id (\<lambda>(n, g). in_int64 g)"

subsection \<open>Policies\<close>

abbreviation "strings_enc \<equiv> enc_slice enc_string"
abbreviation "strings_dec \<equiv> dec_slice dec_string []"

definition string_field :: "string \<Rightarrow> ('s \<Rightarrow> string) \<Rightarrow> ((string \<Rightarrow> string) \<Rightarrow> 's \<Rightarrow> 's) \<Rightarrow> 's json_field" where
  "string_field name = field name (\<lambda>s. s = []) enc_string dec_string [] id"

definition strings_field :: "string \<Rightarrow> ('s \<Rightarrow> string list) \<Rightarrow> ((string list \<Rightarrow> string list) \<Rightarrow> 's \<Rightarrow> 's) \<Rightarrow> 's json_field" where
  "strings_field name = field name (\<lambda>s. s = []) strings_enc strings_dec [] (map id)"

definition float_field :: "string \<Rightarrow> ('s \<Rightarrow> float64) \<Rightarrow> ((float64 \<Rightarrow> float64) \<Rightarrow> 's \<Rightarrow> 's) \<Rightarrow> 's json_field" where
  "float_field name = field name (\<lambda>x. feq x (Fin 0)) enc_float dec_float (Fin 0) id"

definition bool_field :: "string \<Rightarrow> ('s \<Rightarrow> bool) \<Rightarrow> ((bool \<Rightarrow> bool) \<Rightarrow> 's \<Rightarrow> 's) \<Rightarrow> 's json_field" where
  "bool_field name = field name (\<lambda>b. \<not> b) enc_bool dec_bool False id"

definition int_field ::
    "(int \<Rightarrow> bool) \<Rightarrow> string \<Rightarrow> ('s \<Rightarrow> int) \<Rightarrow> ((int \<Rightarrow> int) \<Rightarrow> 's \<Rightarrow> 's) \<Rightarrow> 's json_field" where
  "int_field in_range name = field name (\<lambda>n. n = 0) enc_int (dec_int in_range) 0 id"

definition labels_field :: "string \<Rightarrow> ('s \<Rightarrow> labels) \<Rightarrow> ((labels \<Rightarrow> labels) \<Rightarrow> 's \<Rightarrow> 's) \<Rightarrow> 's json_field" where
  "labels_field name = field name (\<lambda>m. m = []) enc_map dec_map [] sorted_map"

definition NamespaceSelector_fields :: "namespace_selector json_field list" where
  "NamespaceSelector_fields =
     [strings_field ''include'' ns_include ns_include_update,
      strings_field ''exclude'' ns_exclude ns_exclude_update]"

definition ResourceWeights_fields :: "resource_weights json_field list" where
  "ResourceWeights_fields =
     [float_field ''cpu'' weight_cpu weight_cpu_update,
      float_field ''memory'' weight_memory weight_memory_update]"

definition zero_namespaces :: namespace_selector where
  "zero_namespaces = \<lparr>ns_include = [], ns_exclude = []\<rparr>"

definition zero_weights :: resource_weights where
  "zero_weights = \<lparr>weight_cpu = Fin 0, weight_memory = Fin 0\<rparr>"

definition RebalancePolicySpec_fields :: "meta_codecs \<Rightarrow> policy_spec json_field list" where
  "RebalancePolicySpec_fields M =
     [float_field ''targetVariance'' targetVariance targetVariance_update,
      float_field ''hotThreshold'' hotThreshold hotThreshold_update,
      float_field ''coldThreshold'' coldThreshold coldThreshold_update,
      float_field ''hysteresis'' hysteresis hysteresis_update,
      int_field in_int64 ''maxEvictionsPerMinute'' maxEvictionsPerMinute maxEvictionsPerMinute_update,
      field ''namespaces'' (\<lambda>_. False) (enc_struct NamespaceSelector_fields) (dec_struct NamespaceSelector_fields)
        zero_namespaces id namespaces namespaces_update,
      field ''workloadSelectors'' (\<lambda>xs. xs = []) (enc_slice (enc_selector M)) (dec_slice (dec_selector M) empty_selector)
        [] (map kept_selector) workloadSelectors workloadSelectors_update,
      field ''resourceWeights'' (\<lambda>_. False) (enc_struct ResourceWeights_fields) (dec_struct ResourceWeights_fields)
        zero_weights id resourceWeights resourceWeights_update,
      bool_field ''respectPodPriority'' respectPodPriority respectPodPriority_update,
      bool_field ''respectPDB'' respectPDB respectPDB_update,
      bool_field ''dryRun'' dryRun dryRun_update,
      field ''backoffDuration'' (\<lambda>p. p = None) (enc_ptr (enc_duration M)) (dec_ptr (dec_duration M) 0) None
        (map_option id) backoffDuration backoffDuration_update,
      int_field in_int64 ''maxEvictionsPerNamespace'' maxEvictionsPerNamespace maxEvictionsPerNamespace_update,
      strings_field ''nodeClassPreference'' nodeClassPreference nodeClassPreference_update]"

definition PlanStatus_fields :: "meta_codecs \<Rightarrow> plan_status json_field list" where
  "PlanStatus_fields M =
     [int_field in_int64 ''hotNodes'' st_hotNodes st_hotNodes_update,
      int_field in_int64 ''coldNodes'' st_coldNodes st_coldNodes_update,
      float_field ''variance'' st_variance st_variance_update,
      int_field in_int64 ''evictionsPlanned'' st_planned st_planned_update,
      int_field in_int64 ''evictionsExecuted'' st_executed st_executed_update,
      field ''lastExecutionTime'' (\<lambda>p. p = None) (enc_ptr (enc_time M)) (dec_ptr (dec_time M) 0) None
        (map_option whole_seconds) st_lastExecution st_lastExecution_update,
      bool_field ''dryRun'' st_dryRun st_dryRun_update,
      string_field ''message'' st_message st_message_update]"

definition zero_plan_status :: plan_status where
  "zero_plan_status = \<lparr>st_hotNodes = 0, st_coldNodes = 0, st_variance = Fin 0, st_planned = 0, st_executed = 0,
     st_lastExecution = None, st_dryRun = False, st_message = []\<rparr>"

definition kept_plan_status :: "plan_status \<Rightarrow> plan_status" where
  "kept_plan_status st = st\<lparr>st_lastExecution := map_option whole_seconds (st_lastExecution st)\<rparr>"

definition RebalancePolicyStatus_fields :: "meta_codecs \<Rightarrow> policy_status json_field list" where
  "RebalancePolicyStatus_fields M =
     [int_field in_int64 ''observedGeneration'' observedGeneration observedGeneration_update,
      field ''plan'' (\<lambda>_. False) (enc_struct (PlanStatus_fields M)) (dec_struct (PlanStatus_fields M))
        zero_plan_status kept_plan_status status_plan status_plan_update]"

definition zero_status :: policy_status where
  "zero_status = \<lparr>observedGeneration = 0, status_plan = zero_plan_status\<rparr>"

text \<open>The zero \<open>RebalancePolicySpec\<close>.\<close>

definition zero_policy_spec :: policy_spec where
  "zero_policy_spec = \<lparr>targetVariance = Fin 0, hotThreshold = Fin 0, coldThreshold = Fin 0, hysteresis = Fin 0,
     maxEvictionsPerMinute = 0, namespaces = \<lparr>ns_include = [], ns_exclude = []\<rparr>, workloadSelectors = [],
     resourceWeights = \<lparr>weight_cpu = Fin 0, weight_memory = Fin 0\<rparr>, respectPodPriority = False,
     respectPDB = False, dryRun = False, backoffDuration = None, maxEvictionsPerNamespace = 0,
     nodeClassPreference = []\<rparr>"

definition kept_spec :: "policy_spec \<Rightarrow> policy_spec" where
  "kept_spec s = s\<lparr>workloadSelectors := map kept_selector (workloadSelectors s)\<rparr>"

definition kept_status :: "policy_status \<Rightarrow> policy_status" where
  "kept_status st = st\<lparr>status_plan := kept_plan_status (status_plan st)\<rparr>"

definition policy_meta :: "policy \<Rightarrow> string \<times> int" where
  "policy_meta pol = (policy_name pol, policy_generation pol)"

definition policy_meta_update :: "(string \<times> int \<Rightarrow> string \<times> int) \<Rightarrow> policy \<Rightarrow> policy" where
  "policy_meta_update f pol = (case f (policy_meta pol) of (n, g) \<Rightarrow> pol\<lparr>policy_name := n, policy_generation := g\<rparr>)"

definition RebalancePolicy_fields :: "meta_codecs \<Rightarrow> policy json_field list" where
  "RebalancePolicy_fields M =
     [field ''metadata'' (\<lambda>_. False) (enc_meta M) (dec_meta M) ([], 0) id policy_meta policy_meta_update,
      field ''spec'' (\<lambda>_. False) (enc_struct (RebalancePolicySpec_fields M)) (dec_struct (RebalancePolicySpec_fields M))
        zero_policy_spec kept_spec policy_spec policy_spec_update,
      field ''status'' (\<lambda>_. False) (enc_struct (RebalancePolicyStatus_fields M)) (dec_struct (RebalancePolicyStatus_fields M))
        zero_status kept_status policy_status policy_status_update]"

definition zero_policy :: policy where
  "zero_policy = \<lparr>policy_name = [], policy_generation = 0, policy_spec = zero_policy_spec, policy_status = zero_status\<rparr>"

subsection \<open>Workload objectives and node classes\<close>

text \<open>The specs of the two resources, over the records the planner reads them into.\<close>

definition WorkloadSLOSpec_fields :: "workload_slo json_field list" where
  "WorkloadSLOSpec_fields =
     [int_field in_int32 ''maxDisruptionsPerHour'' maxDisruptionsPerHour maxDisruptionsPerHour_update,
      int_field in_int32 ''minReadySeconds'' minReadySeconds minReadySeconds_update,
      bool_field ''allowStatefulSetEviction'' allowStatefulSetEviction allowStatefulSetEviction_update,
      labels_field ''protectedLabels'' protectedLabels protectedLabels_update]"

definition NodeClassSpec_fields :: "meta_codecs \<Rightarrow> node_class json_field list" where
  "NodeClassSpec_fields M =
     [labels_field ''matchLabels'' class_labels class_labels_update,
      field ''matchExpressions'' (\<lambda>xs. xs = []) (enc_slice (enc_requirement M))
        (dec_slice (dec_requirement M) empty_requirement) [] (map id) class_expressions class_expressions_update,
      strings_field ''preferredFor'' preferredFor preferredFor_update,
      int_field in_int32 ''weight'' class_weight class_weight_update]"

subsection \<open>Every resource keeps the contract\<close>

lemmas field_kind_defs = string_field_def strings_field_def float_field_def bool_field_def int_field_def labels_field_def

lemmas strings_codec = json_codec.slice_codec [OF string_codec.json_codec_axioms]

lemma feq_zero_iff: "feq x (Fin 0) \<longleftrightarrow> x = Fin 0"
  by (cases x) (simp_all add: feq_def)

text \<open>A field of each kind is sound when it is a field at all, and an integer one when it is in its range.\<close>

lemma sound_string_field: "(\<And>s. get s = [] \<Longrightarrow> upd (\<lambda>_. []) s = s) \<Longrightarrow> sound_field valid (string_field name get upd)"
  unfolding string_field_def by (rule sound_fieldI [OF string_codec.json_codec_axioms]) auto

lemma sound_strings_field: "(\<And>s. get s = [] \<Longrightarrow> upd (\<lambda>_. []) s = s) \<Longrightarrow> sound_field valid (strings_field name get upd)"
  unfolding strings_field_def by (rule sound_fieldI [OF strings_codec]) (auto simp: list_all_iff)

lemma sound_float_field: "(\<And>s. get s = Fin 0 \<Longrightarrow> upd (\<lambda>_. Fin 0) s = s) \<Longrightarrow> sound_field valid (float_field name get upd)"
  unfolding float_field_def by (rule sound_fieldI [OF float_codec.json_codec_axioms]) (auto simp: feq_zero_iff)

lemma sound_bool_field: "(\<And>s. get s = False \<Longrightarrow> upd (\<lambda>_. False) s = s) \<Longrightarrow> sound_field valid (bool_field name get upd)"
  unfolding bool_field_def by (rule sound_fieldI [OF bool_codec.json_codec_axioms]) auto

lemma sound_int_field:
  "(\<And>s. get s = 0 \<Longrightarrow> upd (\<lambda>_. 0) s = s) \<Longrightarrow> (\<And>s. valid s \<Longrightarrow> in_range (get s)) \<Longrightarrow>
   sound_field valid (int_field in_range name get upd)"
  unfolding int_field_def by (rule sound_fieldI [OF int_codec.json_codec_axioms]) auto

lemma sound_labels_field:
  "(\<And>s. get s = [] \<Longrightarrow> upd (\<lambda>_. []) s = s) \<Longrightarrow> (\<And>s. valid s \<Longrightarrow> wf_map (get s)) \<Longrightarrow>
   sound_field valid (labels_field name get upd)"
  unfolding labels_field_def by (rule sound_fieldI [OF map_codec.json_codec_axioms]) (auto simp: sorted_map_def)

lemmas sound_fields = sound_string_field sound_strings_field sound_float_field sound_bool_field sound_int_field sound_labels_field

lemma json_codec_cong: "json_codec enc dec zero kept valid \<Longrightarrow> kept = kept' \<Longrightarrow> json_codec enc dec zero kept' valid"
  by simp

lemma NamespaceSelector_codec:
  "json_codec (enc_struct NamespaceSelector_fields) (dec_struct NamespaceSelector_fields) zero_namespaces id (\<lambda>_. True)"
proof (rule json_codec_cong [OF struct_codec])
  show "list_all (sound_field (\<lambda>_. True)) NamespaceSelector_fields"
    by (simp add: NamespaceSelector_fields_def sound_fields)
qed (auto simp: NamespaceSelector_fields_def independent_def field_kind_defs field_def zero_namespaces_def copied_def)

lemma ResourceWeights_codec:
  "json_codec (enc_struct ResourceWeights_fields) (dec_struct ResourceWeights_fields) zero_weights id (\<lambda>_. True)"
proof (rule json_codec_cong [OF struct_codec])
  show "list_all (sound_field (\<lambda>_. True)) ResourceWeights_fields"
    by (simp add: ResourceWeights_fields_def sound_fields)
qed (auto simp: ResourceWeights_fields_def independent_def field_kind_defs field_def zero_weights_def copied_def)

definition valid_spec :: "policy_spec \<Rightarrow> bool" where
  "valid_spec s \<longleftrightarrow> in_int64 (maxEvictionsPerMinute s) \<and> in_int64 (maxEvictionsPerNamespace s)
     \<and> pred_option in_int64 (backoffDuration s) \<and> list_all (\<lambda>sel. wf_map (sel_labels sel)) (workloadSelectors s)"

lemma RebalancePolicySpec_codec:
  assumes "meta_ok M"
  shows "json_codec (enc_struct (RebalancePolicySpec_fields M)) (dec_struct (RebalancePolicySpec_fields M))
    zero_policy_spec kept_spec valid_spec"
proof (rule json_codec_cong [OF struct_codec])
  have sel: "json_codec (enc_selector M) (dec_selector M) empty_selector kept_selector (\<lambda>s. wf_map (sel_labels s))"
    and dur: "json_codec (enc_duration M) (dec_duration M) 0 id in_int64"
    using assms by (simp_all add: meta_ok_def)
  show "list_all (sound_field valid_spec) (RebalancePolicySpec_fields M)"
    unfolding RebalancePolicySpec_fields_def list.pred_inject
    by (intro conjI TrueI sound_fields sound_fieldI [OF json_codec.slice_codec [OF sel]] sound_ptr_fieldI [OF dur]
          sound_fieldI [OF NamespaceSelector_codec] sound_fieldI [OF ResourceWeights_codec])
       (simp_all add: valid_spec_def)
qed (auto simp: RebalancePolicySpec_fields_def independent_def field_kind_defs field_def zero_policy_spec_def
      zero_weights_def zero_namespaces_def copied_def kept_spec_def option.map_id)

definition valid_plan_status :: "plan_status \<Rightarrow> bool" where
  "valid_plan_status st \<longleftrightarrow> in_int64 (st_hotNodes st) \<and> in_int64 (st_coldNodes st) \<and> in_int64 (st_planned st)
     \<and> in_int64 (st_executed st) \<and> pred_option valid_time (st_lastExecution st)"

lemma PlanStatus_codec:
  assumes "meta_ok M"
  shows "json_codec (enc_struct (PlanStatus_fields M)) (dec_struct (PlanStatus_fields M))
    zero_plan_status kept_plan_status valid_plan_status"
proof (rule json_codec_cong [OF struct_codec])
  have time: "json_codec (enc_time M) (dec_time M) 0 whole_seconds valid_time"
    using assms by (simp add: meta_ok_def)
  show "list_all (sound_field valid_plan_status) (PlanStatus_fields M)"
    unfolding PlanStatus_fields_def list.pred_inject
    by (intro conjI TrueI sound_fields sound_ptr_fieldI [OF time]) (simp_all add: valid_plan_status_def)
qed (auto simp: PlanStatus_fields_def independent_def field_kind_defs field_def zero_plan_status_def copied_def kept_plan_status_def)

definition valid_status :: "policy_status \<Rightarrow> bool" where
  "valid_status st \<longleftrightarrow> in_int64 (observedGeneration st) \<and> valid_plan_status (status_plan st)"

lemma RebalancePolicyStatus_codec:
  assumes "meta_ok M"
  shows "json_codec (enc_struct (RebalancePolicyStatus_fields M)) (dec_struct (RebalancePolicyStatus_fields M))
    zero_status kept_status valid_status"
proof (rule json_codec_cong [OF struct_codec])
  show "list_all (sound_field valid_status) (RebalancePolicyStatus_fields M)"
    unfolding RebalancePolicyStatus_fields_def list.pred_inject
    by (intro conjI TrueI sound_fields sound_fieldI [OF PlanStatus_codec [OF assms]]) (simp_all add: valid_status_def)
qed (auto simp: RebalancePolicyStatus_fields_def independent_def field_kind_defs field_def zero_status_def copied_def kept_status_def)

definition valid_policy :: "policy \<Rightarrow> bool" where
  "valid_policy pol \<longleftrightarrow> in_int64 (policy_generation pol) \<and> valid_spec (policy_spec pol) \<and> valid_status (policy_status pol)"

definition kept_policy :: "policy \<Rightarrow> policy" where
  "kept_policy pol = pol\<lparr>policy_spec := kept_spec (policy_spec pol), policy_status := kept_status (policy_status pol)\<rparr>"

lemma RebalancePolicy_codec:
  assumes "meta_ok M"
  shows "json_codec (enc_struct (RebalancePolicy_fields M)) (dec_struct (RebalancePolicy_fields M))
    zero_policy kept_policy valid_policy"
proof (rule json_codec_cong [OF struct_codec])
  have meta: "json_codec (enc_meta M) (dec_meta M) ([], 0) id (\<lambda>(n, g). in_int64 g)"
    using assms by (simp add: meta_ok_def)
  show "list_all (sound_field valid_policy) (RebalancePolicy_fields M)"
    unfolding RebalancePolicy_fields_def list.pred_inject
    by (intro conjI TrueI sound_fieldI [OF meta] sound_fieldI [OF RebalancePolicySpec_codec [OF assms]]
          sound_fieldI [OF RebalancePolicyStatus_codec [OF assms]])
       (auto simp: valid_policy_def policy_meta_def policy_meta_update_def)
qed (auto simp: RebalancePolicy_fields_def independent_def field_def zero_policy_def copied_def kept_policy_def
      policy_meta_def policy_meta_update_def fun_eq_iff)

lemma WorkloadSLOSpec_codec:
  "json_codec (enc_struct WorkloadSLOSpec_fields) (dec_struct WorkloadSLOSpec_fields)
     \<lparr>slo_namespace = ns, maxDisruptionsPerHour = 0, minReadySeconds = 0, allowStatefulSetEviction = False, protectedLabels = []\<rparr>
     (\<lambda>s. s\<lparr>slo_namespace := ns, protectedLabels := sorted_map (protectedLabels s)\<rparr>)
     (\<lambda>s. in_int32 (maxDisruptionsPerHour s) \<and> in_int32 (minReadySeconds s) \<and> wf_map (protectedLabels s))"
  (is "json_codec _ _ _ _ ?valid")
proof (rule json_codec_cong [OF struct_codec])
  show "list_all (sound_field ?valid) WorkloadSLOSpec_fields"
    unfolding WorkloadSLOSpec_fields_def list.pred_inject by (intro conjI TrueI sound_fields) simp_all
qed (auto simp: WorkloadSLOSpec_fields_def independent_def field_kind_defs field_def copied_def)

lemma NodeClassSpec_codec:
  assumes "meta_ok M"
  shows "json_codec (enc_struct (NodeClassSpec_fields M)) (dec_struct (NodeClassSpec_fields M))
     \<lparr>class_name = n, class_labels = [], class_expressions = [], preferredFor = [], class_weight = 0\<rparr>
     (\<lambda>c. c\<lparr>class_name := n, class_labels := sorted_map (class_labels c)\<rparr>)
     (\<lambda>c. wf_map (class_labels c) \<and> in_int32 (class_weight c))"
  (is "json_codec _ _ _ _ ?valid")
proof (rule json_codec_cong [OF struct_codec])
  have req: "json_codec (enc_requirement M) (dec_requirement M) empty_requirement id (\<lambda>_. True)"
    using assms by (simp add: meta_ok_def)
  show "list_all (sound_field ?valid) (NodeClassSpec_fields M)"
    unfolding NodeClassSpec_fields_def list.pred_inject
    by (intro conjI TrueI sound_fields sound_fieldI [OF json_codec.slice_codec [OF req]]) (simp_all add: list_all_iff)
qed (auto simp: NodeClassSpec_fields_def independent_def field_kind_defs field_def copied_def)

subsection \<open>When a policy can be encoded\<close>

definition finite_floats :: "float64 list \<Rightarrow> bool" where
  "finite_floats xs \<longleftrightarrow> list_all finite_float xs"

definition policy_floats :: "policy \<Rightarrow> float64 list" where
  "policy_floats pol =
     [targetVariance (policy_spec pol), hotThreshold (policy_spec pol), coldThreshold (policy_spec pol),
      hysteresis (policy_spec pol), weight_cpu (resourceWeights (policy_spec pol)),
      weight_memory (resourceWeights (policy_spec pol)), st_variance (status_plan (policy_status pol))]"

text \<open>What the types of the API machinery encode without an error.\<close>

definition meta_encodes :: "meta_codecs \<Rightarrow> bool" where
  "meta_encodes M \<longleftrightarrow> (\<forall>d. encodes (enc_duration M d)) \<and> (\<forall>t. encodes (enc_time M t))
     \<and> (\<forall>s. encodes (enc_selector M s)) \<and> (\<forall>m. encodes (enc_meta M m))"

lemma jf_field [simp]:
  "jf_omit (field name omit enc dec zero kept get upd) x \<longleftrightarrow> omit (get x)"
  "jf_enc (field name omit enc dec zero kept get upd) x = enc (get x)"
  by (simp_all add: field_def)

lemma encodes_ptr [simp]: "(\<forall>d. encodes (enc d)) \<Longrightarrow> encodes (enc_ptr enc p)"
  by (cases p) simp_all

lemma zero_or_finite [simp]: "x = Fin 0 \<or> finite_float x \<longleftrightarrow> finite_float x"
  by auto

lemma policy_encodes:
  assumes "meta_encodes M"
  shows "encodes (enc_struct (RebalancePolicy_fields M) pol) \<longleftrightarrow> finite_floats (policy_floats pol)"
proof -
  have [simp]: "encodes (enc_meta M m)" "encodes (enc_ptr (enc_duration M) p)" "encodes (enc_ptr (enc_time M) p)"
    "list_all (\<lambda>x. encodes (enc_selector M x)) xs" "list_all (\<lambda>x :: string. True) ys" for m p xs ys
    using assms unfolding meta_encodes_def by (simp_all add: list_all_iff del: split_paired_All)
  show ?thesis
    by (simp add: RebalancePolicy_fields_def RebalancePolicySpec_fields_def RebalancePolicyStatus_fields_def PlanStatus_fields_def
        NamespaceSelector_fields_def ResourceWeights_fields_def field_kind_defs finite_floats_def policy_floats_def feq_zero_iff)
qed

text \<open>
  C14: a policy survives its JSON. A policy whose numbers fit their types can be encoded exactly when its
  floats are finite, and then decoding gives it back, with the time of the last execution cut to whole
  seconds and the labels of its workload selectors in the order of their keys.
\<close>

theorem policy_json_roundtrip:
  assumes "meta_ok M" and "meta_encodes M" and "valid_policy pol"
  shows "if finite_floats (policy_floats pol)
    then \<exists>j. enc_struct (RebalancePolicy_fields M) pol = Inr j
      \<and> dec_struct (RebalancePolicy_fields M) j zero_policy = Inr (kept_policy pol)
    else \<exists>err. enc_struct (RebalancePolicy_fields M) pol = Inl err"
proof (cases "enc_struct (RebalancePolicy_fields M) pol")
  case (Inl err)
  then have "\<not> encodes (enc_struct (RebalancePolicy_fields M) pol)" by (simp only: encodes_def) simp
  then have "\<not> finite_floats (policy_floats pol)" using policy_encodes [OF assms(2)] by blast
  with Inl show ?thesis by simp
next
  case (Inr j)
  then have "encodes (enc_struct (RebalancePolicy_fields M) pol)" by (simp only: encodes_def) blast
  then have "finite_floats (policy_floats pol)" using policy_encodes [OF assms(2)] by blast
  moreover have "dec_struct (RebalancePolicy_fields M) j zero_policy = Inr (kept_policy pol)"
    by (rule json_codec.dec_enc [OF RebalancePolicy_codec [OF assms(1)] assms(3) Inr])
  ultimately show ?thesis using Inr by simp
qed

lemma map_of_sorted_map: "wf_map m \<Longrightarrow> map_of (sorted_map m) = map_of m"
  by (rule ext, rule wf_map_eqI) (auto simp: sorted_map_def wf_map_def distinct_map inj_on_def)

text \<open>
  Workload objectives and node classes survive their JSON. What decoding gives back has the same
  figures, and labels in the order of their keys, which read the same.
\<close>

lemma slo_and_class_json_roundtrip:
  assumes "meta_ok M"
    and "in_int32 (maxDisruptionsPerHour slo)" and "in_int32 (minReadySeconds slo)" and "wf_map (protectedLabels slo)"
    and "in_int32 (class_weight cls)" and "wf_map (class_labels cls)"
    and "enc_struct WorkloadSLOSpec_fields slo = Inr j" and "enc_struct (NodeClassSpec_fields M) cls = Inr j'"
  shows "dec_struct WorkloadSLOSpec_fields j \<lparr>slo_namespace = slo_namespace slo, maxDisruptionsPerHour = 0,
        minReadySeconds = 0, allowStatefulSetEviction = False, protectedLabels = []\<rparr>
      = Inr (slo\<lparr>protectedLabels := sorted_map (protectedLabels slo)\<rparr>)
    \<and> dec_struct (NodeClassSpec_fields M) j' \<lparr>class_name = class_name cls, class_labels = [], class_expressions = [],
        preferredFor = [], class_weight = 0\<rparr>
      = Inr (cls\<lparr>class_labels := sorted_map (class_labels cls)\<rparr>)
    \<and> map_of (sorted_map (protectedLabels slo)) = map_of (protectedLabels slo)
    \<and> map_of (sorted_map (class_labels cls)) = map_of (class_labels cls)"
  using json_codec.dec_enc [OF WorkloadSLOSpec_codec [of "slo_namespace slo"], of slo j]
    json_codec.dec_enc [OF NodeClassSpec_codec [OF assms(1), of "class_name cls"], of cls j']
    assms(2-8) map_of_sorted_map
  by simp

subsection \<open>A concrete API machinery\<close>

text \<open>
  Encodings that keep the contract \<open>meta_ok\<close>: a duration as its nanoseconds or the text \<open>15m\<close>, a time as
  its seconds, a selector and a requirement by the tags of their fields.
\<close>

definition plain_requirement_fields :: "selector_req json_field list" where
  "plain_requirement_fields =
     [string_field ''key'' req_key req_key_update, string_field ''operator'' req_operator req_operator_update,
      strings_field ''values'' req_values req_values_update]"

definition plain_selector_fields :: "label_selector json_field list" where
  "plain_selector_fields =
     [labels_field ''matchLabels'' sel_labels sel_labels_update,
      field ''matchExpressions'' (\<lambda>xs. xs = []) (enc_slice (enc_struct plain_requirement_fields))
        (dec_slice (dec_struct plain_requirement_fields) empty_requirement) [] (map id) sel_expressions sel_expressions_update]"

definition plain_meta_fields :: "(string \<times> int) json_field list" where
  "plain_meta_fields = [string_field ''name'' fst apfst, int_field in_int64 ''generation'' snd apsnd]"

fun plain_dec_time :: "json \<Rightarrow> gotime \<Rightarrow> err + gotime" where
  "plain_dec_time (JInt n) old = Inr (n * second)"
| "plain_dec_time j old = Inr old"

definition plain_codecs :: meta_codecs where
  "plain_codecs = \<lparr>enc_duration = enc_int,
     dec_duration = (\<lambda>j old. if j = JString ''15m'' then Inr (15 * minute) else dec_int in_int64 j old),
     enc_time = (\<lambda>t. Inr (JInt (t div second))), dec_time = plain_dec_time,
     enc_selector = enc_struct plain_selector_fields, dec_selector = dec_struct plain_selector_fields,
     enc_requirement = enc_struct plain_requirement_fields, dec_requirement = dec_struct plain_requirement_fields,
     enc_meta = enc_struct plain_meta_fields, dec_meta = dec_struct plain_meta_fields\<rparr>"

lemma plain_requirement_codec:
  "json_codec (enc_struct plain_requirement_fields) (dec_struct plain_requirement_fields) empty_requirement id (\<lambda>_. True)"
proof (rule json_codec_cong [OF struct_codec])
  show "list_all (sound_field (\<lambda>_. True)) plain_requirement_fields"
    by (simp add: plain_requirement_fields_def sound_fields)
qed (auto simp: plain_requirement_fields_def independent_def field_kind_defs field_def empty_requirement_def copied_def)

lemma plain_selector_codec:
  "json_codec (enc_struct plain_selector_fields) (dec_struct plain_selector_fields) empty_selector kept_selector
     (\<lambda>s. wf_map (sel_labels s))"
proof (rule json_codec_cong [OF struct_codec])
  show "list_all (sound_field (\<lambda>s. wf_map (sel_labels s))) plain_selector_fields"
    unfolding plain_selector_fields_def list.pred_inject
    by (intro conjI TrueI sound_fields sound_fieldI [OF json_codec.slice_codec [OF plain_requirement_codec]])
       (simp_all add: list_all_iff)
qed (auto simp: plain_selector_fields_def independent_def field_kind_defs field_def empty_selector_def copied_def kept_selector_def)

lemma plain_meta_codec:
  "json_codec (enc_struct plain_meta_fields) (dec_struct plain_meta_fields) ([], 0) id (\<lambda>(n, g). in_int64 g)"
proof (rule json_codec_cong [OF struct_codec])
  show "list_all (sound_field (\<lambda>(n, g). in_int64 g)) plain_meta_fields"
    unfolding plain_meta_fields_def list.pred_inject by (intro conjI TrueI sound_fields) auto
qed (auto simp: plain_meta_fields_def independent_def field_kind_defs field_def copied_def)

lemma plain_codecs_ok: "meta_ok plain_codecs"
  unfolding meta_ok_def
proof (intro conjI)
  show "json_codec (enc_duration plain_codecs) (dec_duration plain_codecs) 0 id in_int64"
    by unfold_locales (auto simp: plain_codecs_def enc_int_def)
  show "json_codec (enc_time plain_codecs) (dec_time plain_codecs) 0 whole_seconds valid_time"
    by unfold_locales (auto simp: plain_codecs_def whole_seconds_def)
qed (simp_all add: plain_codecs_def plain_requirement_codec plain_selector_codec plain_meta_codec)

lemma plain_codecs_encode: "meta_encodes plain_codecs"
proof -
  have "encodes (enc_struct plain_requirement_fields r)" for r
    by (simp add: plain_requirement_fields_def field_kind_defs list_all_iff)
  then show ?thesis
    by (simp add: meta_encodes_def plain_codecs_def plain_selector_fields_def plain_meta_fields_def field_kind_defs list_all_iff
        encodes_def [of "Inr j" for j])
qed

definition json_policy :: policy where
  "json_policy = zero_policy\<lparr>policy_name := ''p'', policy_generation := 7,
     policy_spec := zero_policy_spec\<lparr>hotThreshold := Fin (3 / 4), maxEvictionsPerMinute := 2\<rparr>,
     policy_status := zero_status\<lparr>observedGeneration := 6\<rparr>\<rparr>"

lemma json_policy_valid: "valid_policy json_policy" "finite_floats (policy_floats json_policy)"
  by (simp_all add: valid_policy_def valid_spec_def valid_status_def valid_plan_status_def json_policy_def zero_policy_def
      zero_policy_spec_def zero_status_def zero_plan_status_def in_int64_def finite_floats_def policy_floats_def)

theorem policy_json_roundtrip_witness:
  "\<exists>j. enc_struct (RebalancePolicy_fields plain_codecs) json_policy = Inr j
     \<and> dec_struct (RebalancePolicy_fields plain_codecs) j zero_policy = Inr json_policy"
proof -
  have "kept_policy json_policy = json_policy"
    by (simp add: kept_policy_def kept_spec_def kept_status_def kept_plan_status_def json_policy_def zero_policy_def
        zero_policy_spec_def zero_status_def zero_plan_status_def)
  with policy_json_roundtrip [OF plain_codecs_ok plain_codecs_encode json_policy_valid(1)] json_policy_valid(2)
  show ?thesis by simp
qed

end
