(* ===== verification/StatusPatch.thy ===== *)
theory StatusPatch
  imports Reconcile ApiJson
begin

text \<open>
  The status update of a reconciliation on the wire. The client sends the difference between the JSON of
  the policy it read and the JSON of the policy with its new status (\<open>client.MergeFrom\<close>), so both have to
  be encoded, and a float that is not finite would make every update fail. The lemmas show that within
  bounds on what the cluster reports this never happens, and that the two documents differ in the status
  only, so that the spec is not touched by an update.
\<close>

lemma patch_mem: "PatchStatus old new \<in> set fx \<Longrightarrow> new \<in> set (patches fx)"
  by (induction fx) (auto simp: patches_def List.map_filter_def)

lemma updateStatus_effects:
  "PatchStatus original updated \<in> set (out_effects (updateStatus E p io pol pln n d)) \<Longrightarrow>
   original = pol \<and> policy_spec updated = policy_spec pol \<and> policy_meta updated = policy_meta pol
   \<and> st_variance (status_plan (policy_status updated)) = stat_variance (plan_stats pln)"
  by (simp add: updateStatus_def policy_meta_def)

lemma no_patch: "patches fx = [] \<Longrightarrow> PatchStatus original updated \<notin> set fx"
  using patch_mem by fastforce

lemma Reconcile_patch:
  assumes "Reconcile E p io pl = (out, pl')" and "PatchStatus original updated \<in> set (out_effects out)"
  obtains snap pln snap' pl1 where "io_policy io = Inr original"
    and "Snapshot E (0 # p) (io_reads io) pl = Inr snap"
    and "Plan E (1 # p) pl snap (policy_spec original) = (pln, snap', pl1)"
    and "policy_spec updated = policy_spec original" and "policy_meta updated = policy_meta original"
    and "st_variance (status_plan (policy_status updated)) = stat_variance (plan_stats pln)"
  using assms(1)
proof (cases rule: Reconcile_cases)
  case (dry pol snap pln snap')
  have "patches (map Metric (publish E p snap' pln) @ dryRun_loop (plan_evictions pln)) = []" by simp
  from no_patch [OF this] have "PatchStatus original updated
      \<in> set (out_effects (updateStatus E (4 # p) io pol pln 0 (plan_requeueAfter pln)))"
    using assms(2) dry(5) by auto
  from updateStatus_effects [OF this] show ?thesis using that [OF _ dry(2)] dry(1,3) by auto
next
  case (live pol snap pln snap' pl1 fx executed throttled)
  have "patches fx = []" using execute_loop_spec [OF live(5)] by blast
  then have "patches (map Metric (publish E p snap' pln) @ fx) = []" by simp
  from no_patch [OF this] have "PatchStatus original updated
      \<in> set (out_effects (updateStatus E (4 # p) io pol pln executed (plan_requeueAfter pln)))"
    using assms(2) live(6) by (auto split: if_splits)
  from updateStatus_effects [OF this] show ?thesis using that [OF _ live(2)] live(1,3) by auto
qed (use assms(2) in simp_all)

subsection \<open>The variance of a plan is a number\<close>

text \<open>
  What the cluster reports is within bounds: fewer than 2^53 cores in use on a node and fewer than 2^53
  nodes, and integers of 64 bits, which is all their types allow.
\<close>

definition reports_within :: "'z kube_env_scheme \<Rightarrow> usage gomap \<Rightarrow> node list \<Rightarrow> bool" where
  "reports_within E us nodes \<longleftrightarrow>
     list_all (\<lambda>u. magnitude 53 (cpuCores u) \<and> in_int64 (memoryBytes u)) (map snd us)
   \<and> list_all (\<lambda>n. in_int64 (cpu_milli E (node_allocatable n)) \<and> in_int64 (mem_value E (node_allocatable n))) nodes
   \<and> length nodes \<le> 2 ^ 53"

lemma magnitude_defaultWeights:
  assumes "magnitude 128 (weight_cpu w)" and "magnitude 128 (weight_memory w)"
  shows "magnitude 128 (weight_cpu (defaultWeights w))" and "magnitude 128 (weight_memory (defaultWeights w))"
proof -
  have "magnitude 128 (fl (7 / 10))" "magnitude 128 (fl (3 / 10))"
    by (rule magnitude_fl; simp)+
  with assms show "magnitude 128 (weight_cpu (defaultWeights w))" and "magnitude 128 (weight_memory (defaultWeights w))"
    by (simp_all add: defaultWeights_def)
qed

lemma planned_variance_finite:
  assumes env: "go_runtime E" and snap: "Snapshot E q rd pl = Inr snap"
    and rd: "rd_nodeMetrics rd = Inr us" "rd_nodes rd = Inr nodes" and within: "reports_within E us nodes"
    and w: "magnitude 128 (weight_cpu (resourceWeights spec))" "magnitude 128 (weight_memory (resourceWeights spec))"
    and plan: "Plan E r pl snap spec = (pln, snap', pl')"
  shows "finite_float (stat_variance (plan_stats pln))"
proof -
  let ?weights = "defaultWeights (resourceWeights spec)"
  obtain nodes' hot cold util where cls: "classifyNodes E (0 # r) (snap_nodes snap) ?weights spec = (nodes', hot, cold, util)"
    by (metis prod_cases4)
  have wf: "wf_nodes (snap_nodes snap)" by (rule planned_wf [OF env snap])
  note util = classify_util [OF env wf cls] and wf_util = classify_wf [OF env wf cls, THEN conjunct2]
  have node: "magnitude 192 (util_weighted (nodeUtilization E ?weights st))" if "map_of (snap_nodes snap) k = Some st" for k st
  proof -
    note of = snap_node_of [OF env snap rd that]
    have "magnitude 53 (cpuCores (ns_usage st)) \<and> in_int64 (memoryBytes (ns_usage st))"
      using usage_at_all [of "\<lambda>u. magnitude 53 (cpuCores u) \<and> in_int64 (memoryBytes u)" us k] within of
      by (simp add: reports_within_def zero_usage_def in_int64_def)
    moreover have "in_int64 (cpu_milli E (node_allocatable (ns_object st))) \<and> in_int64 (mem_value E (node_allocatable (ns_object st)))"
      using within of by (auto simp: reports_within_def list_all_iff)
    ultimately show ?thesis
      using nodeUtilization_magnitude [of st E 128 ?weights] magnitude_defaultWeights [OF w] by simp
  qed
  have "magnitude 192 v" if "(k, v) \<in> set util" for k v
    using util [of k] wf_map_map_of_SomeI [OF wf_util that] node by (cases "map_of (snap_nodes snap) k") simp_all
  then have vals: "list_all (magnitude 192) (map snd util)" by (auto simp: list_all_iff)
  have "fst ` set util \<subseteq> node_name ` set nodes"
  proof
    fix k assume "k \<in> fst ` set util"
    then obtain v where "map_of util k = Some v" by (metis map_of_eq_None_iff not_None_eq)
    then obtain st where "map_of (snap_nodes snap) k = Some st" using util [of k] by auto
    from snap_node_of [OF env snap rd this] show "k \<in> node_name ` set nodes" by auto
  qed
  then have "card (fst ` set util) \<le> card (node_name ` set nodes)" by (intro card_mono) simp_all
  also have "\<dots> \<le> length nodes" by (rule order_trans [OF card_image_le card_length]) simp
  finally have "length util \<le> length nodes"
    using wf_util distinct_card [of "map fst util"] by (simp add: wf_map_def)
  then have "length util \<le> 2 ^ 53" using within by (simp add: reports_within_def)
  then have "magnitude (2 * Suc 192) (computeVariance E (1 # r) util)"
    by (intro computeVariance_magnitude [OF env wf_util vals]) simp_all
  then have "finite_float (computeVariance E (1 # r) util)" by (rule finite_magnitude)
  moreover have "stat_variance (plan_stats pln) = computeVariance E (1 # r) util"
    using plan cls by (cases rule: Plan_cases) (simp_all add: plan_stats_of_def)
  ultimately show ?thesis by simp
qed

subsection \<open>The documents of an update\<close>

text \<open>
  C15: a status update can always be sent, and touches the status only. While the policy read is one that
  JSON can hold and what the cluster reports is within bounds, both documents of the update are encoded,
  their metadata and their spec are the same, and the new one, read back, is the updated policy.
\<close>

theorem status_update_encodes:
  assumes "go_runtime E" and "Reconcile E p io pl = (out, pl')"
    and "PatchStatus original updated \<in> set (out_effects out)"
    and "rd_nodeMetrics (io_reads io) = Inr us" and "rd_nodes (io_reads io) = Inr nodes" and "reports_within E us nodes"
    and "magnitude 128 (weight_cpu (resourceWeights (policy_spec original)))"
    and "magnitude 128 (weight_memory (resourceWeights (policy_spec original)))"
    and "finite_floats (policy_floats original)" and "meta_ok M" and "meta_encodes M"
  shows "\<exists>a b. enc_struct (RebalancePolicy_fields M) original = Inr (JObject a)
    \<and> enc_struct (RebalancePolicy_fields M) updated = Inr (JObject b)
    \<and> map_of a ''metadata'' = map_of b ''metadata'' \<and> map_of a ''spec'' = map_of b ''spec''
    \<and> (valid_policy updated \<longrightarrow> dec_struct (RebalancePolicy_fields M) (JObject b) zero_policy = Inr (kept_policy updated))"
proof -
  let ?fs = "RebalancePolicy_fields M"
  from assms(2,3) obtain snap pln snap' pl1 where snap: "Snapshot E (0 # p) (io_reads io) pl = Inr snap"
    and plan: "Plan E (1 # p) pl snap (policy_spec original) = (pln, snap', pl1)"
    and same: "policy_spec updated = policy_spec original" "policy_meta updated = policy_meta original"
    and var: "st_variance (status_plan (policy_status updated)) = stat_variance (plan_stats pln)"
    by (rule Reconcile_patch)
  have "finite_float (stat_variance (plan_stats pln))"
    by (rule planned_variance_finite [OF assms(1) snap assms(4-8) plan])
  then have "finite_floats (policy_floats updated)"
    using assms(9) same(1) var by (simp add: finite_floats_def policy_floats_def)
  then have "encodes (enc_struct ?fs original)" "encodes (enc_struct ?fs updated)"
    using policy_encodes [OF assms(11)] assms(9) by blast+
  then obtain a b where a: "enc_fields ?fs original = Inr a" and b: "enc_fields ?fs updated = Inr b"
    by (auto simp: encodes_def enc_struct_def elim!: attempt_InrE simp del: encodes_struct)
  then have enc: "enc_struct ?fs original = Inr (JObject a)" "enc_struct ?fs updated = Inr (JObject b)"
    by (simp_all add: enc_struct_def)
  have dist: "distinct (map jf_name ?fs)" by (simp add: RebalancePolicy_fields_def)
  have "map_of a (jf_name f) = map_of b (jf_name f)" if "f \<in> {?fs ! 0, ?fs ! 1}" for f
    using that enc_fields_member [OF a dist, of f] enc_fields_member [OF b dist, of f] same
    by (auto simp: RebalancePolicy_fields_def)
  from this [of "?fs ! 0"] this [of "?fs ! 1"]
  have "map_of a ''metadata'' = map_of b ''metadata''" "map_of a ''spec'' = map_of b ''spec''"
    by (simp_all add: RebalancePolicy_fields_def)
  moreover have "dec_struct ?fs (JObject b) zero_policy = Inr (kept_policy updated)" if "valid_policy updated"
    by (rule json_codec.dec_enc [OF RebalancePolicy_codec [OF assms(10)] that enc(2)])
  ultimately show ?thesis using enc by blast
qed

theorem status_update_encodes_witness:
  "\<exists>out pl' updated b. Reconcile (plain_env 0) [] (example_io None) (New 0) = (out, pl')
     \<and> PatchStatus example_policy updated \<in> set (out_effects out)
     \<and> enc_struct (RebalancePolicy_fields plain_codecs) updated = Inr (JObject b)"
proof -
  obtain out pl' where run: "Reconcile (plain_env 0) [] (example_io None) (New 0) = (out, pl')" by fastforce
  obtain pln snap' pl1 where plan: "Plan (plain_env 0) [1] (New 0) example_cluster (policy_spec example_policy) = (pln, snap', pl1)"
    and evs: "plan_evictions pln = [example_eviction\<lparr>ev_allowed := True\<rparr>]" by (rule example_run)
  have "\<exists>updated. PatchStatus example_policy updated \<in> set (out_effects out)"
    using run
  proof (cases rule: Reconcile_cases)
    case (live pol snap pln' snap'' pl2 fx executed throttled)
    then have same: "pol = example_policy" "snap = example_cluster" "pln' = pln"
      using plan by (simp_all add: example_snapshot)
    have "\<not> throttled"
      using execute_loop_spec [OF live(5)] by (simp add: same evs throttles_def Evict_def)
    then show ?thesis using live(6) same by (simp add: updateStatus_def) blast
  qed (auto simp: example_snapshot)
  then obtain updated where patch: "PatchStatus example_policy updated \<in> set (out_effects out)" by blast
  let ?us = "[(''busy'', zero_usage\<lparr>cpuCores := Fin (7 / 2), memoryBytes := 4096\<rparr>),
      (''idle'', zero_usage\<lparr>cpuCores := Fin (1 / 2), memoryBytes := 1024\<rparr>)]"
    and ?nodes = "[ns_object (example_node_state ''busy'' 0 0), ns_object (example_node_state ''idle'' 0 0)]"
  have rd: "rd_nodeMetrics (io_reads (example_io None)) = Inr ?us" "rd_nodes (io_reads (example_io None)) = Inr ?nodes"
    by (simp_all add: example_cluster_reads_def)
  have small: "magnitude 53 (Fin (7 / 2))" "magnitude 53 (Fin (1 / 2))" by (simp_all add: magnitude_Fin)
  have within: "reports_within (plain_env 0) ?us ?nodes"
    using small by (simp add: reports_within_def in_int64_def)
  show ?thesis
    using status_update_encodes [OF go_runtime_plain_env run patch rd within _ _ _ plain_codecs_ok plain_codecs_encode] run patch
    by (auto simp: example_policy_def example_spec_def magnitude_Fin finite_floats_def policy_floats_def)
qed

end
