(* ===== verification/Defaults.thy ===== *)
theory Defaults
  imports ApiJson
begin

text \<open>
  The markers of the policy type (\<open>api/v1/rebalancepolicy_types.go\<close>): the default of each field and the
  bounds the schema puts on it, as they are in the resource definition. The API server is not part of the
  repository: it is a function from the JSON object a client writes to the object it stores, if it accepts
  it, and \<open>schema_store\<close> states what is documented of one that has this schema.

  The lemmas show what a policy written by a Go client is once it is stored.
\<close>

subsection \<open>The schema\<close>

text \<open>The defaults the markers on the fields of the spec give to the members of the JSON object.\<close>

definition crd_defaults :: "(string \<times> json) list" where
  "crd_defaults =
     [(''targetVariance'', projr (enc_float (fl (15 / 100)))), (''hotThreshold'', projr (enc_float (fl (8 / 10)))),
      (''coldThreshold'', projr (enc_float (fl (5 / 10)))), (''hysteresis'', projr (enc_float (fl (5 / 100)))),
      (''maxEvictionsPerMinute'', JInt 3),
      (''resourceWeights'', JObject [(''cpu'', projr (enc_float (fl (7 / 10)))), (''memory'', projr (enc_float (fl (3 / 10))))]),
      (''respectPodPriority'', JBool True), (''respectPDB'', JBool True), (''dryRun'', JBool True),
      (''backoffDuration'', JString ''15m'')]"

text \<open>The least and the greatest value of each number; \<open>PInf\<close> where the markers give no maximum.\<close>

definition crd_bounds :: "(string \<times> float64 \<times> float64) list" where
  "crd_bounds =
     [(''targetVariance'', Fin 0, Fin 1), (''hotThreshold'', Fin 0, Fin 1), (''coldThreshold'', Fin 0, Fin 1),
      (''hysteresis'', Fin 0, fl (2 / 10)), (''maxEvictionsPerMinute'', Fin 0, PInf),
      (''maxEvictionsPerNamespace'', Fin 0, PInf)]"

fun json_within :: "float64 \<Rightarrow> float64 \<Rightarrow> json \<Rightarrow> bool" where
  "json_within lo hi (JFloat a) \<longleftrightarrow> fle lo (Fin a) \<and> fle (Fin a) hi"
| "json_within lo hi (JInt n) \<longleftrightarrow> fle lo (float_of_int n) \<and> fle (float_of_int n) hi"
| "json_within lo hi j \<longleftrightarrow> True"

definition schema_accepts :: "(string \<times> json) list \<Rightarrow> bool" where
  "schema_accepts kvs \<longleftrightarrow>
     list_all (\<lambda>(k, lo, hi). case map_of kvs k of None \<Rightarrow> True | Some j \<Rightarrow> json_within lo hi j) crd_bounds"

text \<open>
  What is documented of a server with this schema: in the object it stores every member the client
  wrote is as it was, the members that were missing have their defaults, in any order, and the result is
  within the bounds. It may turn down an object for any further reason.
\<close>

definition schema_store :: "(json \<Rightarrow> json option) \<Rightarrow> bool" where
  "schema_store store \<longleftrightarrow>
     (\<forall>kvs stored. distinct (map fst kvs) \<longrightarrow> store (JObject kvs) = Some stored \<longrightarrow>
        (\<exists>kvs'. stored = JObject kvs' \<and> distinct (map fst kvs') \<and> schema_accepts kvs'
           \<and> (\<forall>k. map_of kvs' k = (case map_of kvs k of None \<Rightarrow> map_of crd_defaults k | Some j \<Rightarrow> Some j))))"

subsection \<open>Decoding does not depend on the order of the members\<close>

definition commuting :: "'s json_field \<Rightarrow> 's json_field \<Rightarrow> bool" where
  "commuting f g \<longleftrightarrow> (\<forall>j j' s t u. jf_dec f j s = Inr t \<longrightarrow> jf_dec g j' t = Inr u \<longrightarrow>
     (\<exists>t'. jf_dec g j' s = Inr t' \<and> jf_dec f j t' = Inr u))"

lemma commuting_field:
  assumes "\<And>v s. get1 (upd2 (\<lambda>_. v) s) = get1 s" and "\<And>v s. get2 (upd1 (\<lambda>_. v) s) = get2 s"
    and "\<And>v w s. upd1 (\<lambda>_. v) (upd2 (\<lambda>_. w) s) = upd2 (\<lambda>_. w) (upd1 (\<lambda>_. v) s)"
  shows "commuting (field n1 o1 e1 d1 z1 k1 get1 upd1) (field n2 o2 e2 d2 z2 k2 get2 upd2)"
  using assms by (auto simp: commuting_def field_def elim!: attempt_InrE)

definition order_free :: "'s json_field list \<Rightarrow> bool" where
  "order_free fs \<longleftrightarrow> sorted_wrt (\<lambda>f g. commuting f g \<and> commuting g f) fs"

lemma order_free_commuting:
  assumes "order_free fs" and "f \<in> set fs" and "g \<in> set fs" and "f \<noteq> g"
  shows "commuting f g"
proof -
  obtain i j where ij: "i < length fs" "j < length fs" "f = fs ! i" "g = fs ! j" using assms(2,3) by (metis in_set_conv_nth)
  with assms(4) have "i < j \<or> j < i" by (metis linorder_neqE_nat)
  with ij assms(1) show ?thesis by (auto simp: order_free_def sorted_wrt_iff_nth_less)
qed

lemma dec_fields_swap:
  assumes "order_free fs" and "k \<noteq> k'" and dec: "dec_fields fs ((k, j) # (k', j') # kvs) s = Inr u"
  shows "dec_fields fs ((k', j') # (k, j) # kvs) s = Inr u"
proof (cases "find (\<lambda>f. jf_name f = k) fs"; cases "find (\<lambda>f. jf_name f = k') fs")
  fix f g
  assume f: "find (\<lambda>f. jf_name f = k) fs = Some f" and g: "find (\<lambda>f. jf_name f = k') fs = Some g"
  then have "f \<in> set fs" "g \<in> set fs" "f \<noteq> g" using assms(2) by (auto simp: find_Some_iff)
  with order_free_commuting [OF assms(1)] have "commuting f g" by blast
  moreover from dec obtain t t2 where "jf_dec f j s = Inr t" "jf_dec g j' t = Inr t2" "dec_fields fs kvs t2 = Inr u"
    by (auto simp: f g elim!: attempt_InrE)
  ultimately obtain t' where "jf_dec g j' s = Inr t'" "jf_dec f j t' = Inr t2" unfolding commuting_def by blast
  with \<open>dec_fields fs kvs t2 = Inr u\<close> show ?thesis by (simp add: f g)
qed (use dec in \<open>auto elim!: attempt_InrE\<close>)

lemma dec_fields_ConsI:
  assumes "dec_fields fs (x # kvs) s = Inr u" and "\<And>t. dec_fields fs kvs t = Inr u \<Longrightarrow> dec_fields fs kvs' t = Inr u"
  shows "dec_fields fs (x # kvs') s = Inr u"
  using assms by (cases x) (auto split: option.splits elim!: attempt_InrE)

lemma dec_fields_move:
  "order_free fs \<Longrightarrow> fst x \<notin> fst ` set as \<Longrightarrow> dec_fields fs (x # as @ bs) s = Inr u \<Longrightarrow> dec_fields fs (as @ x # bs) s = Inr u"
proof (induction as arbitrary: s)
  case (Cons a as)
  have "dec_fields fs (a # x # as @ bs) s = Inr u"
    using dec_fields_swap [OF Cons.prems(1), of "fst x" "fst a" "snd x" "snd a" "as @ bs" s u] Cons.prems(2,3) by simp
  then show ?case using Cons.IH [OF Cons.prems(1)] Cons.prems(2) by (auto intro: dec_fields_ConsI)
qed simp

lemma dec_fields_permute:
  "order_free fs \<Longrightarrow> mset xs = mset ys \<Longrightarrow> distinct (map fst xs) \<Longrightarrow> dec_fields fs xs s = Inr u \<Longrightarrow> dec_fields fs ys s = Inr u"
proof (induction xs arbitrary: ys s)
  case (Cons x xs)
  then have "x \<in> set ys" by (metis list.set_intros(1) mset_eq_setD)
  then obtain as bs where ys: "ys = as @ x # bs" by (meson split_list)
  then have perm: "mset xs = mset (as @ bs)" using Cons.prems(2) by simp
  then have "set as \<subseteq> set xs" by (metis mset_eq_setD set_append Un_upper1)
  then have "fst x \<notin> fst ` set as" using Cons.prems(3) by auto
  moreover have "dec_fields fs (x # as @ bs) s = Inr u"
    using dec_fields_ConsI [OF Cons.prems(4)] Cons.IH [OF Cons.prems(1) perm] Cons.prems(3) by simp
  ultimately show ?case unfolding ys by (rule dec_fields_move [OF Cons.prems(1)])
qed simp

lemma map_of_permute:
  assumes "distinct (map fst xs)" and "distinct (map fst ys)" and "map_of xs = map_of ys"
  shows "mset xs = mset ys"
proof -
  have "set xs = set ys"
    using assms by (metis map_of_eq_Some_iff subset_antisym subrelI)
  then show ?thesis using assms(1,2) by (simp add: set_eq_iff_mset_eq_distinct distinct_map)
qed

lemma spec_order_free: "order_free (RebalancePolicySpec_fields M)"
  unfolding order_free_def RebalancePolicySpec_fields_def field_kind_defs sorted_wrt.simps list.set ball_simps
  by (intro conjI TrueI commuting_field) simp_all

lemma enc_fields_distinct: "enc_fields fs x = Inr kvs \<Longrightarrow> distinct (map jf_name fs) \<Longrightarrow> distinct (map fst kvs)"
proof (induction fs arbitrary: kvs)
  case (Cons f fs)
  from Cons.prems(1) show ?case
  proof (cases rule: enc_fields_ConsE)
    case omitted
    with Cons show ?thesis by simp
  next
    case (kept j kvs')
    have "jf_name f \<notin> fst ` set kvs'" using enc_fields_names [OF kept(3)] Cons.prems(2) by auto
    moreover have "distinct (map fst kvs')" using Cons.IH [OF kept(3)] Cons.prems(2) by simp
    ultimately show ?thesis by (simp add: kept(4))
  qed
qed simp

lemma map_of_missing:
  "map_of (filter (\<lambda>(k, j). map_of kvs k = None) ds) k = (if map_of kvs k = None then map_of ds k else None)"
  by (induction ds) auto

subsection \<open>What is stored\<close>

definition with_defaults :: "policy_spec \<Rightarrow> policy_spec" where
  "with_defaults s = s\<lparr>
     targetVariance := (if targetVariance s = Fin 0 then fl (15 / 100) else targetVariance s),
     hotThreshold := (if hotThreshold s = Fin 0 then fl (8 / 10) else hotThreshold s),
     coldThreshold := (if coldThreshold s = Fin 0 then fl (5 / 10) else coldThreshold s),
     hysteresis := (if hysteresis s = Fin 0 then fl (5 / 100) else hysteresis s),
     maxEvictionsPerMinute := (if maxEvictionsPerMinute s = 0 then 3 else maxEvictionsPerMinute s),
     respectPodPriority := True, respectPDB := True, dryRun := True,
     backoffDuration := (if backoffDuration s = None then Some (15 * minute) else backoffDuration s)\<rparr>"

definition spec_in_bounds :: "policy_spec \<Rightarrow> bool" where
  "spec_in_bounds s \<longleftrightarrow>
     list_all (\<lambda>x. fle (Fin 0) x \<and> fle x (Fin 1)) [targetVariance s, hotThreshold s, coldThreshold s]
   \<and> fle (Fin 0) (hysteresis s) \<and> fle (hysteresis s) (fl (2 / 10))
   \<and> 0 \<le> maxEvictionsPerMinute s \<and> 0 \<le> maxEvictionsPerNamespace s"

lemma dec_fields_append:
  "dec_fields fs (kvs @ kvs') s = attempt id (dec_fields fs kvs s) (dec_fields fs kvs')"
proof (induction kvs arbitrary: s)
  case (Cons kv kvs)
  obtain k j where kv: "kv = (k, j)" by (cases kv)
  show ?case
  proof (cases "find (\<lambda>f. jf_name f = k) fs")
    case (Some f)
    with Cons show ?thesis by (cases "jf_dec f j s") (simp_all add: kv)
  qed (use Cons in \<open>simp add: kv\<close>)
qed simp

text \<open>One default: it is decoded into its field if its member was left out.\<close>

lemma dec_default:
  assumes "find (\<lambda>f. jf_name f = k) fs = Some (field k omit enc dec zero kept get upd)"
    and "dec j (get s) = Inr v" and "upd (\<lambda>x. x) s = s"
  shows "dec_fields fs (filter P ((k, j) # ds)) s = dec_fields fs (filter P ds) (upd (\<lambda>x. if P (k, j) then v else x) s)"
  using assms by (cases "P (k, j)") (simp_all add: field_def)

lemma dec_default_skip: "\<not> P (k, j) \<Longrightarrow> dec_fields fs (filter P ((k, j) # ds)) s = dec_fields fs (filter P ds) s"
  by simp

lemma default_floats:
  obtains a b c d where "fl (15 / 100) = Fin a" and "fl (8 / 10) = Fin b" and "fl (5 / 10) = Fin c" and "fl (5 / 100) = Fin d"
proof -
  have "magnitude 1 (fl (15 / 100))" "magnitude 1 (fl (8 / 10))" "magnitude 1 (fl (5 / 10))" "magnitude 1 (fl (5 / 100))"
    by (rule magnitude_fl; simp)+
  with that show ?thesis by (auto simp: magnitude_def)
qed

lemma float_of_int_nonneg: "fle (Fin 0) (float_of_int n) \<Longrightarrow> 0 \<le> n"
proof (rule ccontr)
  assume "fle (Fin 0) (float_of_int n)" "\<not> 0 \<le> n"
  then have "fle (float_of_int n) (float_of_int (- 1))" by (intro float_of_int_mono) simp
  with \<open>fle (Fin 0) (float_of_int n)\<close> have "fle (Fin 0) (float_of_int (- 1))" by (rule fle_trans)
  moreover have "fl (- 1) = Fin (- 1)" using fl_uminus [of 1] by simp
  ultimately show False by (simp add: float_of_int_def)
qed

text \<open>The members a client writes for its zero values, and the defaults in their place.\<close>

lemma written_member:
  assumes "enc_fields (RebalancePolicySpec_fields M) s = Inr kvs"
  shows "map_of kvs ''targetVariance'' = (if targetVariance s = Fin 0 then None else Some (projr (enc_float (targetVariance s))))"
    "map_of kvs ''hotThreshold'' = (if hotThreshold s = Fin 0 then None else Some (projr (enc_float (hotThreshold s))))"
    "map_of kvs ''coldThreshold'' = (if coldThreshold s = Fin 0 then None else Some (projr (enc_float (coldThreshold s))))"
    "map_of kvs ''hysteresis'' = (if hysteresis s = Fin 0 then None else Some (projr (enc_float (hysteresis s))))"
    "map_of kvs ''maxEvictionsPerMinute'' = (if maxEvictionsPerMinute s = 0 then None else Some (JInt (maxEvictionsPerMinute s)))"
    "map_of kvs ''maxEvictionsPerNamespace'' = (if maxEvictionsPerNamespace s = 0 then None else Some (JInt (maxEvictionsPerNamespace s)))"
    "map_of kvs ''resourceWeights'' \<noteq> None"
    "map_of kvs ''respectPodPriority'' = None \<longleftrightarrow> \<not> respectPodPriority s"
    "map_of kvs ''respectPDB'' = None \<longleftrightarrow> \<not> respectPDB s"
    "map_of kvs ''dryRun'' = None \<longleftrightarrow> \<not> dryRun s"
    "map_of kvs ''backoffDuration'' = None \<longleftrightarrow> backoffDuration s = None"
proof -
  let ?fs = "RebalancePolicySpec_fields M"
  have "distinct (map jf_name ?fs)" by (simp add: RebalancePolicySpec_fields_def field_kind_defs)
  note member = enc_fields_member [OF assms this]
  show "map_of kvs ''targetVariance'' = (if targetVariance s = Fin 0 then None else Some (projr (enc_float (targetVariance s))))"
    "map_of kvs ''hotThreshold'' = (if hotThreshold s = Fin 0 then None else Some (projr (enc_float (hotThreshold s))))"
    "map_of kvs ''coldThreshold'' = (if coldThreshold s = Fin 0 then None else Some (projr (enc_float (coldThreshold s))))"
    "map_of kvs ''hysteresis'' = (if hysteresis s = Fin 0 then None else Some (projr (enc_float (hysteresis s))))"
    "map_of kvs ''maxEvictionsPerMinute'' = (if maxEvictionsPerMinute s = 0 then None else Some (JInt (maxEvictionsPerMinute s)))"
    "map_of kvs ''maxEvictionsPerNamespace'' = (if maxEvictionsPerNamespace s = 0 then None else Some (JInt (maxEvictionsPerNamespace s)))"
    "map_of kvs ''resourceWeights'' \<noteq> None"
    "map_of kvs ''respectPodPriority'' = None \<longleftrightarrow> \<not> respectPodPriority s"
    "map_of kvs ''respectPDB'' = None \<longleftrightarrow> \<not> respectPDB s"
    "map_of kvs ''dryRun'' = None \<longleftrightarrow> \<not> dryRun s"
    "map_of kvs ''backoffDuration'' = None \<longleftrightarrow> backoffDuration s = None"
    using member [of "?fs ! 0"] member [of "?fs ! 1"] member [of "?fs ! 2"] member [of "?fs ! 3"] member [of "?fs ! 4"]
      member [of "?fs ! 7"] member [of "?fs ! 8"] member [of "?fs ! 9"] member [of "?fs ! 10"] member [of "?fs ! 11"]
      member [of "?fs ! 12"]
    by (simp_all add: RebalancePolicySpec_fields_def field_kind_defs feq_zero_iff enc_int_def)
qed

lemma dec_with_defaults:
  assumes "meta_ok M" and "valid_spec s" and "enc_fields (RebalancePolicySpec_fields M) s = Inr kvs"
    and "\<And>old. dec_duration M (JString ''15m'') old = Inr (15 * minute)"
  shows "dec_fields (RebalancePolicySpec_fields M) (kvs @ filter (\<lambda>(k, j). map_of kvs k = None) crd_defaults) zero_policy_spec
    = Inr (with_defaults (kept_spec s))"
proof -
  let ?fs = "RebalancePolicySpec_fields M"
  have "enc_struct ?fs s = Inr (JObject kvs)" by (simp add: enc_struct_def assms(3))
  then have dec: "dec_fields ?fs kvs zero_policy_spec = Inr (kept_spec s)"
    using json_codec.dec_enc [OF RebalancePolicySpec_codec [OF assms(1)] assms(2)] by fastforce
  note [simp] = written_member [OF assms(3)]
  note spec_fields = RebalancePolicySpec_fields_def field_kind_defs
  obtain a b c d where fl: "fl (15 / 100) = Fin a" "fl (8 / 10) = Fin b" "fl (5 / 10) = Fin c" "fl (5 / 100) = Fin d"
    by (rule default_floats)
  have "dec_fields ?fs (filter (\<lambda>(k, j). map_of kvs k = None) crd_defaults) t = Inr (with_defaults t)"
    if t: "t = kept_spec s" for t
    unfolding crd_defaults_def fl enc_float.simps sum.sel
    apply ((subst dec_default, (simp add: spec_fields; fail), (simp add: dec_ptr_def in_int64_def assms(4); fail), (simp; fail))+)
    apply (subst dec_default_skip, simp)
    apply ((subst dec_default, (simp add: spec_fields; fail), (simp add: dec_ptr_def in_int64_def assms(4); fail), (simp; fail))+)
    unfolding with_defaults_def fl filter.simps dec_fields.simps sum.inject
    by (rule policy_spec.equality) (simp_all add: t kept_spec_def)
  then show ?thesis by (simp add: dec_fields_append dec)
qed

lemma accepted_in_bounds:
  assumes "enc_fields (RebalancePolicySpec_fields M) s = Inr kvs" and "schema_accepts kvs'"
    and members: "\<And>k. map_of kvs' k = (case map_of kvs k of None \<Rightarrow> map_of crd_defaults k | Some j \<Rightarrow> Some j)"
  shows "spec_in_bounds (with_defaults (kept_spec s))"
proof -
  note written = written_member [OF assms(1)]
  have "encodes (enc_struct (RebalancePolicySpec_fields M) s)" using assms(1) by (simp add: encodes_def enc_struct_def)
  then have finite: "x = Fin 0 \<or> finite_float x" if "x \<in> {targetVariance s, hotThreshold s, coldThreshold s, hysteresis s}" for x
    using that by (auto simp: RebalancePolicySpec_fields_def field_kind_defs feq_zero_iff)
  have within: "(k, lo, hi) \<in> set crd_bounds \<Longrightarrow> map_of kvs' k = Some j \<Longrightarrow> json_within lo hi j" for k lo hi j
    using assms(2) by (auto simp: schema_accepts_def list_all_iff)
  have float: "fle lo y \<and> fle y hi" if "(k, lo, hi) \<in> set crd_bounds" "x = Fin 0 \<or> finite_float x"
      "map_of kvs k = (if x = Fin 0 then None else Some (projr (enc_float x)))"
      "map_of crd_defaults k = Some (projr (enc_float d))" "d = Fin e" "y = (if x = Fin 0 then d else x)" for k lo hi x d e y
    using within [OF that(1)] that(2-6) members [of k] by (cases x) (auto split: if_splits)
  have int: "0 \<le> n" if "(k, Fin 0, PInf) \<in> set crd_bounds" "map_of kvs k = (if n = 0 then None else Some (JInt n))" for k n
    using within [OF that(1)] that(2) members [of k] float_of_int_nonneg [of n] by (cases "n = 0") auto
  obtain a b c d where fl: "fl (15 / 100) = Fin a" "fl (8 / 10) = Fin b" "fl (5 / 10) = Fin c" "fl (5 / 100) = Fin d"
    by (rule default_floats)
  note bounds = crd_bounds_def crd_defaults_def
  have "fle (Fin 0) (targetVariance (with_defaults s)) \<and> fle (targetVariance (with_defaults s)) (Fin 1)"
    by (rule float [OF _ finite written(1) _ fl(1)]) (simp_all add: bounds with_defaults_def)
  moreover have "fle (Fin 0) (hotThreshold (with_defaults s)) \<and> fle (hotThreshold (with_defaults s)) (Fin 1)"
    by (rule float [OF _ finite written(2) _ fl(2)]) (simp_all add: bounds with_defaults_def)
  moreover have "fle (Fin 0) (coldThreshold (with_defaults s)) \<and> fle (coldThreshold (with_defaults s)) (Fin 1)"
    by (rule float [OF _ finite written(3) _ fl(3)]) (simp_all add: bounds with_defaults_def)
  moreover have "fle (Fin 0) (hysteresis (with_defaults s)) \<and> fle (hysteresis (with_defaults s)) (fl (2 / 10))"
    by (rule float [OF _ finite written(4) _ fl(4)]) (simp_all add: bounds with_defaults_def)
  moreover have "0 \<le> maxEvictionsPerMinute (with_defaults s)"
    using int [OF _ written(5)] by (simp add: bounds with_defaults_def)
  moreover have "0 \<le> maxEvictionsPerNamespace (with_defaults s)"
    using int [OF _ written(6)] by (simp add: bounds with_defaults_def)
  moreover have "with_defaults (kept_spec s) = kept_spec (with_defaults s)" by (simp add: with_defaults_def kept_spec_def)
  ultimately show ?thesis unfolding spec_in_bounds_def by (simp add: kept_spec_def)
qed

text \<open>
  C37: what becomes of a policy written through the typed client, if the server stores it at all. Reading
  the stored object back gives the spec with the defaults wherever it had a zero: a
  threshold of zero, no evictions per minute, a false \<open>respectPDB\<close> do not survive, and a policy that is
  not a dry run becomes one. The weights alone are always written, as \<open>omitempty\<close> has no effect on a
  struct, so their default never applies. What is read back lies within the bounds of the schema.
\<close>

theorem typed_client_defaults:
  assumes "meta_ok M" and "valid_spec s" and "enc_struct (RebalancePolicySpec_fields M) s = Inr j"
    and "\<And>old. dec_duration M (JString ''15m'') old = Inr (15 * minute)"
    and "schema_store store" and "store j = Some stored"
  shows "dec_struct (RebalancePolicySpec_fields M) stored zero_policy_spec = Inr (with_defaults (kept_spec s))
    \<and> spec_in_bounds (with_defaults (kept_spec s))"
proof -
  let ?fs = "RebalancePolicySpec_fields M"
  obtain kvs where kvs: "enc_fields ?fs s = Inr kvs" "j = JObject kvs"
    using assms(3) by (auto simp: enc_struct_def elim!: attempt_InrE)
  have dist: "distinct (map fst kvs)"
    by (rule enc_fields_distinct [OF kvs(1)]) (simp add: RebalancePolicySpec_fields_def field_kind_defs)
  with assms(5,6) obtain kvs' where kvs': "stored = JObject kvs'" "distinct (map fst kvs')" "schema_accepts kvs'"
    and members: "\<And>k. map_of kvs' k = (case map_of kvs k of None \<Rightarrow> map_of crd_defaults k | Some j \<Rightarrow> Some j)"
    unfolding schema_store_def kvs(2) by blast
  let ?missing = "filter (\<lambda>(k, j). map_of kvs k = None) crd_defaults"
  have all: "distinct (map fst (kvs @ ?missing))"
  proof -
    have "distinct (map fst ?missing)"
      by (rule distinct_map_filter) (simp add: crd_defaults_def)
    moreover have "fst ` set kvs \<inter> fst ` set ?missing = {}" by (force simp: map_of_eq_None_iff)
    ultimately show ?thesis using dist by simp
  qed
  have "mset (kvs @ ?missing) = mset kvs'"
    by (rule map_of_permute [OF all kvs'(2)]) (rule ext, simp add: map_add_def map_of_missing members split: option.split)
  from dec_fields_permute [OF spec_order_free this all dec_with_defaults [OF assms(1,2) kvs(1) assms(4)]]
  show ?thesis using accepted_in_bounds [OF kvs(1) kvs'(3) members] by (simp add: kvs'(1))
qed

subsection \<open>A concrete server\<close>

fun plain_store :: "json \<Rightarrow> json option" where
  "plain_store (JObject kvs) =
     (let kvs' = kvs @ filter (\<lambda>(k, j). map_of kvs k = None) crd_defaults in
      if distinct (map fst kvs') \<and> schema_accepts kvs' then Some (JObject kvs') else None)"
| "plain_store j = None"

lemma plain_store_ok: "schema_store plain_store"
  by (auto simp: schema_store_def Let_def map_add_def map_of_missing split: if_splits option.splits)

definition written_spec :: policy_spec where
  "written_spec = zero_policy_spec\<lparr>targetVariance := Fin (1 / 4), hotThreshold := Fin (3 / 4), coldThreshold := Fin (1 / 2),
     hysteresis := Fin (1 / 8), maxEvictionsPerMinute := 2\<rparr>"

theorem typed_client_defaults_witness:
  "\<exists>j stored. enc_struct (RebalancePolicySpec_fields plain_codecs) written_spec = Inr j \<and> plain_store j = Some stored
     \<and> \<not> dryRun written_spec
     \<and> (case dec_struct (RebalancePolicySpec_fields plain_codecs) stored zero_policy_spec of
          Inr s \<Rightarrow> dryRun s \<and> resourceWeights s = zero_weights \<and> hotThreshold s = Fin (3 / 4) | Inl e \<Rightarrow> False)"
proof -
  have valid: "valid_spec written_spec" by (simp add: valid_spec_def written_spec_def zero_policy_spec_def in_int64_def)
  let ?kvs = "[(''targetVariance'', JFloat (1 / 4)), (''hotThreshold'', JFloat (3 / 4)), (''coldThreshold'', JFloat (1 / 2)),
     (''hysteresis'', JFloat (1 / 8)), (''maxEvictionsPerMinute'', JInt 2), (''namespaces'', JObject []),
     (''resourceWeights'', JObject [])]"
  have j: "enc_struct (RebalancePolicySpec_fields plain_codecs) written_spec = Inr (JObject ?kvs)"
    by (simp add: enc_struct_def RebalancePolicySpec_fields_def NamespaceSelector_fields_def ResourceWeights_fields_def
        field_kind_defs field_def written_spec_def zero_policy_spec_def zero_namespaces_def zero_weights_def enc_int_def feq_zero_iff)
  have "fle (fl (1 / 8)) (fl (2 / 10))" by (rule fl_mono) simp
  then have "\<exists>stored. plain_store (JObject ?kvs) = Some stored"
    by (simp add: Let_def schema_accepts_def crd_bounds_def crd_defaults_def)
  then obtain stored where stored: "plain_store (JObject ?kvs) = Some stored" by blast
  have dec: "dec_duration plain_codecs (JString ''15m'') old = Inr (15 * minute)" for old by (simp add: plain_codecs_def)
  from typed_client_defaults [OF plain_codecs_ok valid j dec plain_store_ok stored] j stored
  show ?thesis by (simp add: with_defaults_def kept_spec_def written_spec_def zero_policy_spec_def zero_weights_def del: plain_store.simps)
qed

end
