(* ===== verification/Heap.thy ===== *)
theory Heap
  imports KubeTypes "HOL-Library.Sublist"
begin

text \<open>
  A heap for the methods that copy objects (\<open>DeepCopyInto\<close>, \<open>DeepCopy\<close>): what matters there is which
  memory two objects share, so the custom resources are kept as the structs the program holds, with
  slices, maps and pointers as references into a list of typed cells. An address is an index into the
  list, allocation appends a cell. A slice is an array, an offset and a length; nil is \<open>None\<close>.

  A \<open>shape\<close> reads an object out of a heap: the tree of its value, which tells nil from empty as
  \<open>reflect.DeepEqual\<close> does, the addresses it owns and the ones it borrows (which a copy of it is to
  share). \<open>framed\<close> says that a shape depends on those addresses only; the locale \<open>go_copy\<close> is the
  contract of a copying method, \<open>go_deep_copy\<close> the one without borrowing. The combinators for slices,
  pointers and structs keep both.
\<close>

type_synonym addr = nat

record slice =
  sl_array :: addr
  sl_off :: nat
  sl_len :: nat

subsection \<open>The structs\<close>

text \<open>
  Of the metadata structs of the library, the members the program reads and one that is a reference.
\<close>

record type_meta =
  tm_kind :: string
  tm_apiVersion :: string

record object_meta =
  om_name :: string
  om_namespace :: string
  om_generation :: int
  om_labels :: "addr option"

record list_meta =
  lm_resourceVersion :: string
  lm_remaining :: "addr option"

record requirement_obj =
  ro_key :: string
  ro_operator :: string
  ro_values :: "slice option"

record selector_obj =
  so_labels :: "addr option"
  so_expressions :: "slice option"

record namespaces_obj =
  no_include :: "slice option"
  no_exclude :: "slice option"

record spec_obj =
  sp_targetVariance :: float64
  sp_hotThreshold :: float64
  sp_coldThreshold :: float64
  sp_hysteresis :: float64
  sp_maxPerMinute :: int
  sp_namespaces :: namespaces_obj
  sp_selectors :: "slice option"
  sp_weightCPU :: float64
  sp_weightMemory :: float64
  sp_respectPriority :: bool
  sp_respectPDB :: bool
  sp_dryRun :: bool
  sp_backoff :: "addr option"
  sp_maxPerNamespace :: int
  sp_classPreference :: "slice option"

record plan_obj =
  po_hotNodes :: int
  po_coldNodes :: int
  po_variance :: float64
  po_planned :: int
  po_executed :: int
  po_lastExecution :: "addr option"
  po_dryRun :: bool
  po_message :: string

record status_obj =
  st_generation :: int
  st_plan :: plan_obj

record policy_obj =
  py_type :: type_meta
  py_meta :: object_meta
  py_spec :: spec_obj
  py_status :: status_obj

record class_spec_obj =
  cs_labels :: "addr option"
  cs_expressions :: "slice option"
  cs_preferredFor :: "slice option"
  cs_weight :: int

record class_status_obj =
  ct_nodeCount :: int
  ct_lastSync :: "addr option"

record class_obj =
  cl_type :: type_meta
  cl_meta :: object_meta
  cl_spec :: class_spec_obj
  cl_status :: class_status_obj

record slo_spec_obj =
  ss_maxDisruptions :: int
  ss_minReady :: int
  ss_allowStatefulSet :: bool
  ss_protectedLabels :: "addr option"

record slo_status_obj =
  su_disruptions :: int
  su_windowStart :: "addr option"
  su_lastViolation :: "addr option"
  su_message :: string

record slo_obj =
  sl_type :: type_meta
  sl_meta :: object_meta
  sl_spec :: slo_spec_obj
  sl_status :: slo_status_obj

record list_obj =
  li_type :: type_meta
  li_meta :: list_meta
  li_items :: "slice option"

datatype cell =
    Strings "string list"
  | StrMap labels
  | IntCell int
  | DurationCell duration
  | TimeCell gotime
  | Requirements "requirement_obj list"
  | Selectors "selector_obj list"
  | Policies "policy_obj list"
  | Classes "class_obj list"
  | Slos "slo_obj list"
  | SpecCell spec_obj
  | PlanCell plan_obj
  | StatusCell status_obj
  | PolicyCell policy_obj
  | ClassSpecCell class_spec_obj
  | ClassStatusCell class_status_obj
  | ClassCell class_obj
  | SloSpecCell slo_spec_obj
  | SloStatusCell slo_status_obj
  | SloCell slo_obj
  | PolicyListCell list_obj
  | ClassListCell list_obj
  | SloListCell list_obj

type_synonym heap = "cell list"

subsection \<open>Shapes\<close>

datatype tree =
    TNil
  | TBool bool
  | TInt int
  | TFloat float64
  | TStr string
  | TMap "string \<Rightarrow> string option"
  | TPtr tree
  | TArr "tree list"
  | TStruct "tree list"

type_synonym shape = "heap \<Rightarrow> (tree \<times> addr set \<times> addr set) option"

definition agree :: "addr set \<Rightarrow> heap \<Rightarrow> heap \<Rightarrow> bool" where
  "agree A h h' \<longleftrightarrow> (\<forall>a\<in>A. a < length h' \<and> h' ! a = h ! a)"

definition framed :: "shape \<Rightarrow> bool" where
  "framed s \<longleftrightarrow> (\<forall>h t A B. s h = Some (t, A, B) \<longrightarrow>
     A \<union> B \<subseteq> {..<length h} \<and> (\<forall>h'. agree (A \<union> B) h h' \<longrightarrow> s h' = Some (t, A, B)))"

definition leaf :: "tree \<Rightarrow> shape" where
  "leaf t = (\<lambda>h. Some (t, {}, {}))"

definition collect :: "(tree list \<Rightarrow> tree) \<Rightarrow> addr set \<Rightarrow> shape list \<Rightarrow> shape" where
  "collect node own ss = (\<lambda>h. map_option (\<lambda>rs. (node (map fst rs),
     own \<union> \<Union>(set (map (\<lambda>r. fst (snd r)) rs)), \<Union>(set (map (\<lambda>r. snd (snd r)) rs)))) (those (map (\<lambda>s. s h) ss)))"

definition struct :: "shape list \<Rightarrow> shape" where
  "struct ss = collect TStruct {} ss"

text \<open>The same value, all of it borrowed.\<close>

definition borrow :: "shape \<Rightarrow> shape" where
  "borrow s = (\<lambda>h. map_option (\<lambda>(t, A, B). (t, {}, A \<union> B)) (s h))"

definition ptr :: "(cell \<Rightarrow> 'o option) \<Rightarrow> ('o \<Rightarrow> shape) \<Rightarrow> addr option \<Rightarrow> shape" where
  "ptr get look p = (case p of None \<Rightarrow> leaf TNil | Some a \<Rightarrow> (\<lambda>h.
     if a < length h then case get (h ! a) of
         None \<Rightarrow> None
       | Some x \<Rightarrow> collect (\<lambda>ts. TPtr (hd ts)) {a} [look x] h
     else None))"

definition slice :: "(cell \<Rightarrow> 'o list option) \<Rightarrow> ('o \<Rightarrow> shape) \<Rightarrow> slice option \<Rightarrow> shape" where
  "slice get look s = (case s of None \<Rightarrow> leaf TNil | Some r \<Rightarrow> (\<lambda>h.
     if sl_array r < length h then case get (h ! sl_array r) of
         None \<Rightarrow> None
       | Some xs \<Rightarrow> if sl_off r + sl_len r \<le> length xs
           then collect TArr {sl_array r} (map look (take (sl_len r) (drop (sl_off r) xs))) h else None
     else None))"

subsection \<open>Frames\<close>

lemma agree_Un [simp]: "agree (A \<union> B) h h' \<longleftrightarrow> agree A h h' \<and> agree B h h'"
  by (auto simp: agree_def)

lemma agree_empty [simp]: "agree {} h h'"
  by (simp add: agree_def)

lemma agree_insert [simp]: "agree (insert a A) h h' \<longleftrightarrow> a < length h' \<and> h' ! a = h ! a \<and> agree A h h'"
  by (auto simp: agree_def)

lemma agree_prefix: "A \<subseteq> {..<length h} \<Longrightarrow> prefix h h' \<Longrightarrow> agree A h h'"
  by (auto simp: agree_def prefix_def nth_append)

lemma agree_write: "A \<subseteq> {..<length h} \<Longrightarrow> a \<notin> A \<Longrightarrow> agree A h (h[a := c])"
  unfolding agree_def by (metis length_list_update lessThan_iff nth_list_update_neq subsetD)

lemma framedD:
  assumes "framed s" and "s h = Some (t, A, B)"
  shows "A \<subseteq> {..<length h}" and "B \<subseteq> {..<length h}"
    and "agree A h h' \<Longrightarrow> agree B h h' \<Longrightarrow> s h' = Some (t, A, B)"
proof -
  have "A \<union> B \<subseteq> {..<length h} \<and> (\<forall>h'. agree (A \<union> B) h h' \<longrightarrow> s h' = Some (t, A, B))"
    using assms(1) [unfolded framed_def, rule_format, OF assms(2)] .
  then show "A \<subseteq> {..<length h}" and "B \<subseteq> {..<length h}"
    and "agree A h h' \<Longrightarrow> agree B h h' \<Longrightarrow> s h' = Some (t, A, B)"
    by simp_all
qed

lemma framedI:
  assumes "\<And>h t A B. s h = Some (t, A, B) \<Longrightarrow> A \<union> B \<subseteq> {..<length h}"
    and "\<And>h t A B h'. s h = Some (t, A, B) \<Longrightarrow> agree (A \<union> B) h h' \<Longrightarrow> s h' = Some (t, A, B)"
  shows "framed s"
  unfolding framed_def using assms by (intro allI impI conjI)

lemma framed_prefix: "framed s \<Longrightarrow> s h = Some (t, A, B) \<Longrightarrow> prefix h h' \<Longrightarrow> s h' = Some (t, A, B)"
  by (meson agree_prefix framedD)

lemma framed_write:
  "framed s \<Longrightarrow> s h = Some (t, A, B) \<Longrightarrow> a \<notin> A \<Longrightarrow> a \<notin> B \<Longrightarrow> s (h[a := c]) = Some (t, A, B)"
  by (meson agree_write framedD)

lemma framed_leaf [simp]: "framed (leaf t)"
  by (simp add: framed_def leaf_def)

lemma framed_borrow [simp]:
  assumes "framed s" shows "framed (borrow s)"
proof (rule framedI)
  fix h t A B assume "borrow s h = Some (t, A, B)"
  then obtain C D where s: "s h = Some (t, C, D)" "A = {}" "B = C \<union> D"
    by (auto simp: borrow_def)
  note fr = framedD [OF assms s(1)]
  show "A \<union> B \<subseteq> {..<length h}" using fr(1,2) s by simp
  show "borrow s h' = Some (t, A, B)" if "agree (A \<union> B) h h'" for h'
    using fr(3) [of h'] that s by (simp add: borrow_def)
qed

lemma those_SomeD: "those xs = Some ys \<Longrightarrow> xs = map Some ys"
  by (induction xs arbitrary: ys) (auto split: option.splits)

lemma those_map_Some [simp]: "those (map Some ys) = Some ys"
  by (induction ys) auto

lemma collect_SomeE:
  assumes "collect node own ss h = Some (t, A, B)"
  obtains rs where "map (\<lambda>s. s h) ss = map Some rs" and "t = node (map fst rs)"
    and "A = own \<union> \<Union>(set (map (\<lambda>r. fst (snd r)) rs))" and "B = \<Union>(set (map (\<lambda>r. snd (snd r)) rs))"
  using assms by (auto simp: collect_def dest!: those_SomeD)

lemma collect_SomeI:
  "map (\<lambda>s. s h) ss = map Some rs \<Longrightarrow> collect node own ss h = Some (node (map fst rs),
     own \<union> \<Union>(set (map (\<lambda>r. fst (snd r)) rs)), \<Union>(set (map (\<lambda>r. snd (snd r)) rs)))"
  by (simp add: collect_def)

lemma collect_frame:
  assumes "\<forall>s\<in>set ss. framed s" and "collect node own ss h = Some (t, A, B)" and "own \<subseteq> {..<length h}"
  shows "A \<union> B \<subseteq> {..<length h}" and "agree (A \<union> B) h h' \<Longrightarrow> collect node own ss h' = Some (t, A, B)"
proof -
  obtain rs where rs: "map (\<lambda>s. s h) ss = map Some rs" and t: "t = node (map fst rs)"
    and A: "A = own \<union> \<Union>(set (map (\<lambda>r. fst (snd r)) rs))" and B: "B = \<Union>(set (map (\<lambda>r. snd (snd r)) rs))"
    using assms(2) by (rule collect_SomeE)
  have len: "length ss = length rs" using rs by (metis length_map)
  have nth: "(ss ! i) h = Some (rs ! i)" if "i < length rs" for i
    using rs that len by (metis nth_map)
  have fr: "framed (ss ! i)" if "i < length rs" for i
    using assms(1) that len by simp
  have parts: "fst (snd (rs ! i)) \<subseteq> A" "snd (snd (rs ! i)) \<subseteq> B" if "i < length rs" for i
    using nth_mem [OF that] unfolding A B by force+
  have bound: "fst (snd (rs ! i)) \<union> snd (snd (rs ! i)) \<subseteq> {..<length h}" if "i < length rs" for i
    using framedD(1,2) [OF fr [OF that]] nth [OF that] by (cases "rs ! i") auto
  show "A \<union> B \<subseteq> {..<length h}"
  proof -
    have "fst (snd r) \<subseteq> {..<length h}" "snd (snd r) \<subseteq> {..<length h}" if "r \<in> set rs" for r
      using bound that by (metis in_set_conv_nth Un_subset_iff)+
    with assms(3) show ?thesis unfolding A B by (simp add: UN_subset_iff)
  qed
  assume ag: "agree (A \<union> B) h h'"
  have "(ss ! i) h' = Some (rs ! i)" if i: "i < length rs" for i
  proof -
    obtain u C D where r: "rs ! i = (u, C, D)" by (cases "rs ! i")
    have "agree C h h'" "agree D h h'" using ag parts [OF i] r by (auto simp: agree_def)
    then show ?thesis using framedD(3) [OF fr [OF i], of h u C D h'] nth [OF i] r by simp
  qed
  then have "map (\<lambda>s. s h') ss = map Some rs" by (intro nth_equalityI) (simp_all add: len)
  from collect_SomeI [OF this, of node own] show "collect node own ss h' = Some (t, A, B)"
    by (simp add: t A B)
qed

lemma framed_struct [simp]: "(\<forall>s\<in>set ss. framed s) \<Longrightarrow> framed (struct ss)"
  unfolding struct_def by (rule framedI) (use collect_frame in \<open>metis empty_subsetI\<close>)+

lemma framed_ptr [simp]:
  assumes "\<And>x. framed (look x)" shows "framed (ptr get look p)"
proof (cases p)
  case (Some a)
  show ?thesis
  proof (rule framedI)
    fix h t A B assume s: "ptr get look p h = Some (t, A, B)"
    then obtain x where a: "a < length h" and x: "get (h ! a) = Some x"
      and c: "collect (\<lambda>ts. TPtr (hd ts)) {a} [look x] h = Some (t, A, B)"
      by (auto simp: ptr_def Some split: if_splits option.splits)
    have fr: "\<forall>s\<in>set [look x]. framed s" using assms by simp
    have "{a} \<subseteq> {..<length h}" using a by simp
    note frame = collect_frame [OF fr c this]
    have "a \<in> A" using c by (auto elim: collect_SomeE)
    then have "h' ! a = h ! a" "a < length h'" if "agree (A \<union> B) h h'" for h'
      using that by (auto simp: agree_def)
    with frame(2) x show "ptr get look p h' = Some (t, A, B)" if "agree (A \<union> B) h h'" for h'
      using that by (simp add: ptr_def Some)
    show "A \<union> B \<subseteq> {..<length h}" by (rule frame(1))
  qed
qed (simp add: ptr_def)

lemma framed_slice [simp]:
  assumes "\<And>x. framed (look x)" shows "framed (slice get look s)"
proof (cases s)
  case (Some r)
  show ?thesis
  proof (rule framedI)
    fix h t A B assume s: "slice get look s h = Some (t, A, B)"
    then obtain xs where a: "sl_array r < length h" and x: "get (h ! sl_array r) = Some xs"
      and len: "sl_off r + sl_len r \<le> length xs"
      and c: "collect TArr {sl_array r} (map look (take (sl_len r) (drop (sl_off r) xs))) h = Some (t, A, B)"
      by (auto simp: slice_def Some split: if_splits option.splits)
    have fr: "\<forall>s\<in>set (map look (take (sl_len r) (drop (sl_off r) xs))). framed s" using assms by auto
    have "{sl_array r} \<subseteq> {..<length h}" using a by simp
    note frame = collect_frame [OF fr c this]
    have "sl_array r \<in> A" using c by (auto elim: collect_SomeE)
    then have "h' ! sl_array r = h ! sl_array r" "sl_array r < length h'" if "agree (A \<union> B) h h'" for h'
      using that by (auto simp: agree_def)
    with frame(2) x len show "slice get look s h' = Some (t, A, B)" if "agree (A \<union> B) h h'" for h'
      using that by (simp add: slice_def Some)
    show "A \<union> B \<subseteq> {..<length h}" by (rule frame(1))
  qed
qed (simp add: slice_def)

subsection \<open>Copying methods\<close>

definition alloc :: "heap \<Rightarrow> cell \<Rightarrow> heap \<times> addr" where
  "alloc h c = (h @ [c], length h)"

text \<open>
  A method \<open>DeepCopyInto(out)\<close> is a function from the heap and the struct \<open>*in\<close> to the heap and the
  struct it leaves in \<open>*out\<close>. \<open>new_copy\<close> is the body every method \<open>DeepCopy\<close> has: nil for a nil receiver,
  otherwise a new object into which the receiver is copied.
\<close>

definition new_copy ::
    "(cell \<Rightarrow> 'o option) \<Rightarrow> ('o \<Rightarrow> cell) \<Rightarrow> 'o \<Rightarrow> (heap \<Rightarrow> 'o \<Rightarrow> heap \<times> 'o) \<Rightarrow> heap \<Rightarrow> addr option \<Rightarrow> heap \<times> addr option" where
  "new_copy get mk zero deepCopyInto h p =
     (case p of
        None \<Rightarrow> (h, None)
      | Some a \<Rightarrow>
          let (h1, out) = alloc h (mk zero);
              (h2, y) = deepCopyInto h1 (the (get (h1 ! a))) in
          (h2[out := mk y], Some out))"

text \<open>
  The copy of a slice: \<open>make([]T, len(s))\<close>, then a loop that copies element \<open>i\<close> into element \<open>i\<close>, or the
  built-in \<open>copy\<close>.
\<close>

fun copy_items ::
    "(cell \<Rightarrow> 'o list option) \<Rightarrow> ('o list \<Rightarrow> cell) \<Rightarrow> (nat \<Rightarrow> heap \<Rightarrow> 'o \<Rightarrow> heap \<times> 'o) \<Rightarrow> slice \<Rightarrow> addr \<Rightarrow>
     nat \<Rightarrow> nat \<Rightarrow> heap \<Rightarrow> heap" where
  "copy_items get mk cp s out 0 i h = h"
| "copy_items get mk cp s out (Suc n) i h =
     (let (h1, y) = cp i h (the (get (h ! sl_array s)) ! (sl_off s + i));
          h2 = h1[out := mk ((the (get (h1 ! out)))[i := y])] in
      copy_items get mk cp s out n (Suc i) h2)"

definition copy_slice ::
    "(cell \<Rightarrow> 'o list option) \<Rightarrow> ('o list \<Rightarrow> cell) \<Rightarrow> 'o \<Rightarrow> (nat \<Rightarrow> heap \<Rightarrow> 'o \<Rightarrow> heap \<times> 'o) \<Rightarrow> heap \<Rightarrow>
     slice option \<Rightarrow> heap \<times> slice option" where
  "copy_slice get mk zero cp h s =
     (case s of
        None \<Rightarrow> (h, None)
      | Some r \<Rightarrow>
          let (h1, out) = alloc h (mk (replicate (sl_len r) zero)) in
          (copy_items get mk cp r out (sl_len r) 0 h1,
           Some \<lparr>sl_array = out, sl_off = 0, sl_len = sl_len r\<rparr>))"

text \<open>
  What copying a shape into another means: the value stays, the copy owns new memory only and borrows
  what the original borrows.
\<close>

definition copied :: "heap \<Rightarrow> shape \<Rightarrow> heap \<Rightarrow> shape \<Rightarrow> bool" where
  "copied h s h' s' \<longleftrightarrow> (\<forall>t A B. s h = Some (t, A, B) \<longrightarrow>
     (\<exists>A'. s' h' = Some (t, A', B) \<and> A' \<subseteq> {length h..}))"

lemma copiedE:
  assumes "copied h s h' s'" and "s h = Some (t, A, B)"
  obtains A' where "s' h' = Some (t, A', B)" and "A' \<subseteq> {length h..}"
  using assms unfolding copied_def by blast

lemma copied_leaf [simp]: "copied h (leaf t) h' (leaf t)"
  by (simp add: copied_def leaf_def)

lemma copied_borrow: "framed s \<Longrightarrow> prefix h h' \<Longrightarrow> copied h (borrow s) h' (borrow s)"
  unfolding copied_def
proof (intro allI impI)
  fix t A B assume fr: "framed s" and pre: "prefix h h'" and b: "borrow s h = Some (t, A, B)"
  then obtain C D where s: "s h = Some (t, C, D)" and "B = C \<union> D" by (auto simp: borrow_def)
  with framed_prefix [OF fr s pre] have "borrow s h' = Some (t, {}, B)" by (simp add: borrow_def)
  then show "\<exists>A'. borrow s h' = Some (t, A', B) \<and> A' \<subseteq> {length h..}" by blast
qed

lemma copied_later:
  assumes "framed s" and "framed s'" and "prefix h h1" and "copied h1 s h2 s'" and "prefix h2 h'"
  shows "copied h s h' s'"
  unfolding copied_def
proof (intro allI impI)
  fix t A B assume "s h = Some (t, A, B)"
  with framed_prefix [OF assms(1)] assms(3) have "s h1 = Some (t, A, B)" by blast
  with assms(4) obtain A' where "s' h2 = Some (t, A', B)" "A' \<subseteq> {length h1..}" by (rule copiedE)
  moreover have "{length h1..} \<subseteq> {length h..}" using assms(3) by (simp add: prefix_length_le)
  moreover have "s' h' = Some (t, A', B)" by (rule framed_prefix [OF assms(2) calculation(1) assms(5)])
  ultimately show "\<exists>A'. s' h' = Some (t, A', B) \<and> A' \<subseteq> {length h..}" by (intro exI conjI) auto
qed

lemma copied_collect:
  assumes "list_all2 (\<lambda>s s'. copied h s h' s') ss ss'" and "own' \<subseteq> {length h..}"
    and "collect node own ss h = Some (t, A, B)"
  shows "\<exists>A'. collect node own' ss' h' = Some (t, A', B) \<and> A' \<subseteq> {length h..}"
proof -
  obtain rs where rs: "map (\<lambda>s. s h) ss = map Some rs" and t: "t = node (map fst rs)"
    and B: "B = \<Union>(set (map (\<lambda>r. snd (snd r)) rs))"
    using assms(3) by (rule collect_SomeE)
  have len: "length ss = length rs" "length ss' = length rs"
    using rs list_all2_lengthD [OF assms(1)] by (metis length_map)+
  have "\<forall>i<length rs. \<exists>r'. (ss' ! i) h' = Some r' \<and> fst r' = fst (rs ! i)
      \<and> snd (snd r') = snd (snd (rs ! i)) \<and> fst (snd r') \<subseteq> {length h..}"
  proof (intro allI impI)
    fix i assume i: "i < length rs"
    have "(ss ! i) h = Some (rs ! i)" using rs i len by (metis nth_map)
    moreover have "copied h (ss ! i) h' (ss' ! i)"
      using assms(1) i len by (simp add: list_all2_conv_all_nth)
    moreover obtain u C D where "rs ! i = (u, C, D)" by (cases "rs ! i")
    ultimately show "\<exists>r'. (ss' ! i) h' = Some r' \<and> fst r' = fst (rs ! i)
        \<and> snd (snd r') = snd (snd (rs ! i)) \<and> fst (snd r') \<subseteq> {length h..}"
      by (auto elim!: copiedE)
  qed
  then obtain f where f: "\<And>i. i < length rs \<Longrightarrow> (ss' ! i) h' = Some (f i) \<and> fst (f i) = fst (rs ! i)
      \<and> snd (snd (f i)) = snd (snd (rs ! i)) \<and> fst (snd (f i)) \<subseteq> {length h..}" by metis
  define rs' where "rs' = map f [0..<length rs]"
  have "map (\<lambda>s. s h') ss' = map Some rs'"
    by (rule nth_equalityI) (simp_all add: rs'_def f len)
  note c = collect_SomeI [OF this, of node own']
  have "map fst rs' = map fst rs" "map (\<lambda>r. snd (snd r)) rs' = map (\<lambda>r. snd (snd r)) rs"
    by (auto simp: rs'_def f intro!: nth_equalityI)
  moreover have "own' \<union> \<Union>(set (map (\<lambda>r. fst (snd r)) rs')) \<subseteq> {length h..}"
    using assms(2) f unfolding rs'_def by fastforce
  ultimately show ?thesis using c t B by simp
qed

lemma copied_struct:
  "list_all2 (\<lambda>s s'. copied h s h' s') ss ss' \<Longrightarrow> copied h (struct ss) h' (struct ss')"
  unfolding struct_def by (subst copied_def, intro allI impI) (rule copied_collect, assumption, simp, assumption)

lemma prefix_write: "prefix h h' \<Longrightarrow> length h \<le> a \<Longrightarrow> prefix h (h'[a := c])"
  by (auto simp: prefix_def list_update_append)

lemma prefix_alloc [simp]: "prefix h (h @ [c])"
  by simp

lemma prefix_nth: "prefix h h' \<Longrightarrow> a < length h \<Longrightarrow> h' ! a = h ! a \<and> a < length h'"
  by (auto simp: prefix_def nth_append)

subsection \<open>The contract of a copying method\<close>

locale go_copy =
  fixes look :: "'o \<Rightarrow> shape" and copy :: "heap \<Rightarrow> 'o \<Rightarrow> heap \<times> 'o"
  assumes framed_look: "framed (look x)"
    and copy_prefix: "copy h x = (h', y) \<Longrightarrow> prefix h h'"
    and copy_value: "copy h x = (h', y) \<Longrightarrow> copied h (look x) h' (look y)"
begin

lemma copy_between:
  assumes "copy h1 x = (h2, y)" and "prefix h h1" and "prefix h2 h'"
  shows "copied h (look x) h' (look y)"
  by (rule copied_later [OF framed_look framed_look assms(2) copy_value [OF assms(1)] assms(3)])

text \<open>A write into memory the copy owns is not seen by the original, one that it does not borrow not by the copy.\<close>

lemma write_copy:
  assumes "look x h = Some (t, A, B)" and "copy h x = (h', y)" and "length h \<le> a"
  shows "look x (h'[a := c]) = Some (t, A, B)"
  using framed_prefix [OF framed_look assms(1) prefix_write [OF copy_prefix [OF assms(2)] assms(3)]] .

lemma write_original:
  assumes "look x h = Some (t, A, B)" and "copy h x = (h', y)" and "a < length h" and "a \<notin> B"
  shows "\<exists>A'. look y (h'[a := c]) = Some (t, A', B)"
proof -
  obtain A' where y: "look y h' = Some (t, A', B)" "A' \<subseteq> {length h..}"
    using copy_value [OF assms(2)] assms(1) by (rule copiedE)
  then have "a \<notin> A'" using assms(3) by auto
  from framed_write [OF framed_look y(1) this assms(4)] show ?thesis by blast
qed

end

text \<open>A shape that borrows nothing; copies of it are independent.\<close>

definition owning :: "shape \<Rightarrow> bool" where
  "owning s \<longleftrightarrow> (\<forall>h t A B. s h = Some (t, A, B) \<longrightarrow> B = {})"

locale go_deep_copy = go_copy +
  assumes owning_look: "owning (look x)"
begin

lemma independent:
  assumes "look x h = Some (t, A, B)" and "copy h x = (h', y)"
  shows "\<exists>A'. look y h' = Some (t, A', {}) \<and> A \<inter> A' = {}
    \<and> (\<forall>a\<in>A. \<forall>c. \<exists>A'. look y (h'[a := c]) = Some (t, A', {}))
    \<and> (\<forall>a\<in>A'. \<forall>c. look x (h'[a := c]) = Some (t, A, {}))"
proof -
  have B: "B = {}" using owning_look assms(1) by (auto simp: owning_def)
  obtain A' where y: "look y h' = Some (t, A', B)" "A' \<subseteq> {length h..}"
    using copy_value [OF assms(2)] assms(1) by (rule copiedE)
  have A: "A \<subseteq> {..<length h}" using framedD(1) [OF framed_look assms(1)] .
  have "A \<inter> A' = {}" using A y(2) by fastforce
  moreover have "\<forall>a\<in>A. \<forall>c. \<exists>A'. look y (h'[a := c]) = Some (t, A', {})"
    using write_original [OF assms] A B by blast
  moreover have "\<forall>a\<in>A'. \<forall>c. look x (h'[a := c]) = Some (t, A, {})"
    using write_copy [OF assms] y(2) B by blast
  ultimately show ?thesis using y B by blast
qed

end

subsection \<open>Slices and new objects\<close>

text \<open>
  The state of the copying loop: the heap extends the one it started from, and the first \<open>i\<close> elements of
  the new array \<open>out\<close> are copies of the elements of the original, whose shapes there are \<open>f\<close>.
\<close>

definition filled ::
    "(cell \<Rightarrow> 'o list option) \<Rightarrow> ('o \<Rightarrow> shape) \<Rightarrow> heap \<Rightarrow> (nat \<Rightarrow> tree \<times> addr set \<times> addr set) \<Rightarrow> addr \<Rightarrow> nat \<Rightarrow>
     nat \<Rightarrow> heap \<Rightarrow> 'o list \<Rightarrow> bool" where
  "filled get look h0 f out n i h ys \<longleftrightarrow> prefix h0 h \<and> out < length h \<and> get (h ! out) = Some ys \<and> length ys = n
     \<and> (\<forall>j<i. \<exists>A'. look (ys ! j) h = Some (fst (f j), A', snd (snd (f j))) \<and> A' \<subseteq> {length h0..} - {out})"

lemma filled_step:
  assumes cells: "\<And>xs. get (mk xs) = Some xs" and cp: "go_copy look (cp i)"
    and val: "look x h0 = Some (f i)" and borrowed: "\<And>j. j \<le> i \<Longrightarrow> snd (snd (f j)) \<subseteq> {..<length h0}"
    and out: "length h0 \<le> out" and lt: "i < n" and inv: "filled get look h0 f out n i h ys"
    and step: "cp i h x = (h1, y)"
  shows "filled get look h0 f out n (Suc i) (h1[out := mk ((the (get (h1 ! out)))[i := y])]) (ys[i := y])"
proof -
  have pre: "prefix h0 h" and lth: "out < length h" and ys: "get (h ! out) = Some ys" "length ys = n"
    and old: "\<And>j. j < i \<Longrightarrow> \<exists>A'. look (ys ! j) h = Some (fst (f j), A', snd (snd (f j))) \<and> A' \<subseteq> {length h0..} - {out}"
    using inv unfolding filled_def by auto
  note pre1 = go_copy.copy_prefix [OF cp step] and fr = go_copy.framed_look [OF cp]
  have out1: "h1 ! out = h ! out" "out < length h1" using prefix_nth [OF pre1 lth] by auto
  let ?h2 = "h1[out := mk ((the (get (h1 ! out)))[i := y])]"
  have get2: "get (?h2 ! out) = Some (ys[i := y])" using out1 ys cells by simp
  have pre2: "prefix h0 ?h2"
    by (rule prefix_write [OF _ out]) (use pre pre1 prefix_order.trans in blast)
  have keep: "look z ?h2 = Some (t, A', B)" if "look z h1 = Some (t, A', B)" "A' \<subseteq> - {out}" "B \<subseteq> {..<length h0}" for z t A' B
    by (rule framed_write [OF fr that(1)]) (use that(2,3) out in auto)
  have "\<exists>A'. look (ys[i := y] ! j) ?h2 = Some (fst (f j), A', snd (snd (f j))) \<and> A' \<subseteq> {length h0..} - {out}"
    if j: "j < Suc i" for j
  proof (cases "j = i")
    case True
    obtain t A B where f: "f i = (t, A, B)" by (cases "f i")
    have "look x h = Some (t, A, B)" using framed_prefix [OF fr _ pre] val f by simp
    with go_copy.copy_value [OF cp step] obtain A' where y: "look y h1 = Some (t, A', B)" "A' \<subseteq> {length h..}"
      by (rule copiedE)
    have A': "A' \<subseteq> {length h0..} - {out}" using y(2) lth prefix_length_le [OF pre] by fastforce
    have "look y ?h2 = Some (t, A', B)"
      by (rule keep [OF y(1)]) (use A' borrowed [of i] f in auto)
    with A' True lt ys(2) f show ?thesis by auto
  next
    case False
    with j have ji: "j < i" by simp
    obtain A' where w: "look (ys ! j) h = Some (fst (f j), A', snd (snd (f j)))" "A' \<subseteq> {length h0..} - {out}"
      using old [OF ji] by blast
    have "look (ys ! j) h1 = Some (fst (f j), A', snd (snd (f j)))" by (rule framed_prefix [OF fr w(1) pre1])
    then have "look (ys ! j) ?h2 = Some (fst (f j), A', snd (snd (f j)))"
      by (rule keep) (use w(2) borrowed [of j] ji in auto)
    with w(2) False show ?thesis by auto
  qed
  then show ?thesis
    unfolding filled_def using pre2 get2 out1(2) ys(2) by simp
qed

lemma copy_items_spec:
  assumes cells: "\<And>xs. get (mk xs) = Some xs" and cp: "\<And>i. go_copy look (cp i)"
    and src: "sl_array r < length h0" "get (h0 ! sl_array r) = Some xs"
    and vals: "\<And>j. j < sl_len r \<Longrightarrow> look (xs ! (sl_off r + j)) h0 = Some (f j)"
    and out: "length h0 \<le> out"
  shows "i + n = sl_len r \<Longrightarrow> filled get look h0 f out (sl_len r) i h ys \<Longrightarrow>
    \<exists>ys. filled get look h0 f out (sl_len r) (sl_len r) (copy_items get mk cp r out n i h) ys"
proof (induction n arbitrary: i h ys)
  case 0
  then show ?case by auto
next
  case (Suc n)
  let ?x = "xs ! (sl_off r + i)"
  obtain h1 y where c: "cp i h ?x = (h1, y)" by fastforce
  have pre: "prefix h0 h" using Suc.prems(2) by (simp add: filled_def)
  have lt: "i < sl_len r" using Suc.prems(1) by simp
  have "snd (snd (f j)) \<subseteq> {..<length h0}" if "j \<le> i" for j
  proof -
    obtain t A B where f: "f j = (t, A, B)" by (cases "f j")
    have "look (xs ! (sl_off r + j)) h0 = Some (t, A, B)" using vals [of j] that lt f by simp
    from framedD(2) [OF go_copy.framed_look [OF cp] this] show ?thesis by (simp add: f)
  qed
  note inv = filled_step [where cp = cp and f = f and get = get and mk = mk and look = look, OF cells cp vals [OF lt] this out lt Suc.prems(2) c]
  have "get (h ! sl_array r) = Some xs" using prefix_nth [OF pre src(1)] src(2) by simp
  then show ?case using Suc.IH [OF _ inv] Suc.prems(1) by (simp add: c)
qed

lemma copy_items_prefix:
  assumes "\<And>i. go_copy look (cp i)" and "length h0 \<le> out"
  shows "prefix h0 h \<Longrightarrow> prefix h0 (copy_items get mk cp r out n i h)"
proof (induction n arbitrary: i h)
  case (Suc n)
  obtain h1 y where c: "cp i h (the (get (h ! sl_array r)) ! (sl_off r + i)) = (h1, y)" by fastforce
  have "prefix h0 h1"
    using Suc.prems go_copy.copy_prefix [OF assms(1) c] prefix_order.trans by blast
  from prefix_write [OF this assms(2)] show ?case by (simp add: c Suc.IH)
qed simp

lemma go_copy_slice:
  assumes cells: "\<And>xs. get (mk xs) = Some xs" and cp: "\<And>i. go_copy look (cp i)"
  shows "go_copy (slice get look) (copy_slice get mk zero cp)"
proof
  fix s h h' s'
  show "framed (slice get look s)" using go_copy.framed_look [OF cp] by simp
  assume run: "copy_slice get mk zero cp h s = (h', s')"
  show "prefix h h'"
  proof (cases s)
    case (Some r)
    then have "h' = copy_items get mk cp r (length h) (sl_len r) 0 (h @ [mk (replicate (sl_len r) zero)])"
      using run by (simp add: copy_slice_def alloc_def)
    then show ?thesis using copy_items_prefix [where cp = cp, OF cp] by simp
  qed (use run in \<open>simp add: copy_slice_def\<close>)
  show "copied h (slice get look s) h' (slice get look s')"
  proof (cases s)
    case None
    with run show ?thesis by (simp add: copy_slice_def slice_def)
  next
    case (Some r)
    let ?out = "length h" and ?h1 = "h @ [mk (replicate (sl_len r) zero)]"
    have h': "h' = copy_items get mk cp r ?out (sl_len r) 0 ?h1"
      and s': "s' = Some \<lparr>sl_array = ?out, sl_off = 0, sl_len = sl_len r\<rparr>"
      using run Some by (simp_all add: copy_slice_def alloc_def)
    show ?thesis unfolding copied_def
    proof (intro allI impI)
      fix t A B assume "slice get look s h = Some (t, A, B)"
      then obtain xs where a: "sl_array r < length h" and x: "get (h ! sl_array r) = Some xs"
        and len: "sl_off r + sl_len r \<le> length xs"
        and c: "collect TArr {sl_array r} (map look (take (sl_len r) (drop (sl_off r) xs))) h = Some (t, A, B)"
        by (auto simp: slice_def Some split: if_splits option.splits)
      obtain rs where rs: "map (\<lambda>s. s h) (map look (take (sl_len r) (drop (sl_off r) xs))) = map Some rs"
        using c by (rule collect_SomeE)
      have vals: "look (xs ! (sl_off r + j)) h = Some (rs ! j)" if "j < sl_len r" for j
        using arg_cong [OF rs, of "\<lambda>l. l ! j"] arg_cong [OF rs, of length] len that by simp
      have "filled get look h (\<lambda>j. rs ! j) ?out (sl_len r) 0 ?h1 (replicate (sl_len r) zero)"
        by (simp add: filled_def cells)
      from copy_items_spec [where cp = cp and get = get and mk = mk and look = look and f = "\<lambda>j. rs ! j",
          OF cells cp a x vals order.refl _ this]
      obtain ys where ys: "filled get look h (\<lambda>j. rs ! j) ?out (sl_len r) (sl_len r) h' ys"
        unfolding h' by auto
      have "list_all2 (\<lambda>s s'. copied h s h' s') (map look (take (sl_len r) (drop (sl_off r) xs))) (map look ys)"
        unfolding list_all2_conv_all_nth
      proof (intro conjI allI impI)
        show "length (map look (take (sl_len r) (drop (sl_off r) xs))) = length (map look ys)"
          using ys len by (simp add: filled_def)
        fix j assume "j < length (map look (take (sl_len r) (drop (sl_off r) xs)))"
        then have j: "j < sl_len r" using len by simp
        obtain A' where "look (ys ! j) h' = Some (fst (rs ! j), A', snd (snd (rs ! j)))" "A' \<subseteq> {length h..} - {?out}"
          using ys j unfolding filled_def by blast
        then show "copied h (map look (take (sl_len r) (drop (sl_off r) xs)) ! j) h' (map look ys ! j)"
          using vals [OF j] ys j len by (auto simp: copied_def filled_def)
      qed
      from copied_collect [OF this _ c, of "{?out}"] obtain A' where
        "collect TArr {?out} (map look ys) h' = Some (t, A', B)" "A' \<subseteq> {length h..}" by auto
      then show "\<exists>A'. slice get look s' h' = Some (t, A', B) \<and> A' \<subseteq> {length h..}"
        using ys by (auto simp: slice_def s' filled_def)
    qed
  qed
qed

lemma go_copy_ptr:
  assumes cells: "\<And>x. get (mk x) = Some x" and into: "go_copy look into"
  shows "go_copy (ptr get look) (new_copy get mk zero into)"
proof
  fix p h h' p'
  note fr = go_copy.framed_look [OF into]
  show "framed (ptr get look p)" using fr by simp
  assume run: "new_copy get mk zero into h p = (h', p')"
  show "prefix h h'"
  proof (cases p)
    case (Some a)
    obtain h2 y where c: "into (h @ [mk zero]) (the (get ((h @ [mk zero]) ! a))) = (h2, y)" by fastforce
    then have "h' = h2[length h := mk y]"
      using run by (simp add: new_copy_def alloc_def Some)
    moreover have "prefix h h2"
      by (rule prefix_order.trans [OF prefix_alloc go_copy.copy_prefix [OF into c]])
    ultimately show ?thesis by (simp add: prefix_write)
  qed (use run in \<open>simp add: new_copy_def\<close>)
  show "copied h (ptr get look p) h' (ptr get look p')"
  proof (cases p)
    case None
    with run show ?thesis by (simp add: new_copy_def ptr_def)
  next
    case (Some a)
    show ?thesis unfolding copied_def
    proof (intro allI impI)
      fix t A B assume "ptr get look p h = Some (t, A, B)"
      then obtain x where a: "a < length h" and x: "get (h ! a) = Some x"
        and c: "collect (\<lambda>ts. TPtr (hd ts)) {a} [look x] h = Some (t, A, B)"
        by (auto simp: ptr_def Some split: if_splits option.splits)
      let ?out = "length h" and ?h1 = "h @ [mk zero]"
      obtain h2 y where step: "into ?h1 x = (h2, y)" by fastforce
      have h': "h' = h2[?out := mk y]" and p': "p' = Some ?out"
        using run a x step by (simp_all add: new_copy_def alloc_def Some nth_append)
      note pre = go_copy.copy_prefix [OF into step]
      have out: "?out < length h2" using prefix_length_le [OF pre] by simp
      have "copied h (look x) h' (look y)" unfolding copied_def
      proof (intro allI impI)
        fix u C D assume l: "look x h = Some (u, C, D)"
        have "look x ?h1 = Some (u, C, D)" by (rule framed_prefix [OF fr l]) simp
        with go_copy.copy_value [OF into step] obtain C' where y: "look y h2 = Some (u, C', D)" "C' \<subseteq> {length ?h1..}"
          by (rule copiedE)
        have "look y h' = Some (u, C', D)" unfolding h'
          by (rule framed_write [OF fr y(1)]) (use y(2) framedD(2) [OF fr l] in auto)
        with y(2) show "\<exists>C'. look y h' = Some (u, C', D) \<and> C' \<subseteq> {length h..}" by force
      qed
      then have "list_all2 (\<lambda>s s'. copied h s h' s') [look x] [look y]" by simp
      from copied_collect [OF this _ c, of "{?out}"] obtain A' where
        "collect (\<lambda>ts. TPtr (hd ts)) {?out} [look y] h' = Some (t, A', B)" "A' \<subseteq> {length h..}" by auto
      then show "\<exists>A'. ptr get look p' h' = Some (t, A', B) \<and> A' \<subseteq> {length h..}"
        using out by (auto simp: ptr_def p' h' cells)
    qed
  qed
qed

lemma owning_collect:
  assumes "\<forall>s\<in>set ss. owning s" and "collect node own ss h = Some (t, A, B)"
  shows "B = {}"
proof -
  obtain rs where rs: "map (\<lambda>s. s h) ss = map Some rs" and B: "B = \<Union>(set (map (\<lambda>r. snd (snd r)) rs))"
    using assms(2) by (rule collect_SomeE)
  have "snd (snd r) = {}" if "r \<in> set rs" for r
  proof -
    have "Some r \<in> set (map (\<lambda>s. s h) ss)" using that rs by simp
    then obtain s where "s \<in> set ss" "s h = Some r" by auto
    with assms(1) show ?thesis unfolding owning_def by (cases r) force
  qed
  then show ?thesis by (simp add: B)
qed

lemma owning_leaf [simp]: "owning (leaf t)"
  by (simp add: owning_def leaf_def)

lemma owning_struct [simp]: "\<forall>s\<in>set ss. owning s \<Longrightarrow> owning (struct ss)"
  by (subst owning_def) (unfold struct_def, intro allI impI, rule owning_collect)

lemma owning_ptr [simp]:
  assumes "\<And>x. owning (look x)" shows "owning (ptr get look p)"
  unfolding owning_def
proof (intro allI impI)
  fix h t A B assume "ptr get look p h = Some (t, A, B)"
  with owning_collect [where ss = "[look x]" for x] assms show "B = {}"
    by (auto simp: ptr_def leaf_def split: if_splits option.splits)
qed

lemma owning_slice [simp]:
  assumes "\<And>x. owning (look x)" shows "owning (slice get look s)"
  unfolding owning_def
proof (intro allI impI)
  fix h t A B assume "slice get look s h = Some (t, A, B)"
  with owning_collect [where ss = "map look xs" for xs] assms show "B = {}"
    by (auto simp: slice_def leaf_def split: if_splits option.splits)
qed

end
