(* ===== verification/DeepCopy.thy ===== *)
theory DeepCopy
  imports Heap
begin

text \<open>
  The methods \<open>DeepCopyInto\<close>, \<open>DeepCopy\<close> and \<open>DeepCopyObject\<close> of the custom resources (\<open>api/v1\<close>). The
  copying methods of the metadata types they call belong to the API machinery: they are fields of
  \<open>api_env\<close>, and the locale \<open>api_machinery\<close> states their contract, that a deep copy has the value of the
  original and shares nothing with it.

  Every method keeps the contract of \<open>go_copy\<close>, and the ones for node classes and workload objectives are
  deep. The copy of a policy is deep but for the two namespace lists: \<open>RebalancePolicySpec.DeepCopyInto\<close>
  copies the slice headers only.
\<close>

subsection \<open>Typed cells\<close>

definition as_strings where "as_strings c = (case c of Strings xs \<Rightarrow> Some xs | _ \<Rightarrow> None)"
definition as_map where "as_map c = (case c of StrMap m \<Rightarrow> Some m | _ \<Rightarrow> None)"
definition as_int where "as_int c = (case c of IntCell n \<Rightarrow> Some n | _ \<Rightarrow> None)"
definition as_duration where "as_duration c = (case c of DurationCell d \<Rightarrow> Some d | _ \<Rightarrow> None)"
definition as_time where "as_time c = (case c of TimeCell t \<Rightarrow> Some t | _ \<Rightarrow> None)"
definition as_requirements where "as_requirements c = (case c of Requirements xs \<Rightarrow> Some xs | _ \<Rightarrow> None)"
definition as_selectors where "as_selectors c = (case c of Selectors xs \<Rightarrow> Some xs | _ \<Rightarrow> None)"
definition as_policies where "as_policies c = (case c of Policies xs \<Rightarrow> Some xs | _ \<Rightarrow> None)"
definition as_classes where "as_classes c = (case c of Classes xs \<Rightarrow> Some xs | _ \<Rightarrow> None)"
definition as_slos where "as_slos c = (case c of Slos xs \<Rightarrow> Some xs | _ \<Rightarrow> None)"
definition as_spec where "as_spec c = (case c of SpecCell x \<Rightarrow> Some x | _ \<Rightarrow> None)"
definition as_plan where "as_plan c = (case c of PlanCell x \<Rightarrow> Some x | _ \<Rightarrow> None)"
definition as_status where "as_status c = (case c of StatusCell x \<Rightarrow> Some x | _ \<Rightarrow> None)"
definition as_policy where "as_policy c = (case c of PolicyCell x \<Rightarrow> Some x | _ \<Rightarrow> None)"
definition as_classSpec where "as_classSpec c = (case c of ClassSpecCell x \<Rightarrow> Some x | _ \<Rightarrow> None)"
definition as_classStatus where "as_classStatus c = (case c of ClassStatusCell x \<Rightarrow> Some x | _ \<Rightarrow> None)"
definition as_class where "as_class c = (case c of ClassCell x \<Rightarrow> Some x | _ \<Rightarrow> None)"
definition as_sloSpec where "as_sloSpec c = (case c of SloSpecCell x \<Rightarrow> Some x | _ \<Rightarrow> None)"
definition as_sloStatus where "as_sloStatus c = (case c of SloStatusCell x \<Rightarrow> Some x | _ \<Rightarrow> None)"
definition as_slo where "as_slo c = (case c of SloCell x \<Rightarrow> Some x | _ \<Rightarrow> None)"
definition as_policyList where "as_policyList c = (case c of PolicyListCell x \<Rightarrow> Some x | _ \<Rightarrow> None)"
definition as_classList where "as_classList c = (case c of ClassListCell x \<Rightarrow> Some x | _ \<Rightarrow> None)"
definition as_sloList where "as_sloList c = (case c of SloListCell x \<Rightarrow> Some x | _ \<Rightarrow> None)"

lemma cells [simp]:
  "as_strings (Strings xs1) = Some xs1" "as_map (StrMap m) = Some m" "as_int (IntCell n) = Some n"
  "as_duration (DurationCell d) = Some d" "as_time (TimeCell t) = Some t"
  "as_requirements (Requirements xs2) = Some xs2" "as_selectors (Selectors xs3) = Some xs3"
  "as_policies (Policies xs4) = Some xs4" "as_classes (Classes xs5) = Some xs5" "as_slos (Slos xs6) = Some xs6"
  "as_spec (SpecCell x1) = Some x1" "as_plan (PlanCell x2) = Some x2" "as_status (StatusCell x3) = Some x3"
  "as_policy (PolicyCell x4) = Some x4" "as_classSpec (ClassSpecCell x5) = Some x5"
  "as_classStatus (ClassStatusCell x6) = Some x6" "as_class (ClassCell x7) = Some x7"
  "as_sloSpec (SloSpecCell x8) = Some x8" "as_sloStatus (SloStatusCell x9) = Some x9"
  "as_slo (SloCell x10) = Some x10" "as_policyList (PolicyListCell x11) = Some x11"
  "as_classList (ClassListCell x11) = Some x11" "as_sloList (SloListCell x11) = Some x11"
  by (simp_all add: as_strings_def as_map_def as_int_def as_duration_def as_time_def as_requirements_def
      as_selectors_def as_policies_def as_classes_def as_slos_def as_spec_def as_plan_def as_status_def
      as_policy_def as_classSpec_def as_classStatus_def as_class_def as_sloSpec_def as_sloStatus_def
      as_slo_def as_policyList_def as_classList_def as_sloList_def)

subsection \<open>The shapes of the structs\<close>

text \<open>The members a method copies come first; what it leaves as the assignment of the struct put it follows.\<close>

definition look_strings :: "slice option \<Rightarrow> shape" where
  "look_strings s = slice as_strings (\<lambda>x. leaf (TStr x)) s"

definition look_labels :: "labels \<Rightarrow> shape" where
  "look_labels m = (if wf_map m then leaf (TMap (map_of m)) else (\<lambda>h. None))"

definition look_map :: "addr option \<Rightarrow> shape" where
  "look_map q = ptr as_map look_labels q"

definition look_time :: "addr \<Rightarrow> shape" where
  "look_time a = ptr as_time (\<lambda>t. leaf (TInt t)) (Some a)"

definition look_timePtr :: "addr option \<Rightarrow> shape" where
  "look_timePtr q = (case q of None \<Rightarrow> leaf TNil | Some a \<Rightarrow> look_time a)"

definition look_typeMeta :: "type_meta \<Rightarrow> shape" where
  "look_typeMeta m = leaf (TStruct [TStr (tm_kind m), TStr (tm_apiVersion m)])"

definition look_objectMeta :: "object_meta \<Rightarrow> shape" where
  "look_objectMeta m = struct [look_map (om_labels m), leaf (TStr (om_name m)), leaf (TStr (om_namespace m)),
     leaf (TInt (om_generation m))]"

definition look_listMeta :: "list_meta \<Rightarrow> shape" where
  "look_listMeta m = struct [ptr as_int (\<lambda>n. leaf (TInt n)) (lm_remaining m), leaf (TStr (lm_resourceVersion m))]"

definition look_requirement :: "requirement_obj \<Rightarrow> shape" where
  "look_requirement r = struct [look_strings (ro_values r), leaf (TStr (ro_key r)), leaf (TStr (ro_operator r))]"

definition look_selector :: "selector_obj \<Rightarrow> shape" where
  "look_selector s = struct [look_map (so_labels s), slice as_requirements look_requirement (so_expressions s)]"

definition look_namespaces :: "namespaces_obj \<Rightarrow> shape" where
  "look_namespaces n = struct [look_strings (no_include n), look_strings (no_exclude n)]"

definition look_spec :: "spec_obj \<Rightarrow> shape" where
  "look_spec s = struct ([slice as_selectors look_selector (sp_selectors s),
       ptr as_duration (\<lambda>d. leaf (TInt d)) (sp_backoff s), look_strings (sp_classPreference s)]
     @ borrow (look_namespaces (sp_namespaces s)) # map leaf
     [TFloat (sp_targetVariance s), TFloat (sp_hotThreshold s), TFloat (sp_coldThreshold s),
      TFloat (sp_hysteresis s), TInt (sp_maxPerMinute s), TFloat (sp_weightCPU s), TFloat (sp_weightMemory s),
      TBool (sp_respectPriority s), TBool (sp_respectPDB s), TBool (sp_dryRun s), TInt (sp_maxPerNamespace s)])"

definition look_plan :: "plan_obj \<Rightarrow> shape" where
  "look_plan s = struct ([look_timePtr (po_lastExecution s)] @ map leaf
     [TInt (po_hotNodes s), TInt (po_coldNodes s), TFloat (po_variance s), TInt (po_planned s),
      TInt (po_executed s), TBool (po_dryRun s), TStr (po_message s)])"

definition look_status :: "status_obj \<Rightarrow> shape" where
  "look_status s = struct ([look_plan (st_plan s)] @ [leaf (TInt (st_generation s))])"

definition look_policy :: "policy_obj \<Rightarrow> shape" where
  "look_policy x = struct ([look_objectMeta (py_meta x), look_spec (py_spec x), look_status (py_status x)]
     @ [look_typeMeta (py_type x)])"

definition look_classSpec :: "class_spec_obj \<Rightarrow> shape" where
  "look_classSpec s = struct ([look_map (cs_labels s), slice as_requirements look_requirement (cs_expressions s),
     look_strings (cs_preferredFor s)] @ [leaf (TInt (cs_weight s))])"

definition look_classStatus :: "class_status_obj \<Rightarrow> shape" where
  "look_classStatus s = struct ([look_timePtr (ct_lastSync s)] @ [leaf (TInt (ct_nodeCount s))])"

definition look_class :: "class_obj \<Rightarrow> shape" where
  "look_class x = struct ([look_objectMeta (cl_meta x), look_classSpec (cl_spec x), look_classStatus (cl_status x)]
     @ [look_typeMeta (cl_type x)])"

definition look_sloSpec :: "slo_spec_obj \<Rightarrow> shape" where
  "look_sloSpec s = struct ([look_map (ss_protectedLabels s)] @ map leaf
     [TInt (ss_maxDisruptions s), TInt (ss_minReady s), TBool (ss_allowStatefulSet s)])"

definition look_sloStatus :: "slo_status_obj \<Rightarrow> shape" where
  "look_sloStatus s = struct ([look_timePtr (su_windowStart s), look_timePtr (su_lastViolation s)] @ map leaf
     [TInt (su_disruptions s), TStr (su_message s)])"

definition look_slo :: "slo_obj \<Rightarrow> shape" where
  "look_slo x = struct ([look_objectMeta (sl_meta x), look_sloSpec (sl_spec x), look_sloStatus (sl_status x)]
     @ [look_typeMeta (sl_type x)])"

definition look_list :: "(slice option \<Rightarrow> shape) \<Rightarrow> list_obj \<Rightarrow> shape" where
  "look_list items x = struct ([look_listMeta (li_meta x), items (li_items x)] @ [look_typeMeta (li_type x)])"

lemmas look_defs = look_strings_def look_map_def look_time_def look_typeMeta_def
  look_objectMeta_def look_listMeta_def look_requirement_def look_selector_def look_namespaces_def
  look_spec_def look_plan_def look_status_def look_policy_def look_classSpec_def look_classStatus_def
  look_class_def look_sloSpec_def look_sloStatus_def look_slo_def look_list_def

lemma framed_None [simp]: "framed (\<lambda>h. None)"
  by (simp add: framed_def)

lemma owning_None [simp]: "owning (\<lambda>h. None)"
  by (simp add: owning_def)

lemma framed_looks [simp]: "framed (look_labels m)" "framed (look_timePtr q)"
  by (simp_all add: look_labels_def look_timePtr_def look_time_def split: option.split)

lemma owning_looks [simp]: "owning (look_labels m)" "owning (look_timePtr q)"
  by (simp_all add: look_labels_def look_timePtr_def look_time_def split: option.split)

subsection \<open>The methods\<close>

text \<open>
  The copying methods of \<open>metav1\<close>: \<open>ObjectMeta.DeepCopyInto\<close>, \<open>ListMeta.DeepCopyInto\<close>,
  \<open>LabelSelector.DeepCopyInto\<close>, \<open>LabelSelectorRequirement.DeepCopyInto\<close> and \<open>Time.DeepCopy\<close>.
\<close>

record api_env = runtime +
  objectMeta_copy :: "heap \<Rightarrow> object_meta \<Rightarrow> heap \<times> object_meta"
  listMeta_copy :: "heap \<Rightarrow> list_meta \<Rightarrow> heap \<times> list_meta"
  selector_copy :: "heap \<Rightarrow> selector_obj \<Rightarrow> heap \<times> selector_obj"
  requirement_copy :: "heap \<Rightarrow> requirement_obj \<Rightarrow> heap \<times> requirement_obj"
  time_copy :: "heap \<Rightarrow> addr \<Rightarrow> heap \<times> addr"

text \<open>The zero values \<open>new\<close> and \<open>make\<close> fill memory with.\<close>

definition zero_selector :: selector_obj where
  "zero_selector = \<lparr>so_labels = None, so_expressions = None\<rparr>"

definition zero_requirement :: requirement_obj where
  "zero_requirement = \<lparr>ro_key = [], ro_operator = [], ro_values = None\<rparr>"

definition zero_spec :: spec_obj where
  "zero_spec = \<lparr>sp_targetVariance = Fin 0, sp_hotThreshold = Fin 0, sp_coldThreshold = Fin 0, sp_hysteresis = Fin 0,
     sp_maxPerMinute = 0, sp_namespaces = \<lparr>no_include = None, no_exclude = None\<rparr>, sp_selectors = None,
     sp_weightCPU = Fin 0, sp_weightMemory = Fin 0, sp_respectPriority = False, sp_respectPDB = False,
     sp_dryRun = False, sp_backoff = None, sp_maxPerNamespace = 0, sp_classPreference = None\<rparr>"

definition zero_plan :: plan_obj where
  "zero_plan = \<lparr>po_hotNodes = 0, po_coldNodes = 0, po_variance = Fin 0, po_planned = 0, po_executed = 0,
     po_lastExecution = None, po_dryRun = False, po_message = []\<rparr>"

definition zero_status :: status_obj where
  "zero_status = \<lparr>st_generation = 0, st_plan = zero_plan\<rparr>"

definition zero_typeMeta :: type_meta where
  "zero_typeMeta = \<lparr>tm_kind = [], tm_apiVersion = []\<rparr>"

definition zero_objectMeta :: object_meta where
  "zero_objectMeta = \<lparr>om_name = [], om_namespace = [], om_generation = 0, om_labels = None\<rparr>"

definition zero_policy :: policy_obj where
  "zero_policy = \<lparr>py_type = zero_typeMeta, py_meta = zero_objectMeta, py_spec = zero_spec, py_status = zero_status\<rparr>"

definition zero_classSpec :: class_spec_obj where
  "zero_classSpec = \<lparr>cs_labels = None, cs_expressions = None, cs_preferredFor = None, cs_weight = 0\<rparr>"

definition zero_classStatus :: class_status_obj where
  "zero_classStatus = \<lparr>ct_nodeCount = 0, ct_lastSync = None\<rparr>"

definition zero_nodeClass :: class_obj where
  "zero_nodeClass = \<lparr>cl_type = zero_typeMeta, cl_meta = zero_objectMeta, cl_spec = zero_classSpec, cl_status = zero_classStatus\<rparr>"

definition zero_sloSpec :: slo_spec_obj where
  "zero_sloSpec = \<lparr>ss_maxDisruptions = 0, ss_minReady = 0, ss_allowStatefulSet = False, ss_protectedLabels = None\<rparr>"

definition zero_sloStatus :: slo_status_obj where
  "zero_sloStatus = \<lparr>su_disruptions = 0, su_windowStart = None, su_lastViolation = None, su_message = []\<rparr>"

definition zero_slo :: slo_obj where
  "zero_slo = \<lparr>sl_type = zero_typeMeta, sl_meta = zero_objectMeta, sl_spec = zero_sloSpec, sl_status = zero_sloStatus\<rparr>"

definition zero_list :: list_obj where
  "zero_list = \<lparr>li_type = zero_typeMeta, li_meta = \<lparr>lm_resourceVersion = [], lm_remaining = None\<rparr>, li_items = None\<rparr>"

text \<open>The pieces the methods share: \<open>copy\<close> of a string slice, the loop over a map, a nil check around \<open>Time.DeepCopy\<close>.\<close>

definition copy_strings :: "heap \<Rightarrow> slice option \<Rightarrow> heap \<times> slice option" where
  "copy_strings h s = copy_slice as_strings Strings [] (\<lambda>i h x. (h, x)) h s"

fun map_loop :: "(string \<times> string) list \<Rightarrow> labels \<Rightarrow> labels" where
  "map_loop [] out = out"
| "map_loop ((k, v) # rest) out = map_loop rest (AList.update k v out)"

definition copy_map :: "'z runtime_scheme \<Rightarrow> pos \<Rightarrow> heap \<Rightarrow> addr option \<Rightarrow> heap \<times> addr option" where
  "copy_map E p h q = new_copy as_map StrMap [] (\<lambda>h m. (h, map_loop (go_range E p m) [])) h q"

definition copy_timePtr :: "'z api_env_scheme \<Rightarrow> heap \<Rightarrow> addr option \<Rightarrow> heap \<times> addr option" where
  "copy_timePtr M h q = (case q of None \<Rightarrow> (h, None) | Some a \<Rightarrow>
     let (h1, b) = time_copy M h a in (h1, Some b))"

subsubsection \<open>RebalancePolicy\<close>

definition RebalancePolicySpec_into :: "'z api_env_scheme \<Rightarrow> heap \<Rightarrow> spec_obj \<Rightarrow> heap \<times> spec_obj" where
  "RebalancePolicySpec_into M h i =
     (let (h1, selectors) = copy_slice as_selectors Selectors zero_selector (\<lambda>n. selector_copy M) h (sp_selectors i);
          (h2, backoff) = new_copy as_duration DurationCell 0 (\<lambda>h d. (h, d)) h1 (sp_backoff i);
          (h3, preference) = copy_strings h2 (sp_classPreference i) in
      (h3, i\<lparr>sp_selectors := selectors, sp_backoff := backoff, sp_classPreference := preference\<rparr>))"

definition RebalancePolicySpec_DeepCopy :: "'z api_env_scheme \<Rightarrow> heap \<Rightarrow> addr option \<Rightarrow> heap \<times> addr option" where
  "RebalancePolicySpec_DeepCopy M = new_copy as_spec SpecCell zero_spec (RebalancePolicySpec_into M)"

definition PlanStatus_into :: "'z api_env_scheme \<Rightarrow> heap \<Rightarrow> plan_obj \<Rightarrow> heap \<times> plan_obj" where
  "PlanStatus_into M h i = (let (h1, t) = copy_timePtr M h (po_lastExecution i) in (h1, i\<lparr>po_lastExecution := t\<rparr>))"

definition PlanStatus_DeepCopy :: "'z api_env_scheme \<Rightarrow> heap \<Rightarrow> addr option \<Rightarrow> heap \<times> addr option" where
  "PlanStatus_DeepCopy M = new_copy as_plan PlanCell zero_plan (PlanStatus_into M)"

definition RebalancePolicyStatus_into :: "'z api_env_scheme \<Rightarrow> heap \<Rightarrow> status_obj \<Rightarrow> heap \<times> status_obj" where
  "RebalancePolicyStatus_into M h i = (let (h1, pln) = PlanStatus_into M h (st_plan i) in (h1, i\<lparr>st_plan := pln\<rparr>))"

definition RebalancePolicyStatus_DeepCopy :: "'z api_env_scheme \<Rightarrow> heap \<Rightarrow> addr option \<Rightarrow> heap \<times> addr option" where
  "RebalancePolicyStatus_DeepCopy M = new_copy as_status StatusCell zero_status (RebalancePolicyStatus_into M)"

definition RebalancePolicy_into :: "'z api_env_scheme \<Rightarrow> heap \<Rightarrow> policy_obj \<Rightarrow> heap \<times> policy_obj" where
  "RebalancePolicy_into M h i =
     (let (h1, meta) = objectMeta_copy M h (py_meta i);
          (h2, spec) = RebalancePolicySpec_into M h1 (py_spec i);
          (h3, status) = RebalancePolicyStatus_into M h2 (py_status i) in
      (h3, i\<lparr>py_meta := meta, py_spec := spec, py_status := status\<rparr>))"

definition RebalancePolicy_DeepCopy :: "'z api_env_scheme \<Rightarrow> heap \<Rightarrow> addr option \<Rightarrow> heap \<times> addr option" where
  "RebalancePolicy_DeepCopy M = new_copy as_policy PolicyCell zero_policy (RebalancePolicy_into M)"

definition RebalancePolicyList_into :: "'z api_env_scheme \<Rightarrow> heap \<Rightarrow> list_obj \<Rightarrow> heap \<times> list_obj" where
  "RebalancePolicyList_into M h i =
     (let (h1, meta) = listMeta_copy M h (li_meta i);
          (h2, items) = copy_slice as_policies Policies zero_policy (\<lambda>n. RebalancePolicy_into M) h1 (li_items i) in
      (h2, i\<lparr>li_meta := meta, li_items := items\<rparr>))"

definition RebalancePolicyList_DeepCopy :: "'z api_env_scheme \<Rightarrow> heap \<Rightarrow> addr option \<Rightarrow> heap \<times> addr option" where
  "RebalancePolicyList_DeepCopy M = new_copy as_policyList PolicyListCell zero_list (RebalancePolicyList_into M)"

subsubsection \<open>NodeClass\<close>

definition NodeClassSpec_into :: "'z api_env_scheme \<Rightarrow> pos \<Rightarrow> heap \<Rightarrow> class_spec_obj \<Rightarrow> heap \<times> class_spec_obj" where
  "NodeClassSpec_into M p h i =
     (let (h1, matchLabels) = copy_map M p h (cs_labels i);
          (h2, expressions) = copy_slice as_requirements Requirements zero_requirement (\<lambda>n. requirement_copy M) h1 (cs_expressions i);
          (h3, preferred) = copy_strings h2 (cs_preferredFor i) in
      (h3, i\<lparr>cs_labels := matchLabels, cs_expressions := expressions, cs_preferredFor := preferred\<rparr>))"

definition NodeClassSpec_DeepCopy :: "'z api_env_scheme \<Rightarrow> pos \<Rightarrow> heap \<Rightarrow> addr option \<Rightarrow> heap \<times> addr option" where
  "NodeClassSpec_DeepCopy M p = new_copy as_classSpec ClassSpecCell zero_classSpec (NodeClassSpec_into M p)"

definition NodeClassStatus_into :: "'z api_env_scheme \<Rightarrow> heap \<Rightarrow> class_status_obj \<Rightarrow> heap \<times> class_status_obj" where
  "NodeClassStatus_into M h i = (let (h1, t) = copy_timePtr M h (ct_lastSync i) in (h1, i\<lparr>ct_lastSync := t\<rparr>))"

definition NodeClassStatus_DeepCopy :: "'z api_env_scheme \<Rightarrow> heap \<Rightarrow> addr option \<Rightarrow> heap \<times> addr option" where
  "NodeClassStatus_DeepCopy M = new_copy as_classStatus ClassStatusCell zero_classStatus (NodeClassStatus_into M)"

definition NodeClass_into :: "'z api_env_scheme \<Rightarrow> pos \<Rightarrow> heap \<Rightarrow> class_obj \<Rightarrow> heap \<times> class_obj" where
  "NodeClass_into M p h i =
     (let (h1, meta) = objectMeta_copy M h (cl_meta i);
          (h2, spec) = NodeClassSpec_into M p h1 (cl_spec i);
          (h3, status) = NodeClassStatus_into M h2 (cl_status i) in
      (h3, i\<lparr>cl_meta := meta, cl_spec := spec, cl_status := status\<rparr>))"

definition NodeClass_DeepCopy :: "'z api_env_scheme \<Rightarrow> pos \<Rightarrow> heap \<Rightarrow> addr option \<Rightarrow> heap \<times> addr option" where
  "NodeClass_DeepCopy M p = new_copy as_class ClassCell zero_nodeClass (NodeClass_into M p)"

definition NodeClassList_into :: "'z api_env_scheme \<Rightarrow> pos \<Rightarrow> heap \<Rightarrow> list_obj \<Rightarrow> heap \<times> list_obj" where
  "NodeClassList_into M p h i =
     (let (h1, meta) = listMeta_copy M h (li_meta i);
          (h2, items) = copy_slice as_classes Classes zero_nodeClass (\<lambda>n. NodeClass_into M (n # p)) h1 (li_items i) in
      (h2, i\<lparr>li_meta := meta, li_items := items\<rparr>))"

definition NodeClassList_DeepCopy :: "'z api_env_scheme \<Rightarrow> pos \<Rightarrow> heap \<Rightarrow> addr option \<Rightarrow> heap \<times> addr option" where
  "NodeClassList_DeepCopy M p = new_copy as_classList ClassListCell zero_list (NodeClassList_into M p)"

subsubsection \<open>WorkloadSLO\<close>

definition WorkloadSLOSpec_into :: "'z api_env_scheme \<Rightarrow> pos \<Rightarrow> heap \<Rightarrow> slo_spec_obj \<Rightarrow> heap \<times> slo_spec_obj" where
  "WorkloadSLOSpec_into M p h i =
     (let (h1, protected) = copy_map M p h (ss_protectedLabels i) in (h1, i\<lparr>ss_protectedLabels := protected\<rparr>))"

definition WorkloadSLOSpec_DeepCopy :: "'z api_env_scheme \<Rightarrow> pos \<Rightarrow> heap \<Rightarrow> addr option \<Rightarrow> heap \<times> addr option" where
  "WorkloadSLOSpec_DeepCopy M p = new_copy as_sloSpec SloSpecCell zero_sloSpec (WorkloadSLOSpec_into M p)"

definition WorkloadSLOStatus_into :: "'z api_env_scheme \<Rightarrow> heap \<Rightarrow> slo_status_obj \<Rightarrow> heap \<times> slo_status_obj" where
  "WorkloadSLOStatus_into M h i =
     (let (h1, start) = copy_timePtr M h (su_windowStart i);
          (h2, violation) = copy_timePtr M h1 (su_lastViolation i) in
      (h2, i\<lparr>su_windowStart := start, su_lastViolation := violation\<rparr>))"

definition WorkloadSLOStatus_DeepCopy :: "'z api_env_scheme \<Rightarrow> heap \<Rightarrow> addr option \<Rightarrow> heap \<times> addr option" where
  "WorkloadSLOStatus_DeepCopy M = new_copy as_sloStatus SloStatusCell zero_sloStatus (WorkloadSLOStatus_into M)"

definition WorkloadSLO_into :: "'z api_env_scheme \<Rightarrow> pos \<Rightarrow> heap \<Rightarrow> slo_obj \<Rightarrow> heap \<times> slo_obj" where
  "WorkloadSLO_into M p h i =
     (let (h1, meta) = objectMeta_copy M h (sl_meta i);
          (h2, spec) = WorkloadSLOSpec_into M p h1 (sl_spec i);
          (h3, status) = WorkloadSLOStatus_into M h2 (sl_status i) in
      (h3, i\<lparr>sl_meta := meta, sl_spec := spec, sl_status := status\<rparr>))"

definition WorkloadSLO_DeepCopy :: "'z api_env_scheme \<Rightarrow> pos \<Rightarrow> heap \<Rightarrow> addr option \<Rightarrow> heap \<times> addr option" where
  "WorkloadSLO_DeepCopy M p = new_copy as_slo SloCell zero_slo (WorkloadSLO_into M p)"

definition WorkloadSLOList_into :: "'z api_env_scheme \<Rightarrow> pos \<Rightarrow> heap \<Rightarrow> list_obj \<Rightarrow> heap \<times> list_obj" where
  "WorkloadSLOList_into M p h i =
     (let (h1, meta) = listMeta_copy M h (li_meta i);
          (h2, items) = copy_slice as_slos Slos zero_slo (\<lambda>n. WorkloadSLO_into M (n # p)) h1 (li_items i) in
      (h2, i\<lparr>li_meta := meta, li_items := items\<rparr>))"

definition WorkloadSLOList_DeepCopy :: "'z api_env_scheme \<Rightarrow> pos \<Rightarrow> heap \<Rightarrow> addr option \<Rightarrow> heap \<times> addr option" where
  "WorkloadSLOList_DeepCopy M p = new_copy as_sloList SloListCell zero_list (WorkloadSLOList_into M p)"

subsubsection \<open>runtime.Object\<close>

text \<open>
  A value of the interface \<open>runtime.Object\<close> is nil (\<open>None\<close>) or a typed pointer; a typed pointer that is nil
  would not be the nil interface, which is why the methods test the copy.
\<close>

datatype api_object =
    PolicyObject "addr option" | PolicyListObject "addr option"
  | ClassObject "addr option" | ClassListObject "addr option"
  | SloObject "addr option" | SloListObject "addr option"

definition object_of :: "(addr option \<Rightarrow> api_object) \<Rightarrow> heap \<times> addr option \<Rightarrow> heap \<times> api_object option" where
  "object_of kind hc = (let (h, c) = hc in if c \<noteq> None then (h, Some (kind c)) else (h, None))"

definition RebalancePolicy_DeepCopyObject where
  "RebalancePolicy_DeepCopyObject M h q = object_of PolicyObject (RebalancePolicy_DeepCopy M h q)"

definition RebalancePolicyList_DeepCopyObject where
  "RebalancePolicyList_DeepCopyObject M h q = object_of PolicyListObject (RebalancePolicyList_DeepCopy M h q)"

definition NodeClass_DeepCopyObject where
  "NodeClass_DeepCopyObject M p h q = object_of ClassObject (NodeClass_DeepCopy M p h q)"

definition NodeClassList_DeepCopyObject where
  "NodeClassList_DeepCopyObject M p h q = object_of ClassListObject (NodeClassList_DeepCopy M p h q)"

definition WorkloadSLO_DeepCopyObject where
  "WorkloadSLO_DeepCopyObject M p h q = object_of SloObject (WorkloadSLO_DeepCopy M p h q)"

definition WorkloadSLOList_DeepCopyObject where
  "WorkloadSLOList_DeepCopyObject M p h q = object_of SloListObject (WorkloadSLOList_DeepCopy M p h q)"

subsection \<open>The contract of the API machinery\<close>

locale api_machinery = go_runtime M
  + objectMeta: go_deep_copy look_objectMeta "objectMeta_copy M"
  + listMeta: go_deep_copy look_listMeta "listMeta_copy M"
  + selector: go_deep_copy look_selector "selector_copy M"
  + requirement: go_deep_copy look_requirement "requirement_copy M"
  + time: go_deep_copy look_time "time_copy M"
  for M :: "'z api_env_scheme"

subsection \<open>Structs whose members are copied in turn\<close>

text \<open>\<open>rest\<close> are the members the assignment of the struct has copied: values, and borrowed references.\<close>

definition settled :: "shape \<Rightarrow> bool" where
  "settled s \<longleftrightarrow> framed s \<and> (\<forall>h h'. prefix h h' \<longrightarrow> copied h s h' s)"

lemma settled_leaf [simp]: "settled (leaf t)"
  by (simp add: settled_def)

lemma settled_borrow [simp]: "framed s \<Longrightarrow> settled (borrow s)"
  by (simp add: settled_def copied_borrow)

lemma settled_typeMeta [simp]: "settled (look_typeMeta m)"
  by (simp add: look_typeMeta_def)

lemma settled_rest: "list_all settled ss \<Longrightarrow> prefix h h' \<Longrightarrow> list_all2 (\<lambda>s s'. copied h s h' s') ss ss"
  by (induction ss) (auto simp: settled_def)

lemma settled_framed: "list_all settled ss \<Longrightarrow> \<forall>s\<in>set ss. framed s"
  by (auto simp: list_all_iff settled_def)

lemma go_copy_struct1:
  assumes A: "go_copy A ca"
    and look: "\<And>x. look x = struct ([A (fa x)] @ rest x)" and rest: "\<And>x. list_all settled (rest x)"
    and into: "\<And>h x. into h x = (let (h1, a) = ca h (fa x) in (h1, upd a x))"
    and upd: "\<And>a x. fa (upd a x) = a" "\<And>a x. rest (upd a x) = rest x"
  shows "go_copy look into"
proof
  fix x h h' y assume run: "into h x = (h', y)"
  obtain h1 a where 1: "ca h (fa x) = (h1, a)" by fastforce
  have h': "h' = h1" and y: "y = upd a x" using run 1 by (simp_all add: into)
  show pre: "prefix h h'" using go_copy.copy_prefix [OF A 1] by (simp add: h')
  show "copied h (look x) h' (look y)"
    unfolding look y upd
    using go_copy.copy_value [OF A 1] settled_rest [OF rest pre] by (intro copied_struct) (simp add: h')
next
  show "framed (look x)" for x
    unfolding look using go_copy.framed_look [OF A] settled_framed [OF rest, of x] by (intro framed_struct) simp
qed

lemma go_copy_struct2:
  assumes A: "go_copy A ca" and B: "go_copy B cb"
    and look: "\<And>x. look x = struct ([A (fa x), B (fb x)] @ rest x)" and rest: "\<And>x. list_all settled (rest x)"
    and into: "\<And>h x. into h x = (let (h1, a) = ca h (fa x); (h2, b) = cb h1 (fb x) in (h2, upd a b x))"
    and upd: "\<And>a b x. fa (upd a b x) = a" "\<And>a b x. fb (upd a b x) = b" "\<And>a b x. rest (upd a b x) = rest x"
  shows "go_copy look into"
proof
  fix x h h' y assume run: "into h x = (h', y)"
  obtain h1 a where 1: "ca h (fa x) = (h1, a)" by fastforce
  obtain h2 b where 2: "cb h1 (fb x) = (h2, b)" by fastforce
  have h': "h' = h2" and y: "y = upd a b x" using run 1 2 by (simp_all add: into)
  note p1 = go_copy.copy_prefix [OF A 1] and p2 = go_copy.copy_prefix [OF B 2]
  show pre: "prefix h h'" unfolding h' by (rule prefix_order.trans [OF p1 p2])
  have "copied h (A (fa x)) h2 (A a)" by (rule go_copy.copy_between [OF A 1 prefix_order.refl p2])
  moreover have "copied h (B (fb x)) h2 (B b)" by (rule go_copy.copy_between [OF B 2 p1 prefix_order.refl])
  ultimately show "copied h (look x) h' (look y)"
    unfolding look y upd using settled_rest [OF rest pre] by (intro copied_struct) (simp add: h')
next
  show "framed (look x)" for x
    unfolding look using go_copy.framed_look [OF A] go_copy.framed_look [OF B] settled_framed [OF rest, of x]
    by (intro framed_struct) simp
qed

lemma go_copy_struct3:
  assumes A: "go_copy A ca" and B: "go_copy B cb" and C: "go_copy C cc"
    and look: "\<And>x. look x = struct ([A (fa x), B (fb x), C (fc x)] @ rest x)" and rest: "\<And>x. list_all settled (rest x)"
    and into: "\<And>h x. into h x = (let (h1, a) = ca h (fa x); (h2, b) = cb h1 (fb x); (h3, c) = cc h2 (fc x) in (h3, upd a b c x))"
    and upd: "\<And>a b c x. fa (upd a b c x) = a" "\<And>a b c x. fb (upd a b c x) = b"
      "\<And>a b c x. fc (upd a b c x) = c" "\<And>a b c x. rest (upd a b c x) = rest x"
  shows "go_copy look into"
proof
  fix x h h' y assume run: "into h x = (h', y)"
  obtain h1 a where 1: "ca h (fa x) = (h1, a)" by fastforce
  obtain h2 b where 2: "cb h1 (fb x) = (h2, b)" by fastforce
  obtain h3 c where 3: "cc h2 (fc x) = (h3, c)" by fastforce
  have h': "h' = h3" and y: "y = upd a b c x" using run 1 2 3 by (simp_all add: into)
  note p1 = go_copy.copy_prefix [OF A 1] and p2 = go_copy.copy_prefix [OF B 2] and p3 = go_copy.copy_prefix [OF C 3]
  note p12 = prefix_order.trans [OF p1 p2] and p23 = prefix_order.trans [OF p2 p3]
  show pre: "prefix h h'" unfolding h' by (rule prefix_order.trans [OF p12 p3])
  have "copied h (A (fa x)) h3 (A a)" by (rule go_copy.copy_between [OF A 1 prefix_order.refl p23])
  moreover have "copied h (B (fb x)) h3 (B b)" by (rule go_copy.copy_between [OF B 2 p1 p3])
  moreover have "copied h (C (fc x)) h3 (C c)" by (rule go_copy.copy_between [OF C 3 p12 prefix_order.refl])
  ultimately show "copied h (look x) h' (look y)"
    unfolding look y upd using settled_rest [OF rest pre] by (intro copied_struct) (simp add: h')
next
  show "framed (look x)" for x
    unfolding look using go_copy.framed_look [OF A] go_copy.framed_look [OF B] go_copy.framed_look [OF C]
      settled_framed [OF rest, of x] by (intro framed_struct) simp
qed

lemma go_copy_leaf: "go_copy (\<lambda>x. leaf (f x)) (\<lambda>h x. (h, x))"
  by unfold_locales auto

lemma go_copy_strings: "go_copy look_strings copy_strings"
  unfolding look_strings_def [abs_def] copy_strings_def [abs_def]
  using go_copy_slice [of as_strings Strings "\<lambda>x. leaf (TStr x)" "\<lambda>i h x. (h, x)" "[]"]
  by (simp add: go_copy_leaf [where f = TStr])

lemma map_of_map_loop: "map_of (map_loop kvs out) = map_of (rev kvs @ out)"
  by (induction kvs out rule: map_loop.induct) (auto simp: map_of_update map_of_append map_add_def split: option.splits)

lemma wf_map_loop: "wf_map out \<Longrightarrow> wf_map (map_loop kvs out)"
  by (induction kvs out rule: map_loop.induct) auto

lemma go_copy_map:
  assumes "go_runtime E" shows "go_copy look_map (copy_map E p)"
proof -
  note wf_range = go_runtime.wf_map_go_range [OF assms] and set_range = go_runtime.set_go_range [OF assms]
  have "go_copy look_labels (\<lambda>h m. (h, map_loop (go_range E p m) []))"
  proof
    fix m h h' y assume run: "(h :: heap, map_loop (go_range E p m) []) = (h', y)"
    then show "prefix h h'" by simp
    have "look_labels y = look_labels m" if wf: "wf_map m"
    proof -
      have "map_of y = map_of (rev (go_range E p m))" using run by (auto simp: map_of_map_loop)
      also have "\<dots> = map_of m"
      proof
        fix k
        have d: "distinct (map fst (go_range E p m))" using wf_range [OF wf] by (simp add: wf_map_def)
        have "wf_map (rev (go_range E p m))" using d by (simp add: wf_map_def rev_map [symmetric])
        then show "map_of (rev (go_range E p m)) k = map_of m k"
          using wf by (rule wf_map_eqI) (simp add: set_range [OF wf])
      qed
      finally show ?thesis using wf run by (auto simp: look_labels_def wf_map_loop)
    qed
    then show "copied h (look_labels m) h' (look_labels y)"
      by (cases "wf_map m") (auto simp: look_labels_def copied_def leaf_def split: if_splits)
  qed simp
  from go_copy_ptr [of as_map StrMap, OF _ this, of "[]"] show ?thesis
    by (simp add: look_map_def [abs_def] copy_map_def [abs_def])
qed

lemma go_copy_timePtr:
  assumes "go_copy look_time (time_copy M)" shows "go_copy look_timePtr (copy_timePtr M)"
proof
  fix q h h' q' assume run: "copy_timePtr M h q = (h', q')"
  show "prefix h h'" and "copied h (look_timePtr q) h' (look_timePtr q')"
    using run go_copy.copy_prefix [OF assms] go_copy.copy_value [OF assms]
    by (auto simp: copy_timePtr_def look_timePtr_def split: option.splits prod.splits)
qed simp

subsection \<open>Every method keeps the contract\<close>

context api_machinery begin

lemma selectors_copy: "go_copy (slice as_selectors look_selector)
    (copy_slice as_selectors Selectors zero_selector (\<lambda>n. selector_copy M))"
  by (rule go_copy_slice) (simp_all add: selector.go_copy_axioms)

lemma requirements_copy: "go_copy (slice as_requirements look_requirement)
    (copy_slice as_requirements Requirements zero_requirement (\<lambda>n. requirement_copy M))"
  by (rule go_copy_slice) (simp_all add: requirement.go_copy_axioms)

lemma duration_copy: "go_copy (ptr as_duration (\<lambda>d. leaf (TInt d))) (new_copy as_duration DurationCell 0 (\<lambda>h d. (h, d)))"
  by (rule go_copy_ptr) (simp_all add: go_copy_leaf)

lemma timePtr_copy: "go_copy look_timePtr (copy_timePtr M)"
  by (rule go_copy_timePtr) (rule time.go_copy_axioms)

lemma map_copy: "go_copy look_map (copy_map M p)"
  by (rule go_copy_map) (rule go_runtime_axioms)

lemma spec_copies: "go_copy look_spec (RebalancePolicySpec_into M)"
  by (rule go_copy_struct3 [where fa = sp_selectors and fb = sp_backoff and fc = sp_classPreference
        and upd = "\<lambda>a b c x. x\<lparr>sp_selectors := a, sp_backoff := b, sp_classPreference := c\<rparr>",
        OF selectors_copy duration_copy go_copy_strings look_spec_def])
     (simp_all add: look_spec_def look_namespaces_def look_strings_def RebalancePolicySpec_into_def)

lemma plan_copies: "go_copy look_plan (PlanStatus_into M)"
  by (rule go_copy_struct1 [where fa = po_lastExecution and upd = "\<lambda>a x. x\<lparr>po_lastExecution := a\<rparr>", OF timePtr_copy look_plan_def])
     (simp_all add: look_plan_def PlanStatus_into_def)

lemma status_copies: "go_copy look_status (RebalancePolicyStatus_into M)"
  by (rule go_copy_struct1 [where fa = st_plan and upd = "\<lambda>a x. x\<lparr>st_plan := a\<rparr>", OF plan_copies look_status_def])
     (simp_all add: look_status_def RebalancePolicyStatus_into_def)

lemma policy_copies: "go_copy look_policy (RebalancePolicy_into M)"
  by (rule go_copy_struct3 [where fa = py_meta and fb = py_spec and fc = py_status
        and upd = "\<lambda>a b c x. x\<lparr>py_meta := a, py_spec := b, py_status := c\<rparr>",
        OF objectMeta.go_copy_axioms spec_copies status_copies look_policy_def])
     (simp_all add: look_policy_def RebalancePolicy_into_def)

lemma policies_copies: "go_copy (slice as_policies look_policy) (copy_slice as_policies Policies zero_policy (\<lambda>n. RebalancePolicy_into M))"
  by (rule go_copy_slice) (simp_all add: policy_copies)

lemma policyList_copies: "go_copy (look_list (slice as_policies look_policy)) (RebalancePolicyList_into M)"
  by (rule go_copy_struct2 [where fa = li_meta and fb = li_items and upd = "\<lambda>a b x. x\<lparr>li_meta := a, li_items := b\<rparr>",
        OF listMeta.go_copy_axioms policies_copies
        look_list_def [where items = "slice as_policies look_policy"]])
     (simp_all add: look_list_def RebalancePolicyList_into_def)

lemma classSpec_copies: "go_copy look_classSpec (NodeClassSpec_into M p)"
  by (rule go_copy_struct3 [where fa = cs_labels and fb = cs_expressions and fc = cs_preferredFor
        and upd = "\<lambda>a b c x. x\<lparr>cs_labels := a, cs_expressions := b, cs_preferredFor := c\<rparr>",
        OF map_copy requirements_copy go_copy_strings look_classSpec_def])
     (simp_all add: look_classSpec_def NodeClassSpec_into_def)

lemma classStatus_copies: "go_copy look_classStatus (NodeClassStatus_into M)"
  by (rule go_copy_struct1 [where fa = ct_lastSync and upd = "\<lambda>a x. x\<lparr>ct_lastSync := a\<rparr>", OF timePtr_copy look_classStatus_def])
     (simp_all add: look_classStatus_def NodeClassStatus_into_def)

lemma class_copies: "go_copy look_class (NodeClass_into M p)"
  by (rule go_copy_struct3 [where fa = cl_meta and fb = cl_spec and fc = cl_status
        and upd = "\<lambda>a b c x. x\<lparr>cl_meta := a, cl_spec := b, cl_status := c\<rparr>",
        OF objectMeta.go_copy_axioms classSpec_copies classStatus_copies look_class_def])
     (simp_all add: look_class_def NodeClass_into_def)

lemma classes_copies: "go_copy (slice as_classes look_class) (copy_slice as_classes Classes zero_nodeClass (\<lambda>n. NodeClass_into M (n # p)))"
  by (rule go_copy_slice) (simp_all add: class_copies)

lemma classList_copies: "go_copy (look_list (slice as_classes look_class)) (NodeClassList_into M p)"
  by (rule go_copy_struct2 [where fa = li_meta and fb = li_items and upd = "\<lambda>a b x. x\<lparr>li_meta := a, li_items := b\<rparr>",
        OF listMeta.go_copy_axioms classes_copies
        look_list_def [where items = "slice as_classes look_class"]])
     (simp_all add: look_list_def NodeClassList_into_def)

lemma sloSpec_copies: "go_copy look_sloSpec (WorkloadSLOSpec_into M p)"
  by (rule go_copy_struct1 [where fa = ss_protectedLabels and upd = "\<lambda>a x. x\<lparr>ss_protectedLabels := a\<rparr>", OF map_copy look_sloSpec_def])
     (simp_all add: look_sloSpec_def WorkloadSLOSpec_into_def)

lemma sloStatus_copies: "go_copy look_sloStatus (WorkloadSLOStatus_into M)"
  by (rule go_copy_struct2 [where fa = su_windowStart and fb = su_lastViolation
        and upd = "\<lambda>a b x. x\<lparr>su_windowStart := a, su_lastViolation := b\<rparr>", OF timePtr_copy timePtr_copy look_sloStatus_def])
     (simp_all add: look_sloStatus_def WorkloadSLOStatus_into_def)

lemma slo_copies: "go_copy look_slo (WorkloadSLO_into M p)"
  by (rule go_copy_struct3 [where fa = sl_meta and fb = sl_spec and fc = sl_status
        and upd = "\<lambda>a b c x. x\<lparr>sl_meta := a, sl_spec := b, sl_status := c\<rparr>",
        OF objectMeta.go_copy_axioms sloSpec_copies sloStatus_copies look_slo_def])
     (simp_all add: look_slo_def WorkloadSLO_into_def)

lemma slos_copies: "go_copy (slice as_slos look_slo) (copy_slice as_slos Slos zero_slo (\<lambda>n. WorkloadSLO_into M (n # p)))"
  by (rule go_copy_slice) (simp_all add: slo_copies)

lemma sloList_copies: "go_copy (look_list (slice as_slos look_slo)) (WorkloadSLOList_into M p)"
  by (rule go_copy_struct2 [where fa = li_meta and fb = li_items and upd = "\<lambda>a b x. x\<lparr>li_meta := a, li_items := b\<rparr>",
        OF listMeta.go_copy_axioms slos_copies
        look_list_def [where items = "slice as_slos look_slo"]])
     (simp_all add: look_list_def WorkloadSLOList_into_def)

lemma DeepCopy_copies:
  "go_copy (ptr as_spec look_spec) (RebalancePolicySpec_DeepCopy M)"
  "go_copy (ptr as_plan look_plan) (PlanStatus_DeepCopy M)"
  "go_copy (ptr as_status look_status) (RebalancePolicyStatus_DeepCopy M)"
  "go_copy (ptr as_policy look_policy) (RebalancePolicy_DeepCopy M)"
  "go_copy (ptr as_policyList (look_list (slice as_policies look_policy))) (RebalancePolicyList_DeepCopy M)"
  "go_copy (ptr as_classSpec look_classSpec) (NodeClassSpec_DeepCopy M p)"
  "go_copy (ptr as_classStatus look_classStatus) (NodeClassStatus_DeepCopy M)"
  "go_copy (ptr as_class look_class) (NodeClass_DeepCopy M p)"
  "go_copy (ptr as_classList (look_list (slice as_classes look_class))) (NodeClassList_DeepCopy M p)"
  "go_copy (ptr as_sloSpec look_sloSpec) (WorkloadSLOSpec_DeepCopy M p)"
  "go_copy (ptr as_sloStatus look_sloStatus) (WorkloadSLOStatus_DeepCopy M)"
  "go_copy (ptr as_slo look_slo) (WorkloadSLO_DeepCopy M p)"
  "go_copy (ptr as_sloList (look_list (slice as_slos look_slo))) (WorkloadSLOList_DeepCopy M p)"
  unfolding RebalancePolicySpec_DeepCopy_def PlanStatus_DeepCopy_def RebalancePolicyStatus_DeepCopy_def
    RebalancePolicy_DeepCopy_def RebalancePolicyList_DeepCopy_def NodeClassSpec_DeepCopy_def
    NodeClassStatus_DeepCopy_def NodeClass_DeepCopy_def NodeClassList_DeepCopy_def WorkloadSLOSpec_DeepCopy_def
    WorkloadSLOStatus_DeepCopy_def WorkloadSLO_DeepCopy_def WorkloadSLOList_DeepCopy_def
  by (rule go_copy_ptr; simp add: spec_copies plan_copies status_copies policy_copies policyList_copies
      classSpec_copies classStatus_copies class_copies classList_copies sloSpec_copies sloStatus_copies
      slo_copies sloList_copies)+

lemma owning_meta: "owning (look_objectMeta m)" "owning (look_listMeta l)" "owning (look_requirement r)"
  by (rule objectMeta.owning_look listMeta.owning_look requirement.owning_look)+

end

lemma owning_classes [simp]:
  "owning (look_classSpec s)" "owning (look_classStatus t)" "owning (look_sloSpec u)" "owning (look_sloStatus w)"
  by (simp_all add: look_classSpec_def look_classStatus_def look_sloSpec_def look_sloStatus_def look_map_def
      look_strings_def look_requirement_def)

lemma owning_objects [simp]: "owning (look_objectMeta m)" "owning (look_listMeta l)"
    "owning (look_class x)" "owning (look_slo y)" "owning (look_typeMeta z)"
  by (simp_all add: look_class_def look_slo_def look_objectMeta_def look_listMeta_def look_map_def look_typeMeta_def)

text \<open>The copies of node classes and workload objectives, single or in a list, are deep.\<close>

sublocale api_machinery < classCopy: go_deep_copy "ptr as_class look_class" "NodeClass_DeepCopy M p" for p
  by (rule go_deep_copy.intro [OF DeepCopy_copies(8)]) (unfold_locales, simp)

sublocale api_machinery < classListCopy: go_deep_copy
    "ptr as_classList (look_list (slice as_classes look_class))" "NodeClassList_DeepCopy M p" for p
  by (rule go_deep_copy.intro [OF DeepCopy_copies(9)]) (unfold_locales, simp add: look_list_def)

sublocale api_machinery < sloCopy: go_deep_copy "ptr as_slo look_slo" "WorkloadSLO_DeepCopy M p" for p
  by (rule go_deep_copy.intro [OF DeepCopy_copies(12)]) (unfold_locales, simp)

sublocale api_machinery < sloListCopy: go_deep_copy
    "ptr as_sloList (look_list (slice as_slos look_slo))" "WorkloadSLOList_DeepCopy M p" for p
  by (rule go_deep_copy.intro [OF DeepCopy_copies(13)]) (unfold_locales, simp add: look_list_def)

sublocale api_machinery < policyCopy: go_copy "ptr as_policy look_policy" "RebalancePolicy_DeepCopy M"
  by (rule DeepCopy_copies(4))

sublocale api_machinery < policyListCopy: go_copy
    "ptr as_policyList (look_list (slice as_policies look_policy))" "RebalancePolicyList_DeepCopy M"
  by (rule DeepCopy_copies(5))

subsection \<open>What a copy of a policy shares\<close>

lemma owning_SomeD: "owning s \<Longrightarrow> s h = Some r \<Longrightarrow> snd (snd r) = {}"
  by (cases r) (auto simp: owning_def)

text \<open>A struct with one member that borrows borrows what that member does.\<close>

lemma collect_borrows:
  assumes "list_all owning xs" and "list_all owning ys" and "ss = xs @ b # ys" and "collect node own ss h = Some (t, A, B)"
  obtains u C where "b h = Some (u, C, B)"
proof -
  obtain rs where rs: "map (\<lambda>s. s h) (xs @ b # ys) = map Some rs" and B: "B = \<Union>(set (map (\<lambda>r. snd (snd r)) rs))"
    using assms(4) unfolding assms(3) by (rule collect_SomeE)
  from rs obtain rx rb ry where r: "rs = rx @ rb # ry" "map (\<lambda>s. s h) xs = map Some rx" "b h = Some rb"
      "map (\<lambda>s. s h) ys = map Some ry"
    by (auto simp: map_eq_append_conv append_eq_map_conv Cons_eq_map_conv map_eq_Cons_conv)
  have "snd (snd q) = {}" if "list_all owning zs" "map (\<lambda>s. s h) zs = map Some rz" "q \<in> set rz" for zs rz q
  proof -
    have "Some q \<in> set (map (\<lambda>s. s h) zs)" using that by simp
    then obtain s where "s \<in> set zs" "s h = Some q" by auto
    with that(1) show ?thesis using owning_SomeD [of s h q] by (simp add: list_all_iff)
  qed
  from this [OF assms(1) r(2)] this [OF assms(2) r(4)] have "B = snd (snd rb)"
    unfolding B r(1) by auto
  with that r(3) show ?thesis by (cases rb) auto
qed

definition namespace_arrays :: "policy_obj \<Rightarrow> addr set" where
  "namespace_arrays x = sl_array ` (set_option (no_include (sp_namespaces (py_spec x)))
     \<union> set_option (no_exclude (sp_namespaces (py_spec x))))"

lemma those_map_SomeF [simp]: "those (map (\<lambda>x. Some (f x)) xs) = Some (map f xs)"
  by (induction xs) auto

lemma look_strings_arrays: "look_strings s h = Some (t, A, B) \<Longrightarrow> A = sl_array ` set_option s \<and> B = {}
    \<and> (\<forall>r. s = Some r \<longrightarrow> (\<exists>xs. h ! sl_array r = Strings xs))"
  by (auto simp: look_strings_def slice_def leaf_def as_strings_def collect_def comp_def
      split: option.splits if_splits cell.splits)

lemma look_policy_borrows:
  assumes "look_policy x h = Some (t, A, B)"
  shows "B = namespace_arrays x \<and> (\<forall>a\<in>B. \<exists>xs. h ! a = Strings xs)"
proof -
  obtain u C where spec: "look_spec (py_spec x) h = Some (u, C, B)"
    by (rule collect_borrows [where xs = "[look_objectMeta (py_meta x)]" and ys = "[look_status (py_status x), look_typeMeta (py_type x)]",
        OF _ _ _ assms [unfolded look_policy_def struct_def]])
      (simp_all add: look_status_def look_plan_def)
  obtain v D where ns: "borrow (look_namespaces (sp_namespaces (py_spec x))) h = Some (v, D, B)"
    by (rule collect_borrows [where b = "borrow (look_namespaces (sp_namespaces (py_spec x)))", OF _ _ refl spec [unfolded look_spec_def struct_def]])
      (simp_all add: look_strings_def look_selector_def look_requirement_def look_map_def)
  then obtain F G where n: "look_namespaces (sp_namespaces (py_spec x)) h = Some (v, F, G)" "B = F \<union> G"
    by (auto simp: borrow_def)
  obtain ti A1 B1 te A2 B2 where i: "look_strings (no_include (sp_namespaces (py_spec x))) h = Some (ti, A1, B1)"
      and e: "look_strings (no_exclude (sp_namespaces (py_spec x))) h = Some (te, A2, B2)"
      and FG: "F = A1 \<union> A2" "G = B1 \<union> B2"
    using n(1) by (auto simp: look_namespaces_def struct_def collect_def split: option.splits)
  have "B = namespace_arrays x"
    using look_strings_arrays [OF i] look_strings_arrays [OF e] n(2) FG by (auto simp: namespace_arrays_def)
  moreover have "\<exists>xs. h ! a = Strings xs" if "a \<in> B" for a
    using that look_strings_arrays [OF i] look_strings_arrays [OF e] n(2) FG by auto
  ultimately show ?thesis by blast
qed

lemma ptr_policy_borrows:
  assumes "ptr as_policy look_policy (Some a) h = Some (t, A, B)"
  obtains x where "h ! a = PolicyCell x" and "a < length h" and "B = namespace_arrays x"
    and "\<forall>b\<in>B. \<exists>xs. h ! b = Strings xs" and "a \<in> A"
proof -
  obtain x where x: "a < length h" "as_policy (h ! a) = Some x"
    and c: "collect (\<lambda>ts. TPtr (hd ts)) {a} [look_policy x] h = Some (t, A, B)"
    using assms by (auto simp: ptr_def split: if_splits option.splits)
  obtain u C where "look_policy x h = Some (u, C, B)"
    by (rule collect_borrows [where xs = "[]" and ys = "[]", OF _ _ _ c]) simp_all
  note b = look_policy_borrows [OF this]
  have "h ! a = PolicyCell x" using x(2) by (simp add: as_policy_def split: cell.splits)
  moreover have "a \<in> A" using c by (auto elim: collect_SomeE)
  ultimately show ?thesis using that b x by blast
qed

context api_machinery begin

lemmas policy_framed = policyCopy.framed_look
lemmas policy_prefix = policyCopy.copy_prefix
lemmas policy_value = policyCopy.copy_value
lemmas policy_write_original = policyCopy.write_original
lemmas classList_independent = classListCopy.independent
lemmas sloList_independent = sloListCopy.independent

lemma policy_DeepCopy_object:
  assumes "RebalancePolicy_DeepCopy M h (Some a) = (h', c)" and "a < length h" and "h ! a = PolicyCell x"
  obtains y where "c = Some (length h)" and "h' ! length h = PolicyCell y" and "length h < length h'"
    and "sp_namespaces (py_spec y) = sp_namespaces (py_spec x)"
proof -
  obtain h2 y where step: "RebalancePolicy_into M (h @ [PolicyCell zero_policy]) x = (h2, y)" by fastforce
  have run: "h' = h2[length h := PolicyCell y]" "c = Some (length h)"
    using assms step by (simp_all add: RebalancePolicy_DeepCopy_def new_copy_def alloc_def nth_append)
  have "prefix (h @ [PolicyCell zero_policy]) h2" by (rule go_copy.copy_prefix [OF policy_copies step])
  then have "length h < length h2" using prefix_length_le by fastforce
  moreover have "sp_namespaces (py_spec y) = sp_namespaces (py_spec x)"
    using step by (auto simp: RebalancePolicy_into_def RebalancePolicySpec_into_def split: prod.splits)
  ultimately show ?thesis using that run by simp
qed

end

text \<open>
  C32: the copy of a policy. \<open>DeepCopy\<close> gives a new object that reads as the original, changes no memory
  of the original and owns memory of its own; the only memory the two share are the arrays of the
  namespace lists of the selector.
\<close>

theorem policy_DeepCopy_value:
  assumes "api_machinery M" and "ptr as_policy look_policy (Some a) h = Some (t, A, B)"
    and "RebalancePolicy_DeepCopy M h (Some a) = (h', c)"
  shows "prefix h h' \<and> (\<exists>b A'. c = Some b \<and> b \<noteq> a \<and> ptr as_policy look_policy c h' = Some (t, A', B)
    \<and> A \<inter> A' = {} \<and> (\<exists>x. h ! a = PolicyCell x \<and> B = namespace_arrays x))"
proof -
  have "copied h (ptr as_policy look_policy (Some a)) h' (ptr as_policy look_policy c)"
    by (rule api_machinery.policy_value [OF assms(1,3)])
  then obtain A' where c: "ptr as_policy look_policy c h' = Some (t, A', B)" "A' \<subseteq> {length h..}"
    using assms(2) by (rule copiedE)
  obtain x where x: "h ! a = PolicyCell x" "a < length h" "B = namespace_arrays x"
    using assms(2) by (rule ptr_policy_borrows)
  have b: "c = Some (length h)" by (rule api_machinery.policy_DeepCopy_object [OF assms(1,3) x(2,1)])
  have "A \<subseteq> {..<length h}" using framedD(1) [OF api_machinery.policy_framed [OF assms(1)] assms(2)] .
  then have "A \<inter> A' = {}" using c(2) by fastforce
  with c b x api_machinery.policy_prefix [OF assms(1,3)] show ?thesis by auto
qed

text \<open>
  The copy \<open>updateStatus\<close> patches from is not changed by the update. After \<open>original := policy.DeepCopy()\<close>
  the status of the policy may be assigned anything: the original still reads as the policy did before.
\<close>

lemma policy_copy_kept_by_update:
  assumes "api_machinery M" and "ptr as_policy look_policy (Some a) h = Some (t, A, B)"
    and "RebalancePolicy_DeepCopy M h (Some a) = (h', original)"
  shows "\<exists>x A'. h' ! a = PolicyCell x
    \<and> ptr as_policy look_policy original (h'[a := PolicyCell (x\<lparr>py_status := status\<rparr>)]) = Some (t, A', B)"
proof -
  obtain x where x: "h ! a = PolicyCell x" "a < length h" "\<forall>b\<in>B. \<exists>xs. h ! b = Strings xs"
    using assms(2) by (rule ptr_policy_borrows)
  then have "a \<notin> B" by fastforce
  then have "\<exists>A'. ptr as_policy look_policy original (h'[a := PolicyCell (x\<lparr>py_status := status\<rparr>)]) = Some (t, A', B)"
    by (rule api_machinery.policy_write_original [OF assms(1,2,3) x(2)])
  moreover have "h' ! a = PolicyCell x" using prefix_nth [OF api_machinery.policy_prefix [OF assms(1,3)] x(2)] x(1) by simp
  ultimately show ?thesis by blast
qed

text \<open>Reading and assigning the elements of a slice of strings.\<close>

definition read_strings :: "heap \<Rightarrow> slice \<Rightarrow> string list" where
  "read_strings h r = take (sl_len r) (drop (sl_off r) (the (as_strings (h ! sl_array r))))"

definition assign_string :: "heap \<Rightarrow> slice \<Rightarrow> nat \<Rightarrow> string \<Rightarrow> heap" where
  "assign_string h r i v = h[sl_array r := Strings ((the (as_strings (h ! sl_array r)))[sl_off r + i := v])]"

text \<open>
  The copy of a policy shares its namespace lists with the original. Assigning an element of the
  \<open>Include\<close> list of the copy changes that element in the original.
\<close>

lemma policy_copy_shares_namespaces:
  assumes "api_machinery M" and "ptr as_policy look_policy (Some a) h = Some (t, A, B)"
    and "RebalancePolicy_DeepCopy M h (Some a) = (h', Some b)"
    and "h ! a = PolicyCell x" and "no_include (sp_namespaces (py_spec x)) = Some r"
  shows "\<exists>y r'. h' ! b = PolicyCell y \<and> no_include (sp_namespaces (py_spec y)) = Some r'
    \<and> read_strings (assign_string h' r' i v) r = (read_strings h r)[i := v]"
proof -
  obtain x' where "h ! a = PolicyCell x'" and a: "a < length h" and B: "B = namespace_arrays x'"
      "\<forall>b\<in>B. \<exists>xs. h ! b = Strings xs"
    using assms(2) by (rule ptr_policy_borrows)
  then have arr: "sl_array r \<in> B" using assms(4,5) by (simp add: namespace_arrays_def)
  then have bound: "sl_array r < length h" using framedD(2) [OF api_machinery.policy_framed [OF assms(1)] assms(2)] by auto
  obtain xs where xs: "h ! sl_array r = Strings xs" using arr B(2) by blast
  obtain y where y: "b = length h" "h' ! b = PolicyCell y" "sp_namespaces (py_spec y) = sp_namespaces (py_spec x)"
    using api_machinery.policy_DeepCopy_object [OF assms(1,3) a assms(4)] by auto
  have h': "h' ! sl_array r = Strings xs" "sl_array r < length h'"
    using prefix_nth [OF api_machinery.policy_prefix [OF assms(1,3)] bound] xs by auto
  have "read_strings (assign_string h' r i v) r = take (sl_len r) (drop (sl_off r) (xs[sl_off r + i := v]))"
    using h' by (simp add: read_strings_def assign_string_def)
  also have "\<dots> = (take (sl_len r) (drop (sl_off r) xs))[i := v]"
    by (simp add: drop_update_swap take_update_swap)
  finally show ?thesis using y assms(5) xs by (simp add: read_strings_def)
qed

text \<open>
  C33: the copies of node classes and of workload objectives are independent of their originals: the
  copy reads as the original, the two own no memory in common, no assignment to memory of one is seen
  by the other.
\<close>

theorem class_and_slo_copies_independent:
  assumes "api_machinery M"
    and "ptr as_classList (look_list (slice as_classes look_class)) q h = Some (t, A, B)"
    and "NodeClassList_DeepCopy M p h q = (h', c)"
    and "ptr as_sloList (look_list (slice as_slos look_slo)) r g = Some (u, C, D)"
    and "WorkloadSLOList_DeepCopy M p g r = (g', d)"
  shows "(\<exists>A'. ptr as_classList (look_list (slice as_classes look_class)) c h' = Some (t, A', {}) \<and> A \<inter> A' = {}
      \<and> (\<forall>a\<in>A. \<forall>x. \<exists>A'. ptr as_classList (look_list (slice as_classes look_class)) c (h'[a := x]) = Some (t, A', {}))
      \<and> (\<forall>a\<in>A'. \<forall>x. ptr as_classList (look_list (slice as_classes look_class)) q (h'[a := x]) = Some (t, A, {})))
    \<and> (\<exists>C'. ptr as_sloList (look_list (slice as_slos look_slo)) d g' = Some (u, C', {}) \<and> C \<inter> C' = {}
      \<and> (\<forall>a\<in>C. \<forall>x. \<exists>C'. ptr as_sloList (look_list (slice as_slos look_slo)) d (g'[a := x]) = Some (u, C', {}))
      \<and> (\<forall>a\<in>C'. \<forall>x. ptr as_sloList (look_list (slice as_slos look_slo)) r (g'[a := x]) = Some (u, C, {})))"
proof -
  show ?thesis using api_machinery.classList_independent [OF assms(1,2,3)] api_machinery.sloList_independent [OF assms(1,4,5)] by blast
qed

text \<open>\<open>DeepCopyObject\<close> gives the nil interface for a nil receiver only, and otherwise the copy.\<close>

lemma DeepCopyObject_nil:
  "snd (RebalancePolicy_DeepCopyObject M h q) = None \<longleftrightarrow> q = None"
  "snd (RebalancePolicyList_DeepCopyObject M h q) = None \<longleftrightarrow> q = None"
  "snd (NodeClass_DeepCopyObject M p h q) = None \<longleftrightarrow> q = None"
  "snd (NodeClassList_DeepCopyObject M p h q) = None \<longleftrightarrow> q = None"
  "snd (WorkloadSLO_DeepCopyObject M p h q) = None \<longleftrightarrow> q = None"
  "snd (WorkloadSLOList_DeepCopyObject M p h q) = None \<longleftrightarrow> q = None"
  by (auto simp: RebalancePolicy_DeepCopyObject_def RebalancePolicyList_DeepCopyObject_def
      NodeClass_DeepCopyObject_def NodeClassList_DeepCopyObject_def WorkloadSLO_DeepCopyObject_def
      WorkloadSLOList_DeepCopyObject_def RebalancePolicy_DeepCopy_def RebalancePolicyList_DeepCopy_def
      NodeClass_DeepCopy_def NodeClassList_DeepCopy_def WorkloadSLO_DeepCopy_def WorkloadSLOList_DeepCopy_def
      object_of_def new_copy_def split: option.splits prod.splits)

subsection \<open>An API machinery to run examples in\<close>

definition plain_api :: "gotime \<Rightarrow> api_env" where
  "plain_api t = \<lparr>range_order = (\<lambda>p ks. ks), sort_order = insertion_order, now_at = (\<lambda>p. t),
     float_oor = (\<lambda>x. - (2 ^ 63)),
     objectMeta_copy = (\<lambda>h m. let (h1, l) = copy_map (plain_runtime t) [] h (om_labels m) in (h1, m\<lparr>om_labels := l\<rparr>)),
     listMeta_copy = (\<lambda>h m. let (h1, n) = new_copy as_int IntCell 0 (\<lambda>h n. (h, n)) h (lm_remaining m)
        in (h1, m\<lparr>lm_remaining := n\<rparr>)),
     selector_copy = (\<lambda>h s. let (h1, l) = copy_map (plain_runtime t) [] h (so_labels s);
          (h2, es) = copy_slice as_requirements Requirements zero_requirement (\<lambda>n h r.
             let (h1, vs) = copy_strings h (ro_values r) in (h1, r\<lparr>ro_values := vs\<rparr>)) h1 (so_expressions s)
        in (h2, s\<lparr>so_labels := l, so_expressions := es\<rparr>)),
     requirement_copy = (\<lambda>h r. let (h1, vs) = copy_strings h (ro_values r) in (h1, r\<lparr>ro_values := vs\<rparr>)),
     time_copy = (\<lambda>h a. alloc h (h ! a))\<rparr>"

lemma plain_requirement: "go_copy look_requirement (\<lambda>h r. let (h1, vs) = copy_strings h (ro_values r) in (h1, r\<lparr>ro_values := vs\<rparr>))"
  by (rule go_copy_struct1 [where fa = ro_values and upd = "\<lambda>a x. x\<lparr>ro_values := a\<rparr>"
        and rest = "\<lambda>r. [leaf (TStr (ro_key r)), leaf (TStr (ro_operator r))]", OF go_copy_strings])
     (simp_all add: look_requirement_def)

lemma plain_time: "go_copy look_time (\<lambda>h a. alloc h (h ! a))"
proof
  fix a h h' b assume run: "alloc h (h ! a) = (h', b)"
  then show "prefix h h'" by (auto simp: alloc_def)
  show "copied h (look_time a) h' (look_time b)"
    using run by (auto simp: copied_def look_time_def ptr_def alloc_def collect_def leaf_def nth_append
        split: if_splits option.splits)
qed (simp add: look_time_def)

interpretation plain_api: api_machinery "plain_api t" for t
proof -
  have rt: "go_runtime (plain_api t)" by (rule go_runtimeI) (simp_all add: plain_api_def)
  note m = go_copy_map [OF plain.go_runtime_axioms, of t "[]"]
  have om: "go_copy look_objectMeta (objectMeta_copy (plain_api t))"
    by (rule go_copy_struct1 [where fa = om_labels and upd = "\<lambda>a x. x\<lparr>om_labels := a\<rparr>"
          and rest = "\<lambda>m. [leaf (TStr (om_name m)), leaf (TStr (om_namespace m)), leaf (TInt (om_generation m))]", OF m])
       (simp_all add: look_objectMeta_def plain_api_def)
  have int: "go_copy (ptr as_int (\<lambda>n. leaf (TInt n))) (new_copy as_int IntCell 0 (\<lambda>h n. (h, n)))"
    by (rule go_copy_ptr) (simp_all add: go_copy_leaf)
  have lm: "go_copy look_listMeta (listMeta_copy (plain_api t))"
    by (rule go_copy_struct1 [where fa = lm_remaining and upd = "\<lambda>a x. x\<lparr>lm_remaining := a\<rparr>"
          and rest = "\<lambda>m. [leaf (TStr (lm_resourceVersion m))]", OF int])
       (simp_all add: look_listMeta_def plain_api_def)
  have reqs: "go_copy (slice as_requirements look_requirement) (copy_slice as_requirements Requirements zero_requirement
      (\<lambda>n h r. let (h1, vs) = copy_strings h (ro_values r) in (h1, r\<lparr>ro_values := vs\<rparr>)))"
    by (rule go_copy_slice [OF _ plain_requirement]) simp
  have sel: "go_copy look_selector (selector_copy (plain_api t))"
    by (rule go_copy_struct2 [where fa = so_labels and fb = so_expressions
          and upd = "\<lambda>a b x. x\<lparr>so_labels := a, so_expressions := b\<rparr>" and rest = "\<lambda>x. []", OF m reqs])
       (simp_all add: look_selector_def plain_api_def)
  have "go_deep_copy look_objectMeta (objectMeta_copy (plain_api t))"
    "go_deep_copy look_listMeta (listMeta_copy (plain_api t))"
    "go_deep_copy look_selector (selector_copy (plain_api t))"
    "go_deep_copy look_requirement (requirement_copy (plain_api t))"
    "go_deep_copy look_time (time_copy (plain_api t))"
    using om lm sel plain_requirement [unfolded Let_def] plain_time
    by (auto intro!: go_deep_copy.intro go_deep_copy_axioms.intro
        simp: plain_api_def look_selector_def look_requirement_def look_map_def look_strings_def look_time_def)
  with rt show "api_machinery (plain_api t)" by (rule api_machinery.intro)
qed

lemma api_machinery_plain_api: "api_machinery (plain_api t)"
  by (rule plain_api.api_machinery_axioms)

definition example_namespaces :: slice where
  "example_namespaces = \<lparr>sl_array = 0, sl_off = 0, sl_len = 2\<rparr>"

definition example_policy_object :: policy_obj where
  "example_policy_object = zero_policy\<lparr>py_spec := zero_spec\<lparr>sp_namespaces := \<lparr>no_include = Some example_namespaces, no_exclude = None\<rparr>\<rparr>,
     py_meta := zero_objectMeta\<lparr>om_name := ''default'', om_labels := Some 1\<rparr>,
     py_status := zero_status\<lparr>st_plan := zero_plan\<lparr>po_lastExecution := Some 2\<rparr>\<rparr>\<rparr>"

definition example_heap :: heap where
  "example_heap = [Strings [''prod'', ''web''], StrMap [(''tier'', ''gold'')], TimeCell 5, PolicyCell example_policy_object,
     ClassListCell (zero_list\<lparr>li_items := Some \<lparr>sl_array = 5, sl_off = 0, sl_len = 1\<rparr>\<rparr>),
     Classes [zero_nodeClass\<lparr>cl_spec := zero_classSpec\<lparr>cs_labels := Some 1\<rparr>\<rparr>],
     SloListCell (zero_list\<lparr>li_items := Some \<lparr>sl_array = 7, sl_off = 0, sl_len = 1\<rparr>\<rparr>),
     Slos [zero_slo\<lparr>sl_spec := zero_sloSpec\<lparr>ss_protectedLabels := Some 1\<rparr>\<rparr>]]"

lemmas example_heap_defs = example_heap_def example_policy_object_def example_namespaces_def zero_policy_def
  zero_spec_def zero_objectMeta_def zero_typeMeta_def zero_status_def zero_plan_def zero_list_def zero_nodeClass_def
  zero_classSpec_def zero_classStatus_def zero_slo_def zero_sloSpec_def zero_sloStatus_def

lemma example_policy_reads:
  obtains t A B where "ptr as_policy look_policy (Some 3) example_heap = Some (t, A, B)"
proof -
  have "ptr as_policy look_policy (Some 3) example_heap \<noteq> None"
    by (simp add: example_heap_defs look_defs look_timePtr_def look_labels_def wf_map_def collect_def struct_def
        slice_def ptr_def leaf_def borrow_def)
  then show ?thesis using that by (metis not_None_eq prod_cases3)
qed

lemma example_lists_read:
  obtains t A B u C D where
      "ptr as_classList (look_list (slice as_classes look_class)) (Some 4) example_heap = Some (t, A, B)"
    and "ptr as_sloList (look_list (slice as_slos look_slo)) (Some 6) example_heap = Some (u, C, D)"
proof -
  have "ptr as_classList (look_list (slice as_classes look_class)) (Some 4) example_heap \<noteq> None"
    and "ptr as_sloList (look_list (slice as_slos look_slo)) (Some 6) example_heap \<noteq> None"
    by (simp_all add: example_heap_defs look_defs look_timePtr_def look_labels_def wf_map_def collect_def struct_def
        slice_def ptr_def leaf_def borrow_def)
  then show ?thesis using that by (metis not_None_eq prod_cases3)
qed

lemma example_heap_nth: "example_heap ! 3 = PolicyCell example_policy_object" "3 < length example_heap"
    "example_heap ! 0 = Strings [''prod'', ''web'']"
  by (simp_all add: example_heap_def)

theorem policy_DeepCopy_value_witness:
  "\<exists>t A B A' h' c. RebalancePolicy_DeepCopy (plain_api 0) example_heap (Some 3) = (h', c)
     \<and> ptr as_policy look_policy (Some 3) example_heap = Some (t, A, B)
     \<and> ptr as_policy look_policy c h' = Some (t, A', {0}) \<and> A \<inter> A' = {}"
proof -
  obtain t A B where o: "ptr as_policy look_policy (Some 3) example_heap = Some (t, A, B)" by (rule example_policy_reads)
  obtain h' c where c: "RebalancePolicy_DeepCopy (plain_api 0) example_heap (Some 3) = (h', c)" by fastforce
  have "namespace_arrays example_policy_object = {0}"
    by (simp add: namespace_arrays_def example_policy_object_def example_namespaces_def zero_policy_def)
  with policy_DeepCopy_value [OF api_machinery_plain_api o c] o c show ?thesis
    by (auto simp: example_heap_nth)
qed

theorem class_and_slo_copies_independent_witness:
  "\<exists>t A A' h' c. NodeClassList_DeepCopy (plain_api 0) [] example_heap (Some 4) = (h', c)
     \<and> ptr as_classList (look_list (slice as_classes look_class)) (Some 4) example_heap = Some (t, A, {})
     \<and> ptr as_classList (look_list (slice as_classes look_class)) c h' = Some (t, A', {}) \<and> A \<inter> A' = {}"
proof -
  obtain t A B u C D where o: "ptr as_classList (look_list (slice as_classes look_class)) (Some 4) example_heap = Some (t, A, B)"
    and s: "ptr as_sloList (look_list (slice as_slos look_slo)) (Some 6) example_heap = Some (u, C, D)"
    by (rule example_lists_read)
  obtain h' c where c: "NodeClassList_DeepCopy (plain_api 0) [] example_heap (Some 4) = (h', c)" by fastforce
  obtain g' d where d: "WorkloadSLOList_DeepCopy (plain_api 0) [] example_heap (Some 6) = (g', d)" by fastforce
  have "B = {}" using owning_SomeD [OF plain_api.classListCopy.owning_look o] by simp
  with class_and_slo_copies_independent [OF api_machinery_plain_api o c s d] o c show ?thesis by blast
qed

end
