(* ===== verification/Dashboard.thy ===== *)
theory Dashboard
  imports Variance ApiJson
begin

text \<open>
  The dashboard (\<open>pkg/dashboard/handler.go\<close> and \<open>types.go\<close>). The three dependencies of the handler are the
  functions that answer the one call \<open>Data\<close> makes on each: listing policies, collecting node metrics,
  listing nodes; a dependency that has not been attached is \<open>None\<close>. A request is answered by a
  \<open>response\<close>: an error with its code and message, the index page, a file the file server of the library
  serves, or JSON. Encoding JSON fails on a float that is not finite and on nothing else the response
  contains.

  The lemmas show when each error is sent and in which order the dependencies are asked, what a response
  lists and in which order, the ranges of what it shows, and how the classification shown relates to the
  one the planner acts on.
\<close>

subsection \<open>Types\<close>

record node_summary =
  sum_name :: string
  sum_labels :: labels
  sum_cpuCapacity :: float64
  sum_cpuUsage :: float64
  sum_cpuUtilization :: float64
  sum_memoryCapacity :: int
  sum_memoryUsage :: int
  sum_memoryUtil :: float64
  sum_classification :: string

record plan_summary =
  psum_hotNodes :: int
  psum_coldNodes :: int
  psum_variance :: float64
  psum_planned :: int
  psum_executed :: int
  psum_lastExecution :: "gotime option"
  psum_dryRun :: bool

record policy_summary =
  pol_name :: string
  pol_targetVariance :: float64
  pol_hotThreshold :: float64
  pol_coldThreshold :: float64
  pol_maxPerMinute :: int
  pol_maxPerNamespace :: int
  pol_dryRun :: bool
  pol_plan :: plan_summary
  pol_allowed :: "string list"
  pol_excluded :: "string list"

record dashboard_response =
  resp_generatedAt :: gotime
  resp_nodes :: "node_summary list"
  resp_policies :: "policy_summary list"

record handler =
  h_client :: "(pos \<Rightarrow> err + policy list) option"
  h_metrics :: "(pos \<Rightarrow> err + usage gomap) option"
  h_caches :: "(pos \<Rightarrow> err + node list) option"

datatype response =
    HttpError int string
  | Html string
  | ServeFile string
  | Json dashboard_response

subsection \<open>The handler and its static files\<close>

text \<open>\<open>NewHandler\<close>, given the outcome of opening the embedded directory.\<close>

definition NewHandler :: "err option \<Rightarrow> err + handler" where
  "NewHandler staticFS = (case staticFS of
     Some err \<Rightarrow> Inl err | None \<Rightarrow> Inr \<lparr>h_client = None, h_metrics = None, h_caches = None\<rparr>)"

definition Attach ::
    "(pos \<Rightarrow> err + policy list) option \<Rightarrow> (pos \<Rightarrow> err + usage gomap) option \<Rightarrow> (pos \<Rightarrow> err + node list) option \<Rightarrow>
     handler \<Rightarrow> handler" where
  "Attach client metrics caches h = h\<lparr>h_client := client, h_metrics := metrics, h_caches := caches\<rparr>"

definition Ready :: "handler \<Rightarrow> err option" where
  "Ready h = (if h_client h = None \<or> h_metrics h = None \<or> h_caches h = None
     then Some (ErrNew ''dashboard handler not initialised'') else None)"

text \<open>\<open>Static\<close>, given the content of the embedded index page if it can be read.\<close>

definition Static :: "string option \<Rightarrow> string \<Rightarrow> response" where
  "Static index path =
     (if path \<in> {''/'', ''/dashboard'', ''/dashboard/''} then
        (case index of None \<Rightarrow> HttpError 500 ''dashboard index missing'' | Some content \<Rightarrow> Html content)
      else if take 11 path = ''/dashboard/'' then
        let cloned = drop 10 path in
        ServeFile (if cloned = [] \<or> cloned = ''/'' then ''/index.html'' else cloned)
      else ServeFile path)"

subsection \<open>Summaries\<close>

definition setDefaultPolicyValues :: "policy_spec \<Rightarrow> policy_spec" where
  "setDefaultPolicyValues spec =
     (let s1 = (if feq (targetVariance spec) (Fin 0) then spec\<lparr>targetVariance := fl (15 / 100)\<rparr> else spec);
          s2 = (if feq (hotThreshold s1) (Fin 0) then s1\<lparr>hotThreshold := fl (8 / 10)\<rparr> else s1);
          s3 = (if feq (coldThreshold s2) (Fin 0) then s2\<lparr>coldThreshold := fl (5 / 10)\<rparr> else s2) in
      s3\<lparr>resourceWeights := defaultWeights (resourceWeights s3)\<rparr>)"

definition clamp :: "float64 \<Rightarrow> float64 \<Rightarrow> float64 \<Rightarrow> float64" where
  "clamp val lo hi = math_Max lo (math_Min hi val)"

definition classify :: "float64 \<Rightarrow> float64 \<Rightarrow> float64 \<Rightarrow> string" where
  "classify weighted hot cold =
     (if fge weighted hot then ''hot'' else if fle weighted cold then ''cold'' else ''balanced'')"

definition summariseNode :: "'z kube_env_scheme \<Rightarrow> node \<Rightarrow> usage \<Rightarrow> policy_spec \<Rightarrow> node_summary" where
  "summariseNode E node usage spec =
     (let allocMilliCPU = cpu_milli E (node_allocatable node);
          allocCores = fdiv (float_of_int allocMilliCPU) (Fin 1000);
          allocMemory = mem_value E (node_allocatable node);
          cpuUtil = (if fgt allocCores (Fin 0) then clamp (fdiv (cpuCores usage) allocCores) (Fin 0) (Fin 2) else Fin 0);
          memoryUtil = (if allocMemory > 0
            then clamp (fdiv (float_of_int (memoryBytes usage)) (float_of_int allocMemory)) (Fin 0) (Fin 2) else Fin 0);
          weights = defaultWeights (resourceWeights spec);
          weighted = fadd (fmul cpuUtil (weight_cpu weights)) (fmul memoryUtil (weight_memory weights)) in
      \<lparr>sum_name = node_name node, sum_labels = node_labels node, sum_cpuCapacity = allocCores,
       sum_cpuUsage = cpuCores usage, sum_cpuUtilization = cpuUtil, sum_memoryCapacity = allocMemory,
       sum_memoryUsage = memoryBytes usage, sum_memoryUtil = memoryUtil,
       sum_classification = classify weighted (hotThreshold spec) (coldThreshold spec)\<rparr>)"

definition summarisePolicy :: "policy \<Rightarrow> policy_summary" where
  "summarisePolicy pol =
     (let spec = setDefaultPolicyValues (policy_spec pol);
          pln = status_plan (policy_status pol) in
      \<lparr>pol_name = policy_name pol, pol_targetVariance = targetVariance spec, pol_hotThreshold = hotThreshold spec,
       pol_coldThreshold = coldThreshold spec, pol_maxPerMinute = maxEvictionsPerMinute spec,
       pol_maxPerNamespace = maxEvictionsPerNamespace spec, pol_dryRun = dryRun spec,
       pol_plan = \<lparr>psum_hotNodes = st_hotNodes pln, psum_coldNodes = st_coldNodes pln,
         psum_variance = st_variance pln, psum_planned = st_planned pln, psum_executed = st_executed pln,
         psum_lastExecution = st_lastExecution pln, psum_dryRun = st_dryRun pln\<rparr>,
       pol_allowed = ns_include (namespaces spec), pol_excluded = ns_exclude (namespaces spec)\<rparr>)"

subsection \<open>Data\<close>

definition writeDashboardError :: "string \<Rightarrow> err \<Rightarrow> response" where
  "writeDashboardError ctx err = HttpError 500 (ctx @ '': '' @ err_msg err)"

text \<open>The floats of a response in the order they are encoded, and the error of the first that is not finite.\<close>

definition response_floats :: "dashboard_response \<Rightarrow> float64 list" where
  "response_floats r =
     concat (map (\<lambda>n. [sum_cpuCapacity n, sum_cpuUsage n, sum_cpuUtilization n, sum_memoryUtil n]) (resp_nodes r))
   @ concat (map (\<lambda>q. [pol_targetVariance q, pol_hotThreshold q, pol_coldThreshold q, psum_variance (pol_plan q)])
       (resp_policies r))"

fun json_floats :: "float64 list \<Rightarrow> err option" where
  "json_floats [] = None"
| "json_floats (Fin a # xs) = json_floats xs"
| "json_floats (x # xs) = Some (ErrNew (''json: unsupported value: ''
     @ (if x = NaN then ''NaN'' else if x = PInf then ''+Inf'' else ''-Inf'')))"

definition lessNode :: "node_summary \<Rightarrow> node_summary \<Rightarrow> bool" where
  "lessNode a b =
     (if sum_classification a = sum_classification b then fgt (sum_cpuUtilization a) (sum_cpuUtilization b)
      else sum_classification a < sum_classification b)"

definition Data :: "'z kube_env_scheme \<Rightarrow> pos \<Rightarrow> handler \<Rightarrow> response" where
  "Data E p h =
     (case (h_client h, h_metrics h, h_caches h) of
        (Some client, Some metricsProv, Some caches) \<Rightarrow>
          (case caches (0 # p) of
             Inl err \<Rightarrow> writeDashboardError ''list nodes'' err
           | Inr nodesList \<Rightarrow> (case metricsProv (1 # p) of
               Inl err \<Rightarrow> writeDashboardError ''collect node metrics'' err
             | Inr nodeUsage \<Rightarrow> (case client (2 # p) of
                 Inl err \<Rightarrow> writeDashboardError ''list policies'' err
               | Inr policyList \<Rightarrow>
                   let spec = setDefaultPolicyValues
                         (case policyList of [] \<Rightarrow> zero_policy_spec | pol # rest \<Rightarrow> policy_spec pol);
                       nodes = map (\<lambda>node. summariseNode E node (usage_at nodeUsage (node_name node)) spec) nodesList;
                       response = \<lparr>resp_generatedAt = now_at E (3 # p), resp_nodes = sort_slice E lessNode nodes,
                         resp_policies = map summarisePolicy policyList\<rparr> in
                   (case json_floats (response_floats response) of
                      None \<Rightarrow> Json response
                    | Some err \<Rightarrow> writeDashboardError ''encode response'' err))))
      | _ \<Rightarrow> HttpError 503 ''dashboard not initialised'')"

subsection \<open>What a response shows\<close>

lemma json_floats_None_iff: "json_floats xs = None \<longleftrightarrow> list_all finite_float xs"
proof (induction xs)
  case (Cons x xs)
  then show ?case by (cases x) (simp_all add: finite_float_def)
qed simp

lemma finite_float_of_int: "in_int64 n \<Longrightarrow> finite_float (float_of_int n)"
  using magnitude_float_of_int by (auto simp: magnitude_def finite_float_def)

lemma clamp_02:
  assumes "v \<noteq> NaN"
  obtains a where "clamp v (Fin 0) (Fin 2) = Fin a" and "0 \<le> a" and "a \<le> 2"
proof -
  have "fle (Fin 0) (clamp v (Fin 0) (Fin 2))" "fle (clamp v (Fin 0) (Fin 2)) (Fin 2)"
    using clamp_bounds [of 0 2 v] assms by (simp_all add: clamp_def)
  then show ?thesis using that by (cases "clamp v (Fin 0) (Fin 2)") (auto simp: fle_def feq_def)
qed

lemma fdiv_Fin_not_NaN: "0 < b \<Longrightarrow> fdiv (Fin a) (Fin b) \<noteq> NaN"
  by simp

lemma float_of_int_pos:
  assumes "in_int64 n" and "0 < n" obtains b where "float_of_int n = Fin b" and "0 < b"
proof -
  obtain b where b: "float_of_int n = Fin b" using finite_float_of_int [OF assms(1)] by (auto simp: finite_float_def)
  have "fle (float_of_int 1) (float_of_int n)" by (rule float_of_int_mono) (use assms(2) in simp)
  then have "1 \<le> b" by (simp add: b)
  with that b show ?thesis by simp
qed

text \<open>
  The figures of a node: utilisations between 0 and 2, and a classification that is one of the three
  names.
\<close>

lemma summariseNode_range:
  assumes "finite_float (cpuCores u)" and "in_int64 (memoryBytes u)"
    and "in_int64 (cpu_milli E (node_allocatable node))" and "in_int64 (mem_value E (node_allocatable node))"
  shows "\<exists>c m. sum_cpuUtilization (summariseNode E node u spec) = Fin c \<and> 0 \<le> c \<and> c \<le> 2
    \<and> sum_memoryUtil (summariseNode E node u spec) = Fin m \<and> 0 \<le> m \<and> m \<le> 2
    \<and> finite_float (sum_cpuCapacity (summariseNode E node u spec))"
proof -
  let ?cores = "fdiv (float_of_int (cpu_milli E (node_allocatable node))) (Fin 1000)"
  have "magnitude (63 + 0) ?cores"
    by (rule magnitude_fdiv [OF magnitude_float_of_int [OF assms(3)]]) simp_all
  then obtain k where k: "?cores = Fin k" by (auto simp: magnitude_def)
  obtain a where a: "cpuCores u = Fin a" using assms(1) by (auto simp: finite_float_def)
  obtain b where b: "float_of_int (memoryBytes u) = Fin b"
    using finite_float_of_int [OF assms(2)] by (auto simp: finite_float_def)
  have "\<exists>c. sum_cpuUtilization (summariseNode E node u spec) = Fin c \<and> 0 \<le> c \<and> c \<le> 2"
  proof (cases "fgt ?cores (Fin 0)")
    case True
    then have "fdiv (cpuCores u) ?cores \<noteq> NaN" by (simp add: k a)
    then obtain c where "clamp (fdiv (cpuCores u) ?cores) (Fin 0) (Fin 2) = Fin c" "0 \<le> c" "c \<le> 2" by (rule clamp_02)
    with True show ?thesis by (simp add: summariseNode_def Let_def)
  qed (simp add: summariseNode_def Let_def)
  moreover have "\<exists>m. sum_memoryUtil (summariseNode E node u spec) = Fin m \<and> 0 \<le> m \<and> m \<le> 2"
  proof (cases "mem_value E (node_allocatable node) > 0")
    case True
    obtain d where d: "float_of_int (mem_value E (node_allocatable node)) = Fin d" "0 < d"
      by (rule float_of_int_pos [OF assms(4) True])
    have "fdiv (Fin b) (Fin d) \<noteq> NaN" using d(2) by simp
    then obtain m where "clamp (fdiv (Fin b) (Fin d)) (Fin 0) (Fin 2) = Fin m" "0 \<le> m" "m \<le> 2" by (rule clamp_02)
    with True show ?thesis by (simp add: summariseNode_def Let_def b d del: fdiv.simps)
  qed (simp add: summariseNode_def Let_def)
  moreover have "sum_cpuCapacity (summariseNode E node u spec) = Fin k" using k by (simp add: summariseNode_def Let_def)
  ultimately show ?thesis by auto
qed

lemma sum_name_summariseNode [simp]: "sum_name (summariseNode E n u spec) = node_name n"
  by (simp add: summariseNode_def Let_def)

lemma strict_weak_lessNode:
  assumes "\<And>n. n \<in> A \<Longrightarrow> sum_cpuUtilization n \<noteq> NaN"
  shows "strict_weak_on A lessNode"
proof (rule strict_weak_onI)
  show "\<not> lessNode x x" for x by (simp add: lessNode_def)
  show "lessNode x z" if "lessNode x y" "lessNode y z" for x y z
    using that by (auto simp: lessNode_def split: if_splits dest: flt_trans)
  show "\<not> lessNode x z" if "x \<in> A" "y \<in> A" "z \<in> A" "\<not> lessNode x y" "\<not> lessNode y z" for x y z
    using that assms [of x] assms [of y] assms [of z]
    by (auto simp: lessNode_def not_flt split: if_splits dest: fle_trans)
qed

definition ready_handler ::
    "(pos \<Rightarrow> err + policy list) \<Rightarrow> (pos \<Rightarrow> err + usage gomap) \<Rightarrow> (pos \<Rightarrow> err + node list) \<Rightarrow> handler" where
  "ready_handler client metrics caches = \<lparr>h_client = Some client, h_metrics = Some metrics, h_caches = Some caches\<rparr>"

definition dashboardSpec :: "policy list \<Rightarrow> policy_spec" where
  "dashboardSpec pols = setDefaultPolicyValues (case pols of [] \<Rightarrow> zero_policy_spec | pol # rest \<Rightarrow> policy_spec pol)"

lemma summarisePolicy_finite:
  assumes "list_all finite_float [targetVariance (policy_spec pol), hotThreshold (policy_spec pol),
     coldThreshold (policy_spec pol), st_variance (status_plan (policy_status pol))]"
  shows "list_all finite_float [pol_targetVariance (summarisePolicy pol), pol_hotThreshold (summarisePolicy pol),
     pol_coldThreshold (summarisePolicy pol), psum_variance (pol_plan (summarisePolicy pol))]"
proof -
  have "magnitude 1 (fl (15 / 100))" "magnitude 1 (fl (8 / 10))" "magnitude 1 (fl (5 / 10))"
    by (rule magnitude_fl; simp)+
  then have "finite_float (fl (15 / 100))" "finite_float (fl (8 / 10))" "finite_float (fl (5 / 10))"
    by (auto simp: magnitude_def finite_float_def)
  with assms show ?thesis
    by (simp add: summarisePolicy_def setDefaultPolicyValues_def Let_def)
qed


lemma Data_ready:
  assumes "caches (0 # p) = Inr nodes" and "metrics (1 # p) = Inr us" and "client (2 # p) = Inr pols"
  shows "Data E p (ready_handler client metrics caches) =
    (let r = \<lparr>resp_generatedAt = now_at E (3 # p),
        resp_nodes = sort_slice E lessNode (map (\<lambda>n. summariseNode E n (usage_at us (node_name n)) (dashboardSpec pols)) nodes),
        resp_policies = map summarisePolicy pols\<rparr> in
     case json_floats (response_floats r) of None \<Rightarrow> Json r | Some err \<Rightarrow> writeDashboardError ''encode response'' err)"
  using assms by (simp add: Data_def ready_handler_def dashboardSpec_def usage_at_def Let_def)

lemma reported_node_range:
  assumes "list_all (\<lambda>u. finite_float (cpuCores u) \<and> in_int64 (memoryBytes u)) (map snd us)"
    and "in_int64 (cpu_milli E (node_allocatable n)) \<and> in_int64 (mem_value E (node_allocatable n))"
    and "s = summariseNode E n (usage_at us (node_name n)) spec"
  shows "\<exists>c m. sum_cpuUtilization s = Fin c \<and> 0 \<le> c \<and> c \<le> 2 \<and> sum_memoryUtil s = Fin m \<and> 0 \<le> m \<and> m \<le> 2
      \<and> finite_float (sum_cpuCapacity s) \<and> finite_float (sum_cpuUsage s)"
proof -
  have u: "finite_float (cpuCores (usage_at us (node_name n))) \<and> in_int64 (memoryBytes (usage_at us (node_name n)))"
    using usage_at_all [OF assms(1)] by (simp add: zero_usage_def in_int64_def)
  have "sum_cpuUsage s = cpuCores (usage_at us (node_name n))" by (simp add: assms(3) summariseNode_def Let_def)
  then show ?thesis unfolding assms(3)
    using summariseNode_range [of "usage_at us (node_name n)" E n spec] u assms(2,3) by auto
qed

text \<open>
  C34: what the dashboard shows. Once its dependencies are attached and answer, and the figures they
  report are finite, the answer is JSON: every listed node exactly once, with utilisations between 0
  and 2, sorted by classification and within one by decreasing utilisation, and the policies as listed.
\<close>

theorem Data_lists_cluster:
  assumes "go_runtime E"
    and answers: "caches (0 # p) = Inr nodes" "metrics (1 # p) = Inr us" "client (2 # p) = Inr pols"
    and usage: "list_all (\<lambda>u. finite_float (cpuCores u) \<and> in_int64 (memoryBytes u)) (map snd us)"
    and alloc: "list_all (\<lambda>n. in_int64 (cpu_milli E (node_allocatable n)) \<and> in_int64 (mem_value E (node_allocatable n))) nodes"
    and policies: "list_all (\<lambda>pol. list_all finite_float [targetVariance (policy_spec pol), hotThreshold (policy_spec pol),
       coldThreshold (policy_spec pol), st_variance (status_plan (policy_status pol))]) pols"
  shows "\<exists>r. Data E p (ready_handler client metrics caches) = Json r
    \<and> mset (resp_nodes r) = mset (map (\<lambda>n. summariseNode E n (usage_at us (node_name n)) (dashboardSpec pols)) nodes)
    \<and> resp_policies r = map summarisePolicy pols
    \<and> list_all (\<lambda>s. \<exists>c m. sum_cpuUtilization s = Fin c \<and> 0 \<le> c \<and> c \<le> 2
         \<and> sum_memoryUtil s = Fin m \<and> 0 \<le> m \<and> m \<le> 2) (resp_nodes r)
    \<and> sorted_wrt (\<lambda>a b. sum_classification a < sum_classification b \<or> (sum_classification a = sum_classification b
         \<and> fge (sum_cpuUtilization a) (sum_cpuUtilization b))) (resp_nodes r)"
proof -
  note sorting = go_runtime.set_sort_slice [OF assms(1)] go_runtime.mset_sort_slice [OF assms(1)]
    go_runtime.sorted_sort_slice [OF assms(1)]
  define f where "f = (\<lambda>n. summariseNode E n (usage_at us (node_name n)) (dashboardSpec pols))"
  define r where "r = \<lparr>resp_generatedAt = now_at E (3 # p), resp_nodes = sort_slice E lessNode (map f nodes),
        resp_policies = map summarisePolicy pols\<rparr>"
  have range: "\<exists>c m. sum_cpuUtilization (f n) = Fin c \<and> 0 \<le> c \<and> c \<le> 2 \<and> sum_memoryUtil (f n) = Fin m \<and> 0 \<le> m \<and> m \<le> 2
      \<and> finite_float (sum_cpuCapacity (f n)) \<and> finite_float (sum_cpuUsage (f n))" if "n \<in> set nodes" for n
    by (rule reported_node_range [OF usage]) (use alloc that in \<open>auto simp: list_all_iff f_def\<close>)
  have set_nodes: "set (resp_nodes r) = f ` set nodes" by (simp add: r_def sorting(1))
  have "list_all finite_float (response_floats r)"
    unfolding response_floats_def list_all_append
  proof
    show "list_all finite_float (concat (map (\<lambda>n. [sum_cpuCapacity n, sum_cpuUsage n, sum_cpuUtilization n, sum_memoryUtil n]) (resp_nodes r)))"
      using range by (force simp: list_all_iff set_nodes)
    show "list_all finite_float (concat (map (\<lambda>q. [pol_targetVariance q, pol_hotThreshold q, pol_coldThreshold q,
        psum_variance (pol_plan q)]) (resp_policies r)))"
      using policies summarisePolicy_finite by (fastforce simp: r_def list_all_iff)
  qed
  then have json: "Data E p (ready_handler client metrics caches) = Json r"
    unfolding Data_ready [where client = client and metrics = metrics and caches = caches, OF answers]
    by (simp add: json_floats_None_iff [THEN iffD2] r_def f_def)
  have "strict_weak_on (set (map f nodes)) lessNode"
    by (rule strict_weak_lessNode) (use range in force)
  then have "sorted_wrt (\<lambda>x y. \<not> lessNode y x) (resp_nodes r)" unfolding r_def by (simp add: sorting(3))
  then have "sorted_wrt (\<lambda>a b. sum_classification a < sum_classification b \<or> (sum_classification a = sum_classification b
         \<and> fge (sum_cpuUtilization a) (sum_cpuUtilization b))) (resp_nodes r)"
  proof (rule sorted_wrt_mono_rel [rotated])
    fix x y assume "x \<in> set (resp_nodes r)" "y \<in> set (resp_nodes r)" and less: "\<not> lessNode y x"
    then have "sum_cpuUtilization x \<noteq> NaN" "sum_cpuUtilization y \<noteq> NaN" using range by (force simp: set_nodes)+
    with less show "sum_classification x < sum_classification y \<or> (sum_classification x = sum_classification y
         \<and> fge (sum_cpuUtilization x) (sum_cpuUtilization y))"
      by (auto simp: lessNode_def not_flt split: if_splits)
  qed
  moreover have "mset (resp_nodes r) = mset (map f nodes)" by (simp add: r_def sorting(2))
  moreover have "list_all (\<lambda>s. \<exists>c m. sum_cpuUtilization s = Fin c \<and> 0 \<le> c \<and> c \<le> 2
         \<and> sum_memoryUtil s = Fin m \<and> 0 \<le> m \<and> m \<le> 2) (resp_nodes r)"
    using range by (force simp: list_all_iff set_nodes)
  ultimately show ?thesis using json unfolding f_def by (intro exI [of _ r]) (simp add: r_def sorting(2))
qed

text \<open>
  The dashboard and the planner classify by different rules. A weighted utilisation the dashboard
  calls hot is hot for the planner, and one it calls cold is never in between for the planner; but what
  lies between the planner's threshold, lowered by the hysteresis, and the threshold itself is shown as
  balanced while the planner evicts from the node.
\<close>

lemma classify_vs_planner:
  assumes "hotThreshold spec = Fin a" and "fl a = Fin a" and "coldThreshold spec = Fin b" and "fl b = Fin b"
    and "hysteresis spec = Fin d" and "0 \<le> d"
  shows "(if classify w (hotThreshold spec) (coldThreshold spec) = ''hot'' then temperatureOf spec w = NodeHot
      else if classify w (hotThreshold spec) (coldThreshold spec) = ''cold'' then temperatureOf spec w \<in> {NodeHot, NodeCold}
      else if fge w (fsub (hotThreshold spec) (hysteresis spec)) then temperatureOf spec w = NodeHot
      else temperatureOf spec w \<in> {NodeOK, NodeCold})"
proof -
  have "fle (fl (a - d)) (fl a)" "fle (fl b) (fl (b + d))" using assms(6) by (auto intro: fl_mono)
  then have t: "fle (fsub (hotThreshold spec) (hysteresis spec)) (hotThreshold spec)"
      "fle (coldThreshold spec) (fadd (coldThreshold spec) (hysteresis spec))"
    using assms by (simp_all add: fsub_def)
  show ?thesis
    using fle_trans [OF t(1), of w] fle_trans [of w, OF _ t(2)]
    by (auto simp: classify_def temperatureOf_def split: if_splits)
qed

definition dashboard_node :: node where
  "dashboard_node = blank_node\<lparr>node_name := ''n1'', node_allocatable := [(''cpu'', 4000000000), (''memory'', 8000000000)]\<rparr>"

definition dashboard_usage :: usage where
  "dashboard_usage = zero_usage\<lparr>cpuCores := Fin 3, memoryBytes := 4\<rparr>"

theorem Data_lists_cluster_witness:
  "\<exists>r. Data (plain_env 0) [] (ready_handler (\<lambda>p. Inr []) (\<lambda>p. Inr [(''n1'', dashboard_usage)]) (\<lambda>p. Inr [dashboard_node])) = Json r
    \<and> map sum_name (resp_nodes r) = [''n1''] \<and> resp_policies r = []"
proof -
  let ?us = "[(''n1'', dashboard_usage)]"
  have u: "list_all (\<lambda>u. finite_float (cpuCores u) \<and> in_int64 (memoryBytes u)) (map snd ?us)"
    by (simp add: dashboard_usage_def in_int64_def)
  have a: "list_all (\<lambda>n. in_int64 (cpu_milli (plain_env 0) (node_allocatable n))
      \<and> in_int64 (mem_value (plain_env 0) (node_allocatable n))) [dashboard_node]"
    by (simp add: dashboard_node_def in_int64_def)
  have q: "list_all (\<lambda>pol. list_all finite_float [targetVariance (policy_spec pol), hotThreshold (policy_spec pol),
       coldThreshold (policy_spec pol), st_variance (status_plan (policy_status pol))]) []" by simp
  obtain r where r: "Data (plain_env 0) [] (ready_handler (\<lambda>p. Inr []) (\<lambda>p. Inr ?us) (\<lambda>p. Inr [dashboard_node])) = Json r"
      "mset (resp_nodes r) = mset (map (\<lambda>n. summariseNode (plain_env 0) n (usage_at ?us (node_name n)) (dashboardSpec [])) [dashboard_node])"
      "resp_policies r = map summarisePolicy []"
    using Data_lists_cluster [where caches = "\<lambda>p. Inr [dashboard_node]" and metrics = "\<lambda>p. Inr ?us" and client = "\<lambda>p. Inr []"
        and p = "[]", OF go_runtime_plain_env refl refl refl u a q] by (elim exE conjE)
  from r(2) have "resp_nodes r = [summariseNode (plain_env 0) dashboard_node (usage_at [(''n1'', dashboard_usage)] (node_name dashboard_node)) (dashboardSpec [])]"
    by simp
  then have "map sum_name (resp_nodes r) = [node_name dashboard_node]" by (simp only: list.map sum_name_summariseNode)
  then have "map sum_name (resp_nodes r) = [''n1'']" by (simp add: dashboard_node_def)
  with r(1,3) show ?thesis by (intro exI [of _ r]) simp
qed

subsection \<open>The document of a response\<close>

text \<open>
  What \<open>Encode\<close> writes, by the tags of \<open>types.go\<close>; a member that is left out is \<open>None\<close>. The lists of a
  response are built by appending to a nil slice, so an empty one is \<open>null\<close>, while the namespace lists of
  a summary are never nil but left out when empty. The text of a time is a parameter.
\<close>

fun enc_members :: "(string \<times> (err + json) option) list \<Rightarrow> err + (string \<times> json) list" where
  "enc_members [] = Inr []"
| "enc_members ((k, None) # ms) = enc_members ms"
| "enc_members ((k, Some r) # ms) = attempt id r (\<lambda>j. attempt id (enc_members ms) (\<lambda>kvs. Inr ((k, j) # kvs)))"

definition enc_object :: "(string \<times> (err + json) option) list \<Rightarrow> err + json" where
  "enc_object ms = attempt id (enc_members ms) (\<lambda>kvs. Inr (JObject kvs))"

definition enc_nilable :: "('a \<Rightarrow> err + json) \<Rightarrow> 'a list \<Rightarrow> err + json" where
  "enc_nilable enc xs = (if xs = [] then Inr JNull else enc_slice enc xs)"

definition unless :: "bool \<Rightarrow> 'a \<Rightarrow> 'a option" where
  "unless omit r = (if omit then None else Some r)"

definition enc_NodeSummary :: "node_summary \<Rightarrow> err + json" where
  "enc_NodeSummary n = enc_object
     [(''name'', Some (enc_string (sum_name n))), (''labels'', unless (sum_labels n = []) (enc_map (sum_labels n))),
      (''cpuCapacity'', Some (enc_float (sum_cpuCapacity n))), (''cpuUsage'', Some (enc_float (sum_cpuUsage n))),
      (''cpuUtilization'', Some (enc_float (sum_cpuUtilization n))),
      (''memoryCapacity'', Some (enc_int (sum_memoryCapacity n))), (''memoryUsage'', Some (enc_int (sum_memoryUsage n))),
      (''memoryUtilization'', Some (enc_float (sum_memoryUtil n))),
      (''classification'', Some (enc_string (sum_classification n)))]"

definition enc_PlanSummary :: "(gotime \<Rightarrow> string) \<Rightarrow> plan_summary \<Rightarrow> err + json" where
  "enc_PlanSummary time_text q = enc_object
     [(''hotNodes'', Some (enc_int (psum_hotNodes q))), (''coldNodes'', Some (enc_int (psum_coldNodes q))),
      (''variance'', Some (enc_float (psum_variance q))), (''evictionsPlanned'', Some (enc_int (psum_planned q))),
      (''evictionsExecuted'', Some (enc_int (psum_executed q))),
      (''lastExecutionTime'', map_option (\<lambda>t. enc_string (time_text t)) (psum_lastExecution q)),
      (''dryRun'', Some (enc_bool (psum_dryRun q)))]"

definition enc_PolicySummary :: "(gotime \<Rightarrow> string) \<Rightarrow> policy_summary \<Rightarrow> err + json" where
  "enc_PolicySummary time_text q = enc_object
     [(''name'', Some (enc_string (pol_name q))), (''targetVariance'', Some (enc_float (pol_targetVariance q))),
      (''hotThreshold'', Some (enc_float (pol_hotThreshold q))), (''coldThreshold'', Some (enc_float (pol_coldThreshold q))),
      (''maxEvictionsPerMinute'', Some (enc_int (pol_maxPerMinute q))),
      (''maxEvictionsPerNamespace'', Some (enc_int (pol_maxPerNamespace q))), (''dryRun'', Some (enc_bool (pol_dryRun q))),
      (''plan'', Some (enc_PlanSummary time_text (pol_plan q))),
      (''namespacesAllowed'', unless (pol_allowed q = []) (enc_slice enc_string (pol_allowed q))),
      (''namespacesExcluded'', unless (pol_excluded q = []) (enc_slice enc_string (pol_excluded q)))]"

definition enc_DashboardResponse :: "(gotime \<Rightarrow> string) \<Rightarrow> dashboard_response \<Rightarrow> err + json" where
  "enc_DashboardResponse time_text r = enc_object
     [(''generatedAt'', Some (enc_string (time_text (resp_generatedAt r)))),
      (''nodes'', Some (enc_nilable enc_NodeSummary (resp_nodes r))),
      (''policies'', Some (enc_nilable (enc_PolicySummary time_text) (resp_policies r)))]"

text \<open>The first error of an encoding, against that of a list of floats.\<close>

definition err_of :: "err + 'a \<Rightarrow> err option" where
  "err_of r = (case r of Inl e \<Rightarrow> Some e | Inr v \<Rightarrow> None)"

lemma err_of_simps [simp]: "err_of (Inl e) = Some e" "err_of (Inr v) = None"
  by (simp_all add: err_of_def)

definition or_else :: "err option \<Rightarrow> err option \<Rightarrow> err option" where
  "or_else a b = (case a of Some e \<Rightarrow> Some e | None \<Rightarrow> b)"

lemma or_else_simps [simp]:
  "or_else None b = b" "or_else (Some e) b = Some e" "or_else a None = a" "or_else (or_else a b) c = or_else a (or_else b c)"
  by (simp_all add: or_else_def split: option.split)

lemma err_of_attempt [simp]:
  "err_of (attempt id r (\<lambda>v. Inr (f v))) = err_of r"
  "err_of (attempt id r (\<lambda>v. attempt id s (\<lambda>w. Inr (g v w)))) = or_else (err_of r) (err_of s)"
  by (cases r; cases s; simp)+

lemma json_floats_append [simp]: "json_floats (xs @ ys) = or_else (json_floats xs) (json_floats ys)"
  by (induction xs rule: json_floats.induct) simp_all

lemma json_floats_Cons: "json_floats (x # xs) = or_else (err_of (enc_float x)) (json_floats xs)"
  by (cases x) (simp_all add: unsupported_value_def)

lemma err_of_elems: "err_of (enc_elems enc xs) = foldr (\<lambda>x. or_else (err_of (enc x))) xs None"
  by (induction xs) simp_all

lemma err_of_slice [simp]: "err_of (enc_slice enc xs) = foldr (\<lambda>x. or_else (err_of (enc x))) xs None"
  by (simp add: enc_slice_def err_of_elems)

lemma err_of_nilable [simp]: "err_of (enc_nilable enc xs) = foldr (\<lambda>x. or_else (err_of (enc x))) xs None"
  by (simp add: enc_nilable_def)

lemma err_of_plain [simp]:
  "err_of (enc_string s) = None" "err_of (enc_int n) = None" "err_of (enc_bool b) = None" "err_of (enc_map m) = None"
  by (simp_all add: enc_string_def enc_int_def enc_bool_def enc_map_def)

lemma err_of_members [simp]:
  "err_of (enc_members []) = None"
  "err_of (enc_members ((k, Some r) # ms)) = or_else (err_of r) (err_of (enc_members ms))"
  "err_of (enc_members ((k, None) # ms)) = err_of (enc_members ms)"
  "err_of (enc_object ms) = err_of (enc_members ms)"
  by (simp_all add: enc_object_def)

lemma err_of_member_quiet [simp]:
  "err_of r = None \<Longrightarrow> err_of (enc_members ((k, unless b r) # ms)) = err_of (enc_members ms)"
  "(\<And>x. err_of (f x) = None) \<Longrightarrow> err_of (enc_members ((k, map_option f y) # ms)) = err_of (enc_members ms)"
  by (cases b; simp add: unless_def) (cases y; simp)

lemma foldr_quiet [simp]: "(\<And>x. f x = None) \<Longrightarrow> foldr (\<lambda>x. or_else (f x)) xs None = None"
  by (induction xs) simp_all

lemma json_floats_concat: "json_floats (concat (map f xs)) = foldr (\<lambda>x. or_else (json_floats (f x))) xs None"
  by (induction xs) simp_all

text \<open>
  The errors of a response are those of its floats in the order they are encoded, as \<open>Data\<close> has it; and a
  cluster without nodes or policies shows \<open>null\<close> for its lists.
\<close>

lemma enc_DashboardResponse_error:
  "err_of (enc_DashboardResponse time_text r) = json_floats (response_floats r)"
  by (simp add: enc_DashboardResponse_def response_floats_def enc_NodeSummary_def enc_PolicySummary_def enc_PlanSummary_def
      json_floats_concat json_floats_Cons del: json_floats.simps(2,3))

lemma enc_DashboardResponse_empty:
  "enc_DashboardResponse time_text \<lparr>resp_generatedAt = t, resp_nodes = [], resp_policies = []\<rparr>
     = Inr (JObject [(''generatedAt'', JString (time_text t)), (''nodes'', JNull), (''policies'', JNull)])"
  by (simp add: enc_DashboardResponse_def enc_object_def enc_nilable_def enc_string_def)

end
