(* ===== verification/MetricsProvider.thy ===== *)
theory MetricsProvider
  imports Planning "HOL-Library.Sublist"
begin

text \<open>
  The metrics provider (\<open>pkg/metrics/provider.go\<close>). The clients of the metrics API and of Prometheus are
  not part of the repository: a client is the functions that answer its calls, at the position of the
  call, and a query to Prometheus is asked with its timeout, its text and its time. The loops over items
  and samples write into the result map one entry at a time, as the code does.

  The lemmas show what the collected maps hold: the usage reported for each node or pod, and the value
  of each custom query, independent of the order the queries are visited in; which errors end a
  collection and which are passed over; and what that means for a plan.
\<close>

subsection \<open>Clients and configuration\<close>

record node_metrics =
  nm_name :: string
  nm_usage :: resource_list
  nm_window :: duration
  nm_timestamp :: gotime

record pod_metrics =
  pm_namespace :: string
  pm_name :: string
  pm_containers :: "resource_list list"
  pm_window :: duration
  pm_timestamp :: gotime

record sample =
  smp_metric :: labels
  smp_value :: float64

datatype prom_value = Vector "sample list" | OtherValue string

record metrics_client =
  list_nodeMetrics :: "pos \<Rightarrow> err + node_metrics list"
  list_podMetrics :: "pos \<Rightarrow> err + pod_metrics list"

type_synonym prom_api = "pos \<Rightarrow> duration \<Rightarrow> string \<Rightarrow> gotime \<Rightarrow> err + prom_value"

record prom_options =
  po_address :: string
  po_bearerTokenFile :: string
  po_insecureSkipVerify :: bool
  po_timeout :: duration
  po_customNodeQueries :: "string gomap"
  po_customPodQueries :: "string gomap"

record provider_options =
  enableMetricsServer :: bool
  enablePrometheus :: bool
  opt_prometheus :: prom_options

record provider =
  metricsClient :: "metrics_client option"
  prom :: "prom_api option"
  customNodeQueries :: "string gomap"
  customPodQueries :: "string gomap"
  httpTimeout :: duration

subsection \<open>The authenticating transport\<close>

text \<open>A transport maps the headers of a request to a response; the default one is a parameter.\<close>

record 'r round_tripper =
  rt_parent :: "(labels \<Rightarrow> 'r) option"
  rt_token :: string

definition RoundTrip :: "(labels \<Rightarrow> 'r) \<Rightarrow> 'r round_tripper \<Rightarrow> labels \<Rightarrow> 'r" where
  "RoundTrip defaultTransport rt headers =
     (let headers' = (if rt_token rt \<noteq> [] then AList.update ''Authorization'' (''Bearer '' @ rt_token rt) headers
                      else headers);
          parent = (case rt_parent rt of None \<Rightarrow> defaultTransport | Some f \<Rightarrow> f) in
      parent headers')"

text \<open>\<open>strings.TrimSpace\<close>, for text in ASCII.\<close>

definition isSpace :: "char \<Rightarrow> bool" where
  "isSpace c \<longleftrightarrow> (of_char c :: int) \<in> {9, 10, 11, 12, 13, 32}"

definition TrimSpace :: "string \<Rightarrow> string" where
  "TrimSpace s = rev (dropWhile isSpace (rev (dropWhile isSpace s)))"

definition readTokenFile :: "(string \<Rightarrow> err + string) \<Rightarrow> string \<Rightarrow> string" where
  "readTokenFile readFile path =
     (if path = [] then [] else case readFile path of Inl err \<Rightarrow> [] | Inr content \<Rightarrow> TrimSpace content)"

text \<open>
  \<open>NewProvider\<close>, given the constructors of the two clients; the one for Prometheus takes the address and
  the transport.
\<close>

definition NewProvider ::
    "(err + metrics_client) \<Rightarrow> (string \<Rightarrow> 'r round_tripper \<Rightarrow> err + prom_api) \<Rightarrow> (labels \<Rightarrow> 'r) \<Rightarrow>
     (string \<Rightarrow> err + string) \<Rightarrow> provider_options \<Rightarrow> err + provider" where
  "NewProvider newMetrics newProm defaultRoundTripper readFile opts =
     (let p0 = \<lparr>metricsClient = None, prom = None, customNodeQueries = [], customPodQueries = [],
                httpTimeout = 15 * second\<rparr> in
      attempt (ErrWrap ''create metrics client'')
        (if enableMetricsServer opts then map_sum id (\<lambda>c. p0\<lparr>metricsClient := Some c\<rparr>) newMetrics else Inr p0)
        (\<lambda>p1. attempt id
          (if enablePrometheus opts \<and> po_address (opt_prometheus opts) \<noteq> [] then
             let p2 = (if po_timeout (opt_prometheus opts) > 0
                       then p1\<lparr>httpTimeout := po_timeout (opt_prometheus opts)\<rparr> else p1) in
             attempt (ErrWrap ''create prometheus client'')
               (newProm (po_address (opt_prometheus opts))
                  \<lparr>rt_parent = Some defaultRoundTripper,
                   rt_token = readTokenFile readFile (po_bearerTokenFile (opt_prometheus opts))\<rparr>)
               (\<lambda>client. Inr (p2\<lparr>prom := Some client,
                   customNodeQueries := po_customNodeQueries (opt_prometheus opts),
                   customPodQueries := po_customPodQueries (opt_prometheus opts)\<rparr>))
           else Inr p1)
          (\<lambda>p3. if metricsClient p3 = None \<and> prom p3 = None then Inl (ErrNew ''no metrics backend enabled'')
                else Inr p3)))"

subsection \<open>Queries\<close>

definition runPrometheusQuery :: "'z runtime_scheme \<Rightarrow> pos \<Rightarrow> provider \<Rightarrow> string \<Rightarrow> err + sample list" where
  "runPrometheusQuery E p prov query =
     (case prom prov of
        None \<Rightarrow> Inl (ErrNew ''prometheus not configured'')
      | Some api \<Rightarrow> (case api p (httpTimeout prov) query (now_at E p) of
          Inl err \<Rightarrow> Inl err
        | Inr (Vector samples) \<Rightarrow> Inr samples
        | Inr (OtherValue t) \<Rightarrow> Inl (ErrNew (''unexpected result type '' @ t))))"

text \<open>The verb \<open>%q\<close>, for a printable name in ASCII.\<close>

definition quoted :: "string \<Rightarrow> string" where
  "quoted s = CHR 0x22 # concat (map (\<lambda>c. if c = CHR 0x22 \<or> c = CHR 0x5C then [CHR 0x5C, c] else [c]) s) @ [CHR 0x22]"

text \<open>
  The body of the loops over samples, for the key the sample names (\<open>None\<close> when a label is missing):
  \<open>Custom\<close> is made when it is nil, and a zero timestamp is set to the current time.
\<close>

definition add_sample :: "gotime \<Rightarrow> string \<Rightarrow> 'k option \<Rightarrow> float64 \<Rightarrow> ('k \<times> usage) list \<Rightarrow> ('k \<times> usage) list" where
  "add_sample now name key v usages =
     (case key of None \<Rightarrow> usages | Some k \<Rightarrow>
        let use = usage_at usages k;
            cm = (case custom use of None \<Rightarrow> [] | Some m \<Rightarrow> m);
            use1 = use\<lparr>custom := Some (AList.update name v cm)\<rparr>;
            use2 = (if isZeroTime (timestamp use1) then use1\<lparr>timestamp := now\<rparr> else use1) in
        AList.update k use2 usages)"

definition node_key :: "sample \<Rightarrow> string option" where
  "node_key s = (let node = str_at (smp_metric s) ''node'' in if node = [] then None else Some node)"

definition podKey :: "sample \<Rightarrow> nsname option" where
  "podKey s = (let ns = str_at (smp_metric s) ''namespace''; name = str_at (smp_metric s) ''pod'' in
     if ns = [] \<or> name = [] then None else Some (ns, name))"

fun sample_loop ::
    "'z runtime_scheme \<Rightarrow> pos \<Rightarrow> nat \<Rightarrow> string \<Rightarrow> (sample \<Rightarrow> 'k option) \<Rightarrow> sample list \<Rightarrow> ('k \<times> usage) list \<Rightarrow> ('k \<times> usage) list" where
  "sample_loop E p i name key [] usages = usages"
| "sample_loop E p i name key (s # ss) usages =
     sample_loop E p (Suc i) name key ss (add_sample (now_at E (i # p)) name (key s) (smp_value s) usages)"

fun query_loop ::
    "'z runtime_scheme \<Rightarrow> pos \<Rightarrow> nat \<Rightarrow> provider \<Rightarrow> string \<Rightarrow> (sample \<Rightarrow> 'k option) \<Rightarrow> (string \<times> string) list \<Rightarrow>
     ('k \<times> usage) list \<Rightarrow> err + ('k \<times> usage) list" where
  "query_loop E p i prov what key [] usages = Inr usages"
| "query_loop E p i prov what key ((name, query) # rest) usages =
     (case runPrometheusQuery E (0 # i # p) prov query of
        Inl err \<Rightarrow> Inl (ErrWrap (''prometheus '' @ what @ '' query '' @ quoted name @ '' failed'') err)
      | Inr vector \<Rightarrow> query_loop E p (Suc i) prov what key rest (sample_loop E (1 # i # p) 0 name key vector usages))"

definition populateCustomNodeMetrics ::
    "'z runtime_scheme \<Rightarrow> pos \<Rightarrow> provider \<Rightarrow> usage gomap \<Rightarrow> err + usage gomap" where
  "populateCustomNodeMetrics E p prov usages =
     query_loop E (0 # p) 0 prov ''node'' node_key (go_range E (1 # p) (customNodeQueries prov)) usages"

definition populateCustomPodMetrics ::
    "'z runtime_scheme \<Rightarrow> pos \<Rightarrow> provider \<Rightarrow> (nsname \<times> usage) list \<Rightarrow> err + (nsname \<times> usage) list" where
  "populateCustomPodMetrics E p prov usages =
     query_loop E (0 # p) 0 prov ''pod'' podKey (go_range E (1 # p) (customPodQueries prov)) usages"

subsection \<open>Collecting\<close>

text \<open>The classifiers of the library \<open>apierrors\<close>.\<close>

record api_errors =
  err_notFound :: "err \<Rightarrow> bool"
  err_serviceUnavailable :: "err \<Rightarrow> bool"

definition isMetricsAPIUnavailable :: "api_errors \<Rightarrow> err option \<Rightarrow> bool" where
  "isMetricsAPIUnavailable A e =
     (case e of None \<Rightarrow> False
      | Some err \<Rightarrow>
          if err_notFound A err \<or> err_serviceUnavailable A err then True
          else if sublist ''the server could not find the requested resource'' (err_msg err)
             \<and> sublist ''metrics.k8s.io'' (err_msg err) then True
          else False)"

definition cores :: "'z kube_env_scheme \<Rightarrow> resource_list \<Rightarrow> float64" where
  "cores E rl = fdiv (float_of_int (cpu_milli E rl)) (Fin 1000)"

fun node_items :: "'z kube_env_scheme \<Rightarrow> node_metrics list \<Rightarrow> usage gomap \<Rightarrow> usage gomap" where
  "node_items E [] result = result"
| "node_items E (item # items) result =
     node_items E items (AList.update (nm_name item)
       \<lparr>cpuCores = cores E (nm_usage item), memoryBytes = mem_value E (nm_usage item),
        window = nm_window item, timestamp = nm_timestamp item, custom = Some []\<rparr> result)"

fun total_loop :: "'z kube_env_scheme \<Rightarrow> resource_list list \<Rightarrow> float64 \<times> int \<Rightarrow> float64 \<times> int" where
  "total_loop E [] t = t"
| "total_loop E (rl # rls) (cpu, mem) = total_loop E rls (fadd cpu (cores E rl), wrap64 (mem + mem_value E rl))"

fun pod_items :: "'z kube_env_scheme \<Rightarrow> pod_metrics list \<Rightarrow> (nsname \<times> usage) list \<Rightarrow> (nsname \<times> usage) list" where
  "pod_items E [] result = result"
| "pod_items E (item # items) result =
     (let (totalCPU, totalMem) = total_loop E (pm_containers item) (Fin 0, 0) in
      pod_items E items (AList.update (pm_namespace item, pm_name item)
        \<lparr>cpuCores = totalCPU, memoryBytes = totalMem, window = pm_window item, timestamp = pm_timestamp item,
         custom = Some []\<rparr> result))"

definition CollectNodeMetrics ::
    "'z kube_env_scheme \<Rightarrow> api_errors \<Rightarrow> pos \<Rightarrow> provider \<Rightarrow> err + usage gomap" where
  "CollectNodeMetrics E A p prov =
     attempt id
       (case metricsClient prov of
          None \<Rightarrow> Inr []
        | Some client \<Rightarrow> (case list_nodeMetrics client (0 # p) of
            Inl err \<Rightarrow> if isMetricsAPIUnavailable A (Some err) then Inr [] else Inl (ErrWrap ''list node metrics'' err)
          | Inr items \<Rightarrow> Inr (node_items E items [])))
       (\<lambda>result. if prom prov \<noteq> None \<and> customNodeQueries prov \<noteq> []
          then populateCustomNodeMetrics E (1 # p) prov result else Inr result)"

definition CollectPodMetrics ::
    "'z kube_env_scheme \<Rightarrow> api_errors \<Rightarrow> pos \<Rightarrow> provider \<Rightarrow> err + (nsname \<times> usage) list" where
  "CollectPodMetrics E A p prov =
     attempt id
       (case metricsClient prov of
          None \<Rightarrow> Inr []
        | Some client \<Rightarrow> (case list_podMetrics client (0 # p) of
            Inl err \<Rightarrow> if isMetricsAPIUnavailable A (Some err) then Inr [] else Inl (ErrWrap ''list pod metrics'' err)
          | Inr items \<Rightarrow> Inr (pod_items E items [])))
       (\<lambda>result. if prom prov \<noteq> None \<and> customPodQueries prov \<noteq> []
          then populateCustomPodMetrics E (1 # p) prov result else Inr result)"

subsection \<open>What the loops collect\<close>

definition custom_at :: "('k \<times> usage) list \<Rightarrow> 'k \<Rightarrow> float64 gomap" where
  "custom_at us k = (case custom (usage_at us k) of None \<Rightarrow> [] | Some m \<Rightarrow> m)"

text \<open>The value of the last sample of a vector for a key.\<close>

definition last_sample :: "(sample \<Rightarrow> 'k option) \<Rightarrow> 'k \<Rightarrow> sample list \<Rightarrow> float64 option" where
  "last_sample key k ss = (case filter (\<lambda>s. key s = Some k) ss of [] \<Rightarrow> None | xs \<Rightarrow> Some (smp_value (last xs)))"

lemma usage_at_update: "usage_at (AList.update k u us) j = (if j = k then u else usage_at us j)"
  by (simp add: usage_at_def map_of_update)

lemma add_sample_facts:
  "cpuCores (usage_at (add_sample now name key v us) k) = cpuCores (usage_at us k)"
  "memoryBytes (usage_at (add_sample now name key v us) k) = memoryBytes (usage_at us k)"
  "map_of (custom_at (add_sample now name key v us) k) n =
     (if key = Some k \<and> n = name then Some v else map_of (custom_at us k) n)"
  "fst ` set (add_sample now name key v us) = fst ` set us \<union> set_option key"
  by (auto simp: add_sample_def Let_def usage_at_update custom_at_def map_of_update dom_update
      split: option.split)

lemma last_sample_Cons:
  "last_sample key k (s # ss) = (case last_sample key k ss of
     None \<Rightarrow> if key s = Some k then Some (smp_value s) else None | Some v \<Rightarrow> Some v)"
  by (auto simp: last_sample_def split: list.splits)

lemma last_sample_Nil [simp]: "last_sample key k [] = None"
  by (simp add: last_sample_def)

lemma last_sample_None_iff: "last_sample key k ss = None \<longleftrightarrow> (\<forall>s\<in>set ss. key s \<noteq> Some k)"
proof (cases "filter (\<lambda>s. key s = Some k) ss")
  case Nil
  then show ?thesis by (simp add: last_sample_def filter_empty_conv)
next
  case (Cons x xs)
  have "x \<in> set (filter (\<lambda>s. key s = Some k) ss)" unfolding Cons by simp
  then have "x \<in> set ss" "key x = Some k" by simp_all
  with Cons show ?thesis by (auto simp: last_sample_def)
qed

lemma sample_loop_facts:
  "cpuCores (usage_at (sample_loop E p i name key ss us) k) = cpuCores (usage_at us k)
   \<and> memoryBytes (usage_at (sample_loop E p i name key ss us) k) = memoryBytes (usage_at us k)
   \<and> map_of (custom_at (sample_loop E p i name key ss us) k) n =
     (if n = name \<and> last_sample key k ss \<noteq> None then last_sample key k ss else map_of (custom_at us k) n)
   \<and> fst ` set (sample_loop E p i name key ss us) = fst ` set us \<union> {k. \<exists>s\<in>set ss. key s = Some k}"
proof (induction ss arbitrary: i us)
  case (Cons s ss)
  show ?case
    using Cons.IH [of "Suc i" "add_sample (now_at E (i # p)) name (key s) (smp_value s) us"]
    by (auto simp: add_sample_facts last_sample_Cons split: option.splits)
qed simp

text \<open>A Prometheus that answers each of the queries with the vector \<open>vec\<close> gives for it.\<close>

definition answers_vectors :: "provider \<Rightarrow> (string \<Rightarrow> sample list) \<Rightarrow> (string \<times> string) list \<Rightarrow> bool" where
  "answers_vectors prov vec queries \<longleftrightarrow>
     (\<exists>api. prom prov = Some api \<and> (\<forall>(name, q)\<in>set queries. \<forall>p d t. api p d q t = Inr (Vector (vec q))))"

lemma runPrometheusQuery_vec:
  "answers_vectors prov vec queries \<Longrightarrow> (name, q) \<in> set queries \<Longrightarrow> runPrometheusQuery E p prov q = Inr (vec q)"
  by (auto simp: answers_vectors_def runPrometheusQuery_def)

lemma query_loop_facts:
  assumes "answers_vectors prov vec queries" and "distinct (map fst queries)"
  shows "\<exists>us'. query_loop E p i prov what key queries us = Inr us'
    \<and> (\<forall>k. cpuCores (usage_at us' k) = cpuCores (usage_at us k) \<and> memoryBytes (usage_at us' k) = memoryBytes (usage_at us k)
       \<and> (\<forall>n. map_of (custom_at us' k) n = (case map_of queries n of
            None \<Rightarrow> map_of (custom_at us k) n
          | Some q \<Rightarrow> if last_sample key k (vec q) \<noteq> None then last_sample key k (vec q) else map_of (custom_at us k) n)))
    \<and> fst ` set us' = fst ` set us \<union> {k. \<exists>(n, q)\<in>set queries. \<exists>s\<in>set (vec q). key s = Some k}"
  using assms
proof (induction queries arbitrary: i us)
  case (Cons e queries)
  obtain name q where e: "e = (name, q)" by (cases e)
  have run: "runPrometheusQuery E (0 # i # p) prov q = Inr (vec q)"
    by (rule runPrometheusQuery_vec [OF Cons.prems(1), of name]) (simp add: e)
  have rest: "answers_vectors prov vec queries" "distinct (map fst queries)" and new: "map_of queries name = None"
    using Cons.prems by (auto simp: answers_vectors_def e map_of_eq_None_iff)
  let ?us = "sample_loop E (1 # i # p) 0 name key (vec q) us"
  note s = sample_loop_facts [of E "1 # i # p" 0 name key "vec q" us]
  obtain us' where us': "query_loop E p (Suc i) prov what key queries ?us = Inr us'"
    "\<And>k. cpuCores (usage_at us' k) = cpuCores (usage_at ?us k) \<and> memoryBytes (usage_at us' k) = memoryBytes (usage_at ?us k)"
    "\<And>k n. map_of (custom_at us' k) n = (case map_of queries n of
            None \<Rightarrow> map_of (custom_at ?us k) n
          | Some q \<Rightarrow> if last_sample key k (vec q) \<noteq> None then last_sample key k (vec q) else map_of (custom_at ?us k) n)"
    "fst ` set us' = fst ` set ?us \<union> {k. \<exists>(n, q)\<in>set queries. \<exists>s\<in>set (vec q). key s = Some k}"
    using Cons.IH [OF rest, of "Suc i" ?us] by blast
  have "query_loop E p i prov what key (e # queries) us = Inr us'" using us'(1) by (simp add: e run)
  moreover have "cpuCores (usage_at us' k) = cpuCores (usage_at us k) \<and> memoryBytes (usage_at us' k) = memoryBytes (usage_at us k)" for k
    using us'(2) s by simp
  moreover have "map_of (custom_at us' k) n = (case map_of (e # queries) n of
            None \<Rightarrow> map_of (custom_at us k) n
          | Some q \<Rightarrow> if last_sample key k (vec q) \<noteq> None then last_sample key k (vec q) else map_of (custom_at us k) n)" for k n
    using us'(3) [of k n] sample_loop_facts [of E "1 # i # p" 0 name key "vec q" us k n] new
    by (auto simp: e split: option.splits)
  moreover have "fst ` set us' = fst ` set us \<union> {k. \<exists>(n, q)\<in>set (e # queries). \<exists>s\<in>set (vec q). key s = Some k}"
    using us'(4) s by (auto simp: e)
  ultimately show ?case by blast
qed simp

lemma node_items_at:
  "distinct (map nm_name items) \<Longrightarrow> map_of (node_items E items us) k =
     (case find (\<lambda>it. nm_name it = k) items of
        None \<Rightarrow> map_of us k
      | Some it \<Rightarrow> Some \<lparr>cpuCores = cores E (nm_usage it), memoryBytes = mem_value E (nm_usage it),
          window = nm_window it, timestamp = nm_timestamp it, custom = Some []\<rparr>)"
proof (induction items arbitrary: us)
  case (Cons it items)
  have "find (\<lambda>i. nm_name i = nm_name it) items = None"
    using Cons.prems by (auto simp: find_None_iff) (metis image_eqI)
  with Cons show ?case by (auto simp: map_of_update split: option.split)
qed simp


lemma node_items_facts:
  assumes "distinct (map nm_name items)"
  shows "(cpuCores (usage_at (node_items E items []) k), memoryBytes (usage_at (node_items E items []) k)) =
      (case find (\<lambda>it. nm_name it = k) items of
         None \<Rightarrow> (Fin 0, 0) | Some it \<Rightarrow> (cores E (nm_usage it), mem_value E (nm_usage it)))"
    and "map_of (custom_at (node_items E items []) k) n = None"
    and "fst ` set (node_items E items []) = nm_name ` set items"
proof -
  let ?m = "node_items E items []"
  note at = node_items_at [OF assms, of E "[]"]
  show "(cpuCores (usage_at ?m k), memoryBytes (usage_at ?m k)) = (case find (\<lambda>it. nm_name it = k) items of
      None \<Rightarrow> (Fin 0, 0) | Some it \<Rightarrow> (cores E (nm_usage it), mem_value E (nm_usage it)))"
    and "map_of (custom_at ?m k) n = None"
    by (auto simp: usage_at_def custom_at_def at zero_usage_def split: option.splits)
  have "k \<in> fst ` set ?m \<longleftrightarrow> k \<in> nm_name ` set items" for k
  proof -
    have "k \<in> fst ` set ?m \<longleftrightarrow> map_of ?m k \<noteq> None" by (simp add: map_of_eq_None_iff)
    also have "\<dots> \<longleftrightarrow> find (\<lambda>it. nm_name it = k) items \<noteq> None" by (simp add: at split: option.split)
    also have "\<dots> \<longleftrightarrow> k \<in> nm_name ` set items" by (auto simp: find_None_iff)
    finally show ?thesis .
  qed
  then show "fst ` set ?m = nm_name ` set items" by blast
qed

text \<open>
  C31: what the provider reports of the nodes. When the metrics API and Prometheus answer, the result
  knows exactly the nodes the metrics API lists and those a sample names; CPU and memory are the listed
  ones, zero for a node known from samples only; and each custom metric is the value of the last sample
  of its query for the node. None of this depends on the order the queries are visited in.
\<close>

theorem CollectNodeMetrics_reports:
  assumes "go_runtime E" and "metricsClient prov = Some client" and "list_nodeMetrics client (0 # p) = Inr items"
    and "distinct (map nm_name items)" and "wf_map (customNodeQueries prov)"
    and "answers_vectors prov vec (customNodeQueries prov)"
  shows "\<exists>us. CollectNodeMetrics E A p prov = Inr us
    \<and> fst ` set us = nm_name ` set items
        \<union> {k. \<exists>(n, q)\<in>set (customNodeQueries prov). \<exists>s\<in>set (vec q). node_key s = Some k}
    \<and> (\<forall>k. (cpuCores (usage_at us k), memoryBytes (usage_at us k)) =
          (case find (\<lambda>it. nm_name it = k) items of
             None \<Rightarrow> (Fin 0, 0) | Some it \<Rightarrow> (cores E (nm_usage it), mem_value E (nm_usage it)))
        \<and> (\<forall>n. map_of (custom_at us k) n = (case map_of (customNodeQueries prov) n of
             None \<Rightarrow> None | Some q \<Rightarrow> last_sample node_key k (vec q))))"
proof -
  note range = go_runtime.wf_map_go_range [OF assms(1,5)] go_runtime.set_go_range [OF assms(1,5)] go_runtime.map_of_go_range [OF assms(1,5)]
  let ?m = "node_items E items []" and ?qs = "go_range E (1 # 1 # p) (customNodeQueries prov)"
  note base = node_items_facts(1) [OF assms(4), of E] and none = node_items_facts(2) [OF assms(4), of E]
    and keys = node_items_facts(3) [OF assms(4), of E]
  have qs: "answers_vectors prov vec ?qs" "distinct (map fst ?qs)" "set ?qs = set (customNodeQueries prov)"
    using assms(6) range(1) by (simp_all add: answers_vectors_def range(2) wf_map_def)
  have lookup: "map_of ?qs n = map_of (customNodeQueries prov) n" for n by (rule range(3))
  have run: "CollectNodeMetrics E A p prov = query_loop E (0 # 1 # p) 0 prov ''node'' node_key ?qs ?m"
  proof (cases "customNodeQueries prov = []")
    case True
    then have "?qs = []" using qs(3) by (metis set_empty)
    with True assms(2,3) show ?thesis by (simp add: CollectNodeMetrics_def)
  next
    case False
    with assms(2,3,6) show ?thesis
      by (auto simp: CollectNodeMetrics_def populateCustomNodeMetrics_def answers_vectors_def)
  qed
  obtain us where us: "query_loop E (0 # 1 # p) 0 prov ''node'' node_key ?qs ?m = Inr us"
    "\<And>k. cpuCores (usage_at us k) = cpuCores (usage_at ?m k) \<and> memoryBytes (usage_at us k) = memoryBytes (usage_at ?m k)"
    "\<And>k n. map_of (custom_at us k) n = (case map_of ?qs n of
            None \<Rightarrow> map_of (custom_at ?m k) n
          | Some q \<Rightarrow> if last_sample node_key k (vec q) \<noteq> None then last_sample node_key k (vec q) else map_of (custom_at ?m k) n)"
    "fst ` set us = fst ` set ?m \<union> {k. \<exists>(n, q)\<in>set ?qs. \<exists>s\<in>set (vec q). node_key s = Some k}"
    using query_loop_facts [OF qs(1,2), of E "0 # 1 # p" 0 "''node''" node_key ?m] by blast
  show ?thesis
    using us base none keys qs(3) lookup run by (intro exI [of _ us]) (auto split: option.splits)
qed


subsection \<open>Errors\<close>

lemma CollectNodeMetrics_unavailable:
  assumes "metricsClient prov = Some client" and "list_nodeMetrics client (0 # p) = Inl err"
    and "prom prov = None \<or> customNodeQueries prov = []"
  shows "CollectNodeMetrics E A p prov =
    (if isMetricsAPIUnavailable A (Some err) then Inr [] else Inl (ErrWrap ''list node metrics'' err))"
  using assms by (auto simp: CollectNodeMetrics_def)

lemma isMetricsAPIUnavailable_nil [simp]: "\<not> isMetricsAPIUnavailable A None"
  by (simp add: isMetricsAPIUnavailable_def)

lemma defaultWeights_finite:
  assumes "resourceWeights spec = \<lparr>weight_cpu = Fin a, weight_memory = Fin b\<rparr>"
  obtains c d where "weight_cpu (defaultWeights (resourceWeights spec)) = Fin c"
    and "weight_memory (defaultWeights (resourceWeights spec)) = Fin d"
proof -
  have "magnitude 1 (fl (7 / 10))" "magnitude 1 (fl (3 / 10))" by (rule magnitude_fl; simp)+
  then obtain c d where f: "fl (7 / 10) = Fin c" "fl (3 / 10) = Fin d" by (auto simp: magnitude_def)
  show ?thesis
  proof (cases "a = 0 \<and> b = 0")
    case True
    then show ?thesis using that [of c d] f assms by (simp add: defaultWeights_def feq_def)
  next
    case False
    then show ?thesis using that [of a b] assms by (auto simp: defaultWeights_def feq_def)
  qed
qed

lemma float_of_int_not_0: "0 < n \<Longrightarrow> float_of_int n \<noteq> NaN \<and> float_of_int n \<noteq> Fin 0"
  using float_of_int_mono [of 1 n] by (auto simp: float_of_int_def fle_def feq_def)

lemma fdiv_0: "x \<noteq> NaN \<Longrightarrow> x \<noteq> Fin 0 \<Longrightarrow> fdiv (Fin 0) x = Fin 0"
  by (cases x) simp_all

lemma idle_utilization:
  assumes "cpuCores (ns_usage st) = Fin 0" and "memoryBytes (ns_usage st) = 0"
    and "weight_cpu w = Fin c" and "weight_memory w = Fin d"
  shows "util_weighted (nodeUtilization E w st) = Fin 0"
  using assms by (simp add: nodeUtilization_def Let_def fdiv_0 float_of_int_not_0)

text \<open>
  Without metrics nothing is evicted. When the metrics API is not available and there are no custom
  queries, the provider reports no node instead of failing; every node of the snapshot then reads as
  idle, and a plan contains no eviction as long as the threshold for hot nodes, less the hysteresis, is
  above zero.
\<close>

lemma no_metrics_no_evictions:
  assumes "go_runtime E"
    and "metricsClient prov = Some client" and "list_nodeMetrics client (0 # q) = Inl err"
    and "isMetricsAPIUnavailable A (Some err)" and "prom prov = None \<or> customNodeQueries prov = []"
    and "rd_nodeMetrics rd = CollectNodeMetrics E A q prov" and "Snapshot E p rd pl = Inr snap"
    and "resourceWeights spec = \<lparr>weight_cpu = Fin a, weight_memory = Fin b\<rparr>"
    and "flt (Fin 0) (fsub (hotThreshold spec) (hysteresis spec))"
  shows "plan_evictions (fst (Plan E r pl snap spec)) = []"
proof -
  have nm: "rd_nodeMetrics rd = Inr []" using assms(2-6) by (simp add: CollectNodeMetrics_unavailable)
  obtain ns cs where reads: "rd_nodes rd = Inr ns" "rd_nodeClasses rd = Inr cs"
    using assms(7) by (rule Snapshot_InrE)
  obtain c d where w: "weight_cpu (defaultWeights (resourceWeights spec)) = Fin c"
      "weight_memory (defaultWeights (resourceWeights spec)) = Fin d"
    using assms(8) by (rule defaultWeights_finite)
  have idle: "util_weighted (nodeUtilization E (defaultWeights (resourceWeights spec)) st) = Fin 0"
    if "map_of (snap_nodes snap) k = Some st" for k st
  proof (rule idle_utilization [OF _ _ w])
    have "ns_usage st = zero_usage"
      using snap_node_of [OF assms(1,7) nm reads(1) that] by (simp add: usage_at_def)
    then show "cpuCores (ns_usage st) = Fin 0" "memoryBytes (ns_usage st) = 0" by (simp_all add: zero_usage_def)
  qed
  have wf: "wf_nodes (snap_nodes snap)"
    using Snapshot_wf [OF assms(1,7)] by (simp add: wf_snapshot_def)
  obtain nodes hot cold util where cls: "classifyNodes E (0 # r) (snap_nodes snap) (defaultWeights (resourceWeights spec)) spec = (nodes, hot, cold, util)"
    by (metis prod_cases4)
  have "temperatureOf spec (Fin 0) \<noteq> NodeHot"
    using assms(9) flt_asym flt_irrefl by (auto simp: temperatureOf_def fle_def feq_def)
  then have "k \<notin> set hot" for k
    using classify_hot [OF assms(1) wf cls] idle by auto
  then have hot: "hot = []" by (metis last_in_set)
  obtain pln snap' pl' where run: "Plan E r pl snap spec = (pln, snap', pl')" by (metis prod_cases3)
  show ?thesis using run cls
    by (cases rule: Plan_cases) (simp_all add: run hot)
qed

definition example_client :: metrics_client where
  "example_client = \<lparr>list_nodeMetrics = (\<lambda>p. Inr [\<lparr>nm_name = ''n1'', nm_usage = [(''cpu'', 2000000000)],
     nm_window = minute, nm_timestamp = 7\<rparr>]), list_podMetrics = (\<lambda>p. Inr [])\<rparr>"

definition example_provider :: provider where
  "example_provider = \<lparr>metricsClient = Some example_client,
     prom = Some (\<lambda>p d q t. Inr (Vector [\<lparr>smp_metric = [(''node'', ''n1'')], smp_value = Fin 1\<rparr>,
       \<lparr>smp_metric = [(''node'', ''n2'')], smp_value = Fin 2\<rparr>, \<lparr>smp_metric = [(''node'', ''n1'')], smp_value = Fin 3\<rparr>])),
     customNodeQueries = [(''gpu'', ''sum(gpu)'')], customPodQueries = [], httpTimeout = 15 * second\<rparr>"

theorem CollectNodeMetrics_reports_witness:
  "\<exists>us. CollectNodeMetrics (plain_env 0) \<lparr>err_notFound = (\<lambda>e. False), err_serviceUnavailable = (\<lambda>e. False)\<rparr> [] example_provider = Inr us
    \<and> fst ` set us = {''n1'', ''n2''} \<and> memoryBytes (usage_at us ''n2'') = 0
    \<and> map_of (custom_at us ''n1'') ''gpu'' = Some (Fin 3)"
proof -
  define vec where "vec = (\<lambda>q::string. [\<lparr>smp_metric = [(''node'', ''n1'')], smp_value = Fin 1\<rparr>,
       \<lparr>smp_metric = [(''node'', ''n2'')], smp_value = Fin 2\<rparr>, \<lparr>smp_metric = [(''node'', ''n1'')], smp_value = Fin 3\<rparr>])"
  let ?it = "\<lparr>nm_name = ''n1'', nm_usage = [(''cpu'', 2000000000)], nm_window = minute, nm_timestamp = 7\<rparr>"
  have a: "answers_vectors example_provider vec (customNodeQueries example_provider)"
    by (simp add: answers_vectors_def example_provider_def vec_def)
  have c: "metricsClient example_provider = Some example_client" by (simp add: example_provider_def)
  have i: "list_nodeMetrics example_client (0 # []) = Inr [?it]" by (simp add: example_client_def)
  have qs: "customNodeQueries example_provider = [(''gpu'', ''sum(gpu)'')]" by (simp add: example_provider_def)
  have samples: "{k. \<exists>(n, q)\<in>set (customNodeQueries example_provider). \<exists>s\<in>set (vec q). node_key s = Some k} = {''n1'', ''n2''}"
    by (auto simp: qs vec_def node_key_def str_at_def Let_def)
  have last: "last_sample node_key ''n1'' (vec q) = Some (Fin 3)" for q
    by (simp add: last_sample_def vec_def node_key_def str_at_def Let_def)
  have wf: "wf_map (customNodeQueries example_provider)" by (simp add: qs wf_map_def)
  have d: "distinct (map nm_name [?it])" by simp
  from CollectNodeMetrics_reports [OF go_runtime_plain_env [of 0] c i d wf a,
      of "\<lparr>err_notFound = (\<lambda>e. False), err_serviceUnavailable = (\<lambda>e. False)\<rparr>"]
  obtain us where us: "CollectNodeMetrics (plain_env 0) \<lparr>err_notFound = (\<lambda>e. False), err_serviceUnavailable = (\<lambda>e. False)\<rparr> [] example_provider = Inr us"
    "fst ` set us = nm_name ` set [?it] \<union> {''n1'', ''n2''}"
    "\<forall>k. (cpuCores (usage_at us k), memoryBytes (usage_at us k)) =
          (case find (\<lambda>it. nm_name it = k) [?it] of
             None \<Rightarrow> (Fin 0, 0) | Some it \<Rightarrow> (cores (plain_env 0) (nm_usage it), mem_value (plain_env 0) (nm_usage it)))
       \<and> (\<forall>n. map_of (custom_at us k) n = (case map_of (customNodeQueries example_provider) n of
             None \<Rightarrow> None | Some q \<Rightarrow> last_sample node_key k (vec q)))"
    unfolding samples by (elim exE conjE) (rule that)
  have "memoryBytes (usage_at us ''n2'') = 0" using us(3) [THEN spec, of "''n2''"] by simp
  moreover have "map_of (custom_at us ''n1'') ''gpu'' = Some (Fin 3)"
    using us(3) [THEN spec, of "''n1''", THEN conjunct2, THEN spec, of "''gpu''"] by (simp add: qs last)
  moreover have "fst ` set us = {''n1'', ''n2''}" using us(2) by auto
  ultimately show ?thesis using us(1) by blast
qed

end
