(* ===== verification/Manager.thy ===== *)
theory Manager
  imports Reconcile Dashboard MetricsProvider
begin

text \<open>
  What the manager binary (\<open>cmd/manager/main.go\<close>) decides itself: the limit for local volumes it starts
  the planner with, the options of the metrics provider, and which requests of the metrics server go to
  the dashboard. The theory \<open>Startup\<close> puts these decisions into the order of the program.
\<close>

definition emptyDirLimitFlag :: "int \<Rightarrow> int" where
  "emptyDirLimitFlag emptyDirThresholdGi =
     (if emptyDirThresholdGi \<le> 0 then DefaultEmptyDirThresholdGi else emptyDirThresholdGi)"

definition startPlanner :: "int \<Rightarrow> planner" where
  "startPlanner emptyDirThresholdGi = New (emptyDirLimitFlag emptyDirThresholdGi)"

definition providerOptions :: "string \<Rightarrow> provider_options" where
  "providerOptions prometheusAddress =
     (let opts = \<lparr>enableMetricsServer = True, enablePrometheus = False,
            opt_prometheus = \<lparr>po_address = [], po_bearerTokenFile = [], po_insecureSkipVerify = False, po_timeout = 0,
              po_customNodeQueries = [], po_customPodQueries = []\<rparr>\<rparr> in
      if prometheusAddress \<noteq> [] then
        opts\<lparr>enablePrometheus := True, opt_prometheus := (opt_prometheus opts)\<lparr>po_address := prometheusAddress\<rparr>\<rparr>
      else opts)"

text \<open>
  The patterns main registers with the metrics server, and the rule of \<open>http.ServeMux\<close>: a pattern that
  ends in a slash matches every path below it, any other only itself, and the longest match wins.
\<close>

datatype route = StaticRoute | DataRoute

definition extraHandlerPatterns :: "(string \<times> route) list" where
  "extraHandlerPatterns =
     [(''/'', StaticRoute), (''/dashboard'', StaticRoute), (''/dashboard/'', StaticRoute), (''/dashboard/data'', DataRoute)]"

definition mux_matches :: "string \<Rightarrow> string \<Rightarrow> bool" where
  "mux_matches pattern path \<longleftrightarrow>
     path = pattern \<or> pattern \<noteq> [] \<and> last pattern = CHR ''/'' \<and> take (length pattern) path = pattern"

fun mux_lookup :: "(string \<times> 'h) list \<Rightarrow> string \<Rightarrow> (string \<times> 'h) option" where
  "mux_lookup [] path = None"
| "mux_lookup ((pattern, h) # rest) path =
     (case mux_lookup rest path of
        Some (best, h') \<Rightarrow> Some (if mux_matches pattern path \<and> length best < length pattern then (pattern, h) else (best, h'))
      | None \<Rightarrow> if mux_matches pattern path then Some (pattern, h) else None)"

definition extraHandlers :: "'z kube_env_scheme \<Rightarrow> pos \<Rightarrow> handler \<Rightarrow> string option \<Rightarrow> string \<Rightarrow> response" where
  "extraHandlers E p h index path =
     (case mux_lookup extraHandlerPatterns path of
        Some (pattern, DataRoute) \<Rightarrow> Data E p h
      | Some (pattern, StaticRoute) \<Rightarrow> Static index path
      | None \<Rightarrow> HttpError 404 ''404 page not found'')"

lemma extraHandlers_eq:
  assumes "hd path = CHR ''/''" and "path \<noteq> []"
  shows "extraHandlers E p h index path = (if path = ''/dashboard/data'' then Data E p h else Static index path)"
proof -
  have root: "mux_matches ''/'' path" using assms by (cases path) (simp_all add: mux_matches_def)
  show ?thesis
    using root by (auto simp: extraHandlers_def extraHandlerPatterns_def mux_matches_def split: option.splits)
qed

subsection \<open>Consequences\<close>

text \<open>The planner always starts with a positive limit, whatever the flag says, and the limit of the flag if that is one.\<close>

lemma startPlanner_limit:
  "0 < emptyDirLimitGi (startPlanner n)" "0 < n \<Longrightarrow> emptyDirLimitGi (startPlanner n) = n"
  by (simp_all add: startPlanner_def emptyDirLimitFlag_def New_def DefaultEmptyDirThresholdGi_def)

text \<open>A planner the manager starts is the start of a run of the operator, with nothing recorded.\<close>

lemma startPlanner_run: "operator_run B (startPlanner n) []"
  unfolding startPlanner_def by (rule operator_run.start)

text \<open>
  The manager configures no custom query, so what its provider collects does not depend on Prometheus,
  with or without an address for it.
\<close>

lemma attempt_Inr_iff: "attempt wrap r f = Inr b \<longleftrightarrow> (\<exists>a. r = Inr a \<and> f a = Inr b)"
  by (cases r) simp_all

lemma manager_provider:
  assumes "NewProvider newMetrics newProm transport readFile (providerOptions address) = Inr prov"
  shows "metricsClient prov \<noteq> None" and "customNodeQueries prov = []" and "customPodQueries prov = []"
    and "httpTimeout prov = 15 * second"
  using assms
  by (auto simp: NewProvider_def providerOptions_def attempt_Inr_iff Let_def map_sum_def split: if_splits sum.splits)

lemma manager_ignores_prometheus:
  assumes "NewProvider newMetrics newProm transport readFile (providerOptions address) = Inr prov"
  shows "CollectNodeMetrics E A p prov = CollectNodeMetrics E A p (prov\<lparr>prom := None\<rparr>)"
    and "CollectPodMetrics E A p prov = CollectPodMetrics E A p (prov\<lparr>prom := None\<rparr>)"
  using manager_provider(2,3) [OF assms]
  by (auto simp: CollectNodeMetrics_def CollectPodMetrics_def intro!: arg_cong [where f = "attempt id _"])

text \<open>Requests before the dashboard is attached are answered, with an error for the data and with the page otherwise.\<close>

lemma extraHandlers_not_ready:
  assumes "Ready h \<noteq> None"
  shows "extraHandlers E p h index ''/dashboard/data'' = HttpError 503 ''dashboard not initialised''"
    and "extraHandlers E p h (Some page) ''/'' = Html page"
  using assms by (auto simp: extraHandlers_eq Data_def Ready_def Static_def split: if_splits option.splits)

lemma extraHandlers_attached:
  "Ready (Attach (Some c) (Some m) (Some k) h) = None"
  by (simp add: Ready_def Attach_def)

text \<open>Below \<open>/dashboard/\<close> the file server gets the rest of the path; the fallback to the index page in that branch is dead code.\<close>

lemma Static_below_dashboard:
  assumes "r \<noteq> []" shows "Static index (''/dashboard/'' @ r) = ServeFile (CHR 0x2F # r)"
  using assms by (cases r) (auto simp: Static_def)

end
