(* ===== verification/GoFlag.thy ===== *)
theory GoFlag
  imports GoStrconv
begin

text \<open>
  The package \<open>flag\<close> of the standard library as the program uses it: the parsing loop of a \<open>FlagSet\<close>
  and the values of boolean, integer and duration flags (\<open>strconv.ParseBool\<close>, \<open>strconv.ParseInt\<close> with
  base 0, \<open>time.ParseDuration\<close>). A flag set is a function from names to the kind of the flag and its
  method \<open>Set\<close>, on a state of flag variables; \<open>None\<close> of \<open>Set\<close> is an error.

  The lemmas show that the values read back what the decimal printer writes, and how the loop takes a
  flag written as \<open>--name=value\<close>.
\<close>

subsection \<open>Boolean and integer values\<close>

definition parseBool :: "string \<Rightarrow> bool option" where
  "parseBool s =
     (if s \<in> {''1'', ''t'', ''T'', ''TRUE'', ''true'', ''True''} then Some True
      else if s \<in> {''0'', ''f'', ''F'', ''FALSE'', ''false'', ''False''} then Some False
      else None)"

text \<open>The value of a byte as a digit of any base up to 36.\<close>

definition digit_of :: "char \<Rightarrow> int option" where
  "digit_of c = (let b = of_char c in
     if 48 \<le> b \<and> b \<le> 57 then Some (b - 48)
     else if 97 \<le> b \<and> b \<le> 122 then Some (b - 97 + 10)
     else if 65 \<le> b \<and> b \<le> 90 then Some (b - 65 + 10)
     else None)"

fun base_digits :: "int \<Rightarrow> int \<Rightarrow> string \<Rightarrow> int option" where
  "base_digits base acc [] = Some acc"
| "base_digits base acc (c # cs) =
     (if c = CHR ''_'' then base_digits base acc cs
      else case digit_of c of
        None \<Rightarrow> None
      | Some d \<Rightarrow> if d \<ge> base then None else base_digits base (base * acc + d) cs)"

text \<open>The base a prefix announces, and the digits that follow it.\<close>

definition base_prefix :: "string \<Rightarrow> int \<times> string" where
  "base_prefix s =
     (if s \<noteq> [] \<and> hd s = CHR ''0'' then
        if length s \<ge> 3 \<and> s ! 1 \<in> {CHR ''b'', CHR ''B''} then (2, drop 2 s)
        else if length s \<ge> 3 \<and> s ! 1 \<in> {CHR ''o'', CHR ''O''} then (8, drop 2 s)
        else if length s \<ge> 3 \<and> s ! 1 \<in> {CHR ''x'', CHR ''X''} then (16, drop 2 s)
        else (8, drop 1 s)
      else (10, s))"

text \<open>\<open>underscoreOK\<close>: an underscore must stand between two digits, or between the base prefix and a digit.\<close>

datatype last_seen = SeenStart | SeenDigit | SeenUnderscore | SeenOther

fun underscore_loop :: "bool \<Rightarrow> last_seen \<Rightarrow> string \<Rightarrow> bool" where
  "underscore_loop hex saw [] \<longleftrightarrow> saw \<noteq> SeenUnderscore"
| "underscore_loop hex saw (c # cs) \<longleftrightarrow>
     (if (case digit_of c of None \<Rightarrow> False | Some d \<Rightarrow> d < 10 \<or> hex \<and> d < 16) then underscore_loop hex SeenDigit cs
      else if c = CHR ''_'' then saw = SeenDigit \<and> underscore_loop hex SeenUnderscore cs
      else saw \<noteq> SeenUnderscore \<and> underscore_loop hex SeenOther cs)"

definition underscoreOK :: "string \<Rightarrow> bool" where
  "underscoreOK s =
     (if length s \<ge> 2 \<and> hd s = CHR ''0'' \<and> s ! 1 \<in> {CHR ''b'', CHR ''B'', CHR ''o'', CHR ''O'', CHR ''x'', CHR ''X''}
      then underscore_loop (s ! 1 \<in> {CHR ''x'', CHR ''X''}) SeenDigit (drop 2 s)
      else underscore_loop False SeenStart s)"

definition parseUint0 :: "string \<Rightarrow> int option" where
  "parseUint0 s =
     (if s = [] then None
      else let (base, ds) = base_prefix s in
        case base_digits base 0 ds of
          None \<Rightarrow> None
        | Some n \<Rightarrow> if CHR ''_'' \<in> set ds \<and> \<not> underscoreOK s then None else Some n)"

text \<open>\<open>strconv.ParseInt(s, 0, 64)\<close>.\<close>

definition parseInt0 :: "string \<Rightarrow> int option" where
  "parseInt0 s =
     (case s of
        [] \<Rightarrow> None
      | c # cs \<Rightarrow>
          (case parseUint0 (if c = CHR ''+'' \<or> c = CHR ''-'' then cs else s) of
             None \<Rightarrow> None
           | Some un \<Rightarrow>
               if c = CHR ''-'' then (if un \<le> 2 ^ 63 then Some (- un) else None)
               else (if un < 2 ^ 63 then Some un else None)))"

subsection \<open>Durations\<close>

definition is_digit :: "char \<Rightarrow> bool" where
  "is_digit c \<longleftrightarrow> digit_val c \<noteq> None"

text \<open>\<open>leadingInt\<close>: the value of the leading digits and the rest, or an overflow beyond 2^63.\<close>

fun leadingInt :: "int \<Rightarrow> string \<Rightarrow> (int \<times> string) option" where
  "leadingInt x [] = Some (x, [])"
| "leadingInt x (c # cs) =
     (case digit_val c of
        None \<Rightarrow> Some (x, c # cs)
      | Some d \<Rightarrow>
          if x > 2 ^ 63 div 10 then None
          else if 10 * x + d > 2 ^ 63 then None
          else leadingInt (10 * x + d) cs)"

text \<open>\<open>leadingFraction\<close>: the digits as an integer with their scale; digits beyond the range are read but not used.\<close>

fun leadingFraction :: "bool \<Rightarrow> int \<Rightarrow> float64 \<Rightarrow> string \<Rightarrow> int \<times> float64 \<times> string" where
  "leadingFraction overflow x scale [] = (x, scale, [])"
| "leadingFraction overflow x scale (c # cs) =
     (case digit_val c of
        None \<Rightarrow> (x, scale, c # cs)
      | Some d \<Rightarrow>
          if overflow then leadingFraction True x scale cs
          else if x > (2 ^ 63 - 1) div 10 then leadingFraction True x scale cs
          else if 10 * x + d > 2 ^ 63 then leadingFraction True x scale cs
          else leadingFraction False (10 * x + d) (fmul scale (Fin 10)) cs)"

lemma leadingInt_length: "leadingInt x s = Some (v, rest) \<Longrightarrow> length rest \<le> length s"
  by (induction s arbitrary: x) (auto split: option.splits if_splits simp: le_SucI)

lemma leadingFraction_length: "leadingFraction b x sc s = (v, sc', rest) \<Longrightarrow> length rest \<le> length s"
  by (induction s arbitrary: b x sc) (auto split: option.splits if_splits simp: le_SucI)

text \<open>The units; the two spellings of the micro sign are given by their bytes.\<close>

definition unitMap :: "(string \<times> int) list" where
  "unitMap = [(''ns'', 1), (''us'', 1000), ([CHR 0xC2, CHR 0xB5, CHR ''s''], 1000), ([CHR 0xCE, CHR 0xBC, CHR ''s''], 1000),
     (''ms'', 1000000), (''s'', second), (''m'', minute), (''h'', hour)]"

text \<open>The fraction after a point: its digits, their scale, the rest, and whether there was a digit.\<close>

definition fraction_part :: "string \<Rightarrow> int \<times> float64 \<times> string \<times> bool" where
  "fraction_part s =
     (if s \<noteq> [] \<and> hd s = CHR ''.''
      then (let (f, scale, rest) = leadingFraction False 0 (Fin 1) (tl s) in (f, scale, rest, length rest \<noteq> length (tl s)))
      else (0, Fin 1, s, False))"

text \<open>
  One round of the loop: a number with an optional fraction, and its unit. The conversion of the
  fraction is of a value below the unit, so it never leaves \<open>uint64\<close>.
\<close>

definition duration_part :: "string \<Rightarrow> (int \<times> string) option" where
  "duration_part s =
     (if s = [] \<or> \<not> (hd s = CHR ''.'' \<or> is_digit (hd s)) then None
      else case leadingInt 0 s of
        None \<Rightarrow> None
      | Some (v, s1) \<Rightarrow>
          let pre = length s1 \<noteq> length s;
              (f, scale, s2, post) = fraction_part s1;
              u = takeWhile (\<lambda>c. \<not> (c = CHR ''.'' \<or> is_digit c)) s2 in
          if \<not> pre \<and> \<not> post then None
          else if u = [] then None
          else case map_of unitMap u of
            None \<Rightarrow> None
          | Some unit \<Rightarrow>
              if v > 2 ^ 63 div unit then None
              else
                let v1 = v * unit;
                    v2 = (if f > 0
                      then v1 + int_of_float (\<lambda>x. 0) (fmul (float_of_int f) (fdiv (float_of_int unit) scale)) else v1) in
                if v2 > 2 ^ 63 then None else Some (v2, drop (length u) s2))"

lemma fraction_part_length: "fraction_part s = (f, scale, rest, post) \<Longrightarrow> length rest \<le> length s"
  using leadingFraction_length [of False 0 "Fin 1" "tl s"]
  by (cases s) (auto simp: fraction_part_def le_SucI split: if_splits prod.splits)

lemma duration_part_shorter:
  assumes "duration_part s = Some (v, rest)"
  shows "length rest < length s"
proof -
  obtain w s1 where int: "leadingInt 0 s = Some (w, s1)"
    using assms by (cases "leadingInt 0 s") (auto simp: duration_part_def split: if_splits)
  obtain f scale s2 post where frac: "fraction_part s1 = (f, scale, s2, post)" by (metis prod_cases4)
  define u where "u = takeWhile (\<lambda>c. \<not> (c = CHR ''.'' \<or> is_digit c)) s2"
  from assms have u: "u \<noteq> [] \<and> rest = drop (length u) s2"
    unfolding duration_part_def int option.case prod.case frac Let_def u_def [symmetric]
    by (simp split: if_splits option.splits)
  have "length s2 \<le> length s" using fraction_part_length [OF frac] leadingInt_length [OF int] by simp
  moreover have "length u \<le> length s2" by (simp add: u_def length_takeWhile_le)
  ultimately show ?thesis using u by (cases u) auto
qed

text \<open>The sum is kept in a \<open>uint64\<close>; two parts of 2^63 wrap to zero, as in the library.\<close>

function duration_loop :: "int \<Rightarrow> string \<Rightarrow> int option" where
  "duration_loop d s =
     (if s = [] then Some d
      else case duration_part s of
        None \<Rightarrow> None
      | Some (v, rest) \<Rightarrow>
          let d' = (d + v) mod 2 ^ 64 in
          if d' > 2 ^ 63 then None else duration_loop d' rest)"
  by pat_completeness auto
termination
  by (relation "measure (\<lambda>(d, s). length s)") (auto dest: duration_part_shorter)

declare duration_loop.simps [simp del]

definition parseDuration :: "string \<Rightarrow> duration option" where
  "parseDuration s =
     (let neg = (s \<noteq> [] \<and> hd s = CHR ''-'');
          s1 = (if s \<noteq> [] \<and> (hd s = CHR ''-'' \<or> hd s = CHR ''+'') then tl s else s) in
      if s1 = ''0'' then Some 0
      else if s1 = [] then None
      else case duration_loop 0 s1 of
        None \<Rightarrow> None
      | Some d \<Rightarrow> if neg then Some (- d) else if d > 2 ^ 63 - 1 then None else Some d)"

subsection \<open>The parsing loop\<close>

type_synonym 's flag_set = "string \<Rightarrow> (bool \<times> (string \<Rightarrow> 's \<Rightarrow> 's option)) option"

datatype flag_error = BadSyntax string | NotDefined string | HelpWanted | NeedsArgument string | InvalidValue string string

text \<open>A flag's name and, after the first equals sign, its value.\<close>

fun cut_value :: "string \<Rightarrow> string \<times> string option" where
  "cut_value [] = ([], None)"
| "cut_value (c # cs) = (if c = CHR ''='' then ([], Some cs) else map_prod (Cons c) id (cut_value cs))"

definition set_flag :: "string \<Rightarrow> (string \<Rightarrow> 's \<Rightarrow> 's option) \<Rightarrow> string \<Rightarrow> 's \<Rightarrow> flag_error + 's" where
  "set_flag name put v s = (case put v s of None \<Rightarrow> Inl (InvalidValue name v) | Some s' \<Rightarrow> Inr s')"

text \<open>
  \<open>FlagSet.Parse\<close>, one argument per round; the result is the state and the arguments left over. A flag
  that is not boolean takes the next argument when it has no value of its own.
\<close>

fun parseFlags :: "'s flag_set \<Rightarrow> string list \<Rightarrow> 's \<Rightarrow> flag_error + 's \<times> string list" where
  "parseFlags F [] s = Inr (s, [])"
| "parseFlags F (a # args) s =
     (if length a < 2 \<or> hd a \<noteq> CHR ''-'' then Inr (s, a # args)
      else if a = ''--'' then Inr (s, args)
      else
        let text = drop (if a ! 1 = CHR ''-'' then 2 else 1) a in
        if hd text = CHR ''-'' \<or> hd text = CHR ''='' then Inl (BadSyntax a)
        else
          let (name, value) = cut_value text in
          case F name of
            None \<Rightarrow> Inl (if name = ''help'' \<or> name = ''h'' then HelpWanted else NotDefined name)
          | Some (is_bool, put) \<Rightarrow>
              if is_bool then
                (case set_flag name put (case value of None \<Rightarrow> ''true'' | Some v \<Rightarrow> v) s of
                   Inl e \<Rightarrow> Inl e | Inr s' \<Rightarrow> parseFlags F args s')
              else (case value of
                Some v \<Rightarrow> (case set_flag name put v s of Inl e \<Rightarrow> Inl e | Inr s' \<Rightarrow> parseFlags F args s')
              | None \<Rightarrow> (case args of
                  [] \<Rightarrow> Inl (NeedsArgument name)
                | v # rest \<Rightarrow> (case set_flag name put v s of Inl e \<Rightarrow> Inl e | Inr s' \<Rightarrow> parseFlags F rest s'))))"

subsection \<open>Reading back what was printed\<close>

lemma digit_of_digit_val: "digit_val c = Some d \<Longrightarrow> digit_of c = Some d \<and> d < 10 \<and> c \<noteq> CHR ''_''"
proof -
  assume d: "digit_val c = Some d"
  then have "digit_of c = Some d" and "d < 10"
    by (auto simp: digit_val.simps digit_of_def Let_def split: if_splits)
  moreover have "digit_val CHR ''_'' = None" by (simp add: digit_val.simps)
  ultimately show ?thesis using d by auto
qed

lemma base_digits_digits_val:
  "digits_val acc s = Some n \<Longrightarrow> base_digits 10 acc s = Some n \<and> CHR ''_'' \<notin> set s"
proof (induction s arbitrary: acc)
  case (Cons c s)
  then obtain d where d: "digit_val c = Some d" and rest: "digits_val (10 * acc + d) s = Some n"
    by (auto split: option.splits)
  from Cons.IH [OF rest] digit_of_digit_val [OF d] show ?case by auto
qed simp

lemma show_nat_head_zero: "show_nat n = c # cs \<Longrightarrow> c = CHR ''0'' \<Longrightarrow> n = 0"
proof (induction n arbitrary: c cs rule: show_nat.induct)
  case (1 n)
  have zero: "k = 0" if "k < 10" "digit_chars ! k = CHR ''0''" for k
    using digit_val_chars [OF that(1)] that(2) by (simp add: digit_val.simps)
  show ?case
  proof (cases "n < 10")
    case True
    with 1 zero show ?thesis by (simp add: show_nat.simps [of n])
  next
    case False
    obtain e es where e: "show_nat (n div 10) = e # es" by (metis list.exhaust show_nat_not_Nil)
    then have "e = CHR ''0''" using 1 False by (simp add: show_nat.simps [of n])
    then have "n div 10 = 0" using "1.IH" [OF False e] by blast
    with False show ?thesis by simp
  qed
qed

lemma parseUint0_show_nat: "parseUint0 (show_nat n) = Some (int n)"
proof -
  obtain c cs where s: "show_nat n = c # cs" by (metis list.exhaust show_nat_not_Nil)
  show ?thesis
  proof (cases "c = CHR ''0''")
    case True
    then have "n = 0" by (rule show_nat_head_zero [OF s])
    then show ?thesis by (simp add: parseUint0_def show_nat.simps [of 0] digit_chars_def base_prefix_def)
  next
    case False
    then have "base_prefix (show_nat n) = (10, show_nat n)" by (simp add: base_prefix_def s)
    then show ?thesis using base_digits_digits_val [OF digits_val_show_nat [of n]] by (simp add: parseUint0_def)
  qed
qed

lemma parseInt0_show_int:
  assumes "in_int64 n"
  shows "parseInt0 (show_int n) = Some n"
proof (cases "n < 0")
  case True
  with assms show ?thesis by (simp add: parseInt0_def show_int_def parseUint0_show_nat in_int64_def)
next
  case False
  obtain c cs where s: "show_nat (nat n) = c # cs" by (metis list.exhaust show_nat_not_Nil)
  have "parseUint0 (c # cs) = Some n" using False parseUint0_show_nat [of "nat n"] by (simp add: s)
  with show_nat_head [OF s] False assms show ?thesis by (simp add: parseInt0_def show_int_def s in_int64_def)
qed

lemma cut_value_append: "CHR ''='' \<notin> set name \<Longrightarrow> cut_value (name @ CHR ''='' # v) = (name, Some v)"
  by (induction name) auto

text \<open>A flag written as \<open>--name=value\<close>.\<close>

lemma parseFlags_assign:
  assumes "name \<noteq> []" and "hd name \<noteq> CHR ''-''" and "CHR ''='' \<notin> set name" and "F name = Some (is_bool, put)"
  shows "parseFlags F ((''--'' @ name @ CHR ''='' # v) # args) s =
    (case put v s of None \<Rightarrow> Inl (InvalidValue name v) | Some s' \<Rightarrow> parseFlags F args s')"
proof -
  obtain c cs where name: "name = c # cs" using assms(1) by (cases name) auto
  then have "c \<noteq> CHR ''-''" "c \<noteq> CHR ''=''" using assms(2,3) by auto
  with assms show ?thesis
    using cut_value_append [OF assms(3), of v] by (simp add: name set_flag_def split: option.splits)
qed

end
