(* ===== verification/Startup.thy ===== *)
theory Startup
  imports Manager GoFlag
begin

text \<open>
  The start of the process: \<open>init\<close> and \<open>main\<close> of \<open>cmd/manager/main.go\<close>, the registration of the types of
  \<open>api/v1\<close>, \<open>NewSharedCacheSet\<close> of \<open>pkg/kube/cache.go\<close>, and \<open>SetupWithManager\<close> of
  \<open>controllers/setup.go\<close> and \<open>controllers/policy_controller.go\<close>. What the libraries answer is the record
  \<open>world\<close>; an answer that is only an error is an \<open>err option\<close>. A run is the list of what the process
  does to the outside and its exit code.

  The lemmas show which failure ends the process with which message, that nothing is started before all
  of it has succeeded, what holds of the system that is started, and that the arguments the chart
  renders arrive as the settings they stand for.
\<close>

subsection \<open>Types and clients\<close>

definition GroupVersion :: "string \<times> string" where
  "GroupVersion = (''rebalancer.dev'', ''v1'')"

text \<open>The \<open>init\<close> functions of \<open>api/v1\<close>, in the order of their files.\<close>

definition registerNodeClass :: "string list" where
  "registerNodeClass = [''NodeClass'', ''NodeClassList'']"

definition registerRebalancePolicy :: "string list" where
  "registerRebalancePolicy = [''RebalancePolicy'', ''RebalancePolicyList'']"

definition registerWorkloadSLO :: "string list" where
  "registerWorkloadSLO = [''WorkloadSLO'', ''WorkloadSLOList'']"

definition SchemeBuilder :: "(string \<times> string \<times> string) list" where
  "SchemeBuilder = map (\<lambda>kind. (fst GroupVersion, snd GroupVersion, kind))
     (registerNodeClass @ registerRebalancePolicy @ registerWorkloadSLO)"

record ('k, 'p, 's) cache_set =
  core :: 'k
  policyV1 :: 'p
  schedulingV1 :: 's

definition NewSharedCacheSet ::
    "err + 'k \<Rightarrow> ('k \<Rightarrow> 'p) \<Rightarrow> ('k \<Rightarrow> 's) \<Rightarrow> err + ('k, 'p, 's) cache_set" where
  "NewSharedCacheSet newForConfig policyOf schedulingOf =
     attempt (ErrWrap ''create kubernetes clientset'') newForConfig
       (\<lambda>coreClient. Inr \<lparr>core = coreClient, policyV1 = policyOf coreClient, schedulingV1 = schedulingOf coreClient\<rparr>)"

subsection \<open>The flags\<close>

record flags =
  metricsAddr :: string
  probeAddr :: string
  enableLeaderElection :: bool
  syncPeriod :: duration
  prometheusAddress :: string
  emptyDirThresholdGi :: int

definition defaultFlags :: flags where
  "defaultFlags = \<lparr>metricsAddr = '':8080'', probeAddr = '':8081'', enableLeaderElection = True,
     syncPeriod = 30 * second, prometheusAddress = [], emptyDirThresholdGi = DefaultEmptyDirThresholdGi\<rparr>"

definition ownFlags :: "flags flag_set" where
  "ownFlags name =
     (if name = ''metrics-bind-address'' then Some (False, \<lambda>v f. Some (f\<lparr>metricsAddr := v\<rparr>))
      else if name = ''health-probe-bind-address'' then Some (False, \<lambda>v f. Some (f\<lparr>probeAddr := v\<rparr>))
      else if name = ''leader-elect'' then
        Some (True, \<lambda>v f. map_option (\<lambda>b. f\<lparr>enableLeaderElection := b\<rparr>) (parseBool v))
      else if name = ''sync-period'' then Some (False, \<lambda>v f. map_option (\<lambda>d. f\<lparr>syncPeriod := d\<rparr>) (parseDuration v))
      else if name = ''prometheus-address'' then Some (False, \<lambda>v f. Some (f\<lparr>prometheusAddress := v\<rparr>))
      else if name = ''emptydir-threshold-gi'' then
        Some (False, \<lambda>v f. map_option (\<lambda>n. f\<lparr>emptyDirThresholdGi := n\<rparr>) (parseInt0 v))
      else None)"

text \<open>
  The flags of the process: those of \<open>main\<close>, and those the libraries register beside them (the flags of
  the logger, the flag for a kubeconfig file), which write variables of their own.
\<close>

definition commandLine :: "'x flag_set \<Rightarrow> (flags \<times> 'x) flag_set" where
  "commandLine others name =
     (case ownFlags name of
        Some (is_bool, put) \<Rightarrow> Some (is_bool, \<lambda>v (f, x). map_option (\<lambda>f'. (f', x)) (put v f))
      | None \<Rightarrow> (case others name of
          Some (is_bool, put) \<Rightarrow> Some (is_bool, \<lambda>v (f, x). map_option (\<lambda>x'. (f, x')) (put v x))
        | None \<Rightarrow> None))"

subsection \<open>The world and what the process does to it\<close>

record manager_options =
  mo_metricsAddr :: string
  mo_patterns :: "string list"
  mo_probeAddr :: string
  mo_leaderElection :: bool
  mo_leaderElectionID :: string
  mo_syncPeriod :: duration

record controller_setup =
  su_planner :: planner
  su_eventRecorder :: string
  su_metrics :: "metric_call list"
  su_for :: string
  su_maxConcurrent :: int

record ('k, 'p, 's) system =
  sys_setup :: controller_setup
  sys_provider :: provider
  sys_caches :: "('k, 'p, 's) cache_set"
  sys_dashboard :: handler

datatype ('k, 'p, 's) startup_event =
    LogError string err
  | LogInfo string
  | NewManager manager_options
  | Complete controller_setup
  | AddHealthzCheck string
  | AddReadyzCheck string
  | Start "('k, 'p, 's) system"

record ('k, 'p, 's, 'r, 'x) world =
  w_addToScheme :: "string \<Rightarrow> err option"
  w_args :: "string list"
  w_otherFlags :: "'x flag_set"
  w_otherDefaults :: 'x
  w_staticFS :: "err option"
  w_getConfig :: "err option"
  w_newManager :: "manager_options \<Rightarrow> err option"
  w_listPolicies :: "pos \<Rightarrow> err + policy list"
  w_newClientset :: "err + 'k"
  w_policyOf :: "'k \<Rightarrow> 'p"
  w_schedulingOf :: "'k \<Rightarrow> 's"
  w_listNodes :: "'k \<Rightarrow> pos \<Rightarrow> err + node list"
  w_newMetrics :: "err + metrics_client"
  w_newProm :: "string \<Rightarrow> 'r round_tripper \<Rightarrow> err + prom_api"
  w_transport :: "labels \<Rightarrow> 'r"
  w_readFile :: "string \<Rightarrow> err + string"
  w_env :: kube_env
  w_apiErrors :: api_errors
  w_complete :: "controller_setup \<Rightarrow> err option"
  w_addHealthz :: "err option"
  w_addReadyz :: "err option"
  w_start :: "err option"

type_synonym ('k, 'p, 's) process = "('k, 'p, 's) startup_event list \<times> int"

text \<open>\<open>if err != nil { setupLog.Error(err, msg); os.Exit(1) }\<close>\<close>

definition orExit :: "string \<Rightarrow> err + 'a \<Rightarrow> ('a \<Rightarrow> ('k, 'p, 's) process) \<Rightarrow> ('k, 'p, 's) process" where
  "orExit msg r k = (case r of Inl err \<Rightarrow> ([LogError msg err], 1) | Inr v \<Rightarrow> k v)"

definition does :: "('k, 'p, 's) startup_event \<Rightarrow> ('k, 'p, 's) process \<Rightarrow> ('k, 'p, 's) process" where
  "does ev run = (ev # fst run, snd run)"

definition outcome_of :: "err option \<Rightarrow> err + unit" where
  "outcome_of e = (case e of None \<Rightarrow> Inr () | Some err \<Rightarrow> Inl err)"

subsection \<open>The program\<close>

definition managerOptions :: "flags \<Rightarrow> manager_options" where
  "managerOptions f = \<lparr>mo_metricsAddr = metricsAddr f, mo_patterns = map fst extraHandlerPatterns,
     mo_probeAddr = probeAddr f, mo_leaderElection = enableLeaderElection f,
     mo_leaderElectionID = ''rebalancer-operator'', mo_syncPeriod = syncPeriod f\<rparr>"

text \<open>\<open>controllers.SetupWithManager\<close> and the method of the reconciler it ends with.\<close>

definition SetupWithManager :: "planner \<Rightarrow> controller_setup" where
  "SetupWithManager pl = \<lparr>su_planner = pl, su_eventRecorder = ''rebalancer-operator'', su_metrics = NewRecorder,
     su_for = ''RebalancePolicy'', su_maxConcurrent = 1\<rparr>"

definition run_manager ::
    "('k, 'p, 's, 'r, 'x) world \<Rightarrow> ('k, 'p, 's) system \<Rightarrow> ('k, 'p, 's) process" where
  "run_manager W sys =
     does (Complete (sys_setup sys)) (orExit ''unable to register controllers'' (outcome_of (w_complete W (sys_setup sys))) (\<lambda>_.
     does (AddHealthzCheck ''healthz'') (orExit ''unable to set up health check'' (outcome_of (w_addHealthz W)) (\<lambda>_.
     does (AddReadyzCheck ''readyz'') (orExit ''unable to set up ready check'' (outcome_of (w_addReadyz W)) (\<lambda>_.
     does (LogInfo ''starting manager'') (
     does (Start sys) (orExit ''problem running manager'' (outcome_of (w_start W)) (\<lambda>_. ([], 0))))))))))"

definition main :: "('k, 'p, 's, 'r, 'x) world \<Rightarrow> ('k, 'p, 's) process" where
  "main W =
     (case parseFlags (commandLine (w_otherFlags W)) (w_args W) (defaultFlags, w_otherDefaults W) of
        Inl e \<Rightarrow> ([], if e = HelpWanted then 0 else 2)
      | Inr ((f, x), rest) \<Rightarrow>
          orExit ''unable to create dashboard handler'' (NewHandler (w_staticFS W)) (\<lambda>dashboardHandler.
          if w_getConfig W \<noteq> None then ([], 1)
          else
            does (NewManager (managerOptions f))
           (orExit ''unable to start manager'' (outcome_of (w_newManager W (managerOptions f))) (\<lambda>_.
            orExit ''unable to construct shared cache helpers''
              (NewSharedCacheSet (w_newClientset W) (w_policyOf W) (w_schedulingOf W)) (\<lambda>kubeCaches.
            orExit ''unable to create metrics provider''
              (NewProvider (w_newMetrics W) (w_newProm W) (w_transport W) (w_readFile W)
                (providerOptions (prometheusAddress f))) (\<lambda>metricsProvider.
            run_manager W \<lparr>sys_setup = SetupWithManager (startPlanner (emptyDirThresholdGi f)),
              sys_provider = metricsProvider, sys_caches = kubeCaches,
              sys_dashboard = Attach (Some (w_listPolicies W))
                (Some (\<lambda>p. CollectNodeMetrics (w_env W) (w_apiErrors W) p metricsProvider))
                (Some (w_listNodes W (core kubeCaches))) dashboardHandler\<rparr>))))))"

text \<open>The \<open>init\<close> function of the package \<open>main\<close> runs first; \<open>Must\<close> panics, which ends the process with code 2.\<close>

definition process :: "('k, 'p, 's, 'r, 'x) world \<Rightarrow> ('k, 'p, 's) process" where
  "process W =
     (if (\<exists>pkg \<in> {''client-go'', ''corev1'', ''api/v1''}. w_addToScheme W pkg \<noteq> None) then ([], 2) else main W)"

subsection \<open>What ends the process, and with what\<close>

lemma run_simps [simp]:
  "orExit msg (Inl err) k = ([LogError msg err], 1)" "orExit msg (Inr v) k = k v"
  "outcome_of None = Inr ()" "outcome_of (Some err) = Inl err"
  "fst (does ev run) = ev # fst run" "snd (does ev run) = snd run"
  by (simp_all add: orExit_def outcome_of_def does_def)

definition error_of :: "err + 'a \<Rightarrow> err option" where
  "error_of r = (case r of Inl err \<Rightarrow> Some err | Inr v \<Rightarrow> None)"

lemma error_of_simps [simp]: "error_of (Inl err) = Some err" "error_of (Inr v) = None"
  by (simp_all add: error_of_def)

text \<open>What can fail, in the order of the program, each with the message it is logged with.\<close>

definition startup_checks :: "('k, 'p, 's, 'r, 'x) world \<Rightarrow> flags \<Rightarrow> (string \<times> err option) list" where
  "startup_checks W f =
     [(''unable to create dashboard handler'', w_staticFS W),
      (''unable to start manager'', w_newManager W (managerOptions f)),
      (''unable to construct shared cache helpers'',
        error_of (NewSharedCacheSet (w_newClientset W) (w_policyOf W) (w_schedulingOf W))),
      (''unable to create metrics provider'',
        error_of (NewProvider (w_newMetrics W) (w_newProm W) (w_transport W) (w_readFile W)
          (providerOptions (prometheusAddress f)))),
      (''unable to register controllers'', w_complete W (SetupWithManager (startPlanner (emptyDirThresholdGi f)))),
      (''unable to set up health check'', w_addHealthz W),
      (''unable to set up ready check'', w_addReadyz W),
      (''problem running manager'', w_start W)]"

fun first_error :: "(string \<times> err option) list \<Rightarrow> (string \<times> err) option" where
  "first_error [] = None"
| "first_error ((msg, e) # rest) = (case e of Some err \<Rightarrow> Some (msg, err) | None \<Rightarrow> first_error rest)"

fun logged_error :: "('k, 'p, 's) startup_event \<Rightarrow> (string \<times> err) option" where
  "logged_error (LogError msg err) = Some (msg, err)"
| "logged_error e = None"

fun started :: "('k, 'p, 's) startup_event \<Rightarrow> bool" where
  "started (Start sys) = True"
| "started e = False"

definition scheme_ok :: "('k, 'p, 's, 'r, 'x) world \<Rightarrow> bool" where
  "scheme_ok W \<longleftrightarrow> (\<forall>pkg \<in> {''client-go'', ''corev1'', ''api/v1''}. w_addToScheme W pkg = None)"

lemma process_main: "scheme_ok W \<Longrightarrow> process W = main W"
  by (auto simp: scheme_ok_def process_def)

text \<open>
  C35: how the process ends. With a valid command line and a cluster configuration, the process ends with
  code 0 when nothing fails; otherwise with code 1, and the last thing it does is to log the first
  failure with its message, the only error it logs. The manager is started exactly when everything
  before the start has succeeded.
\<close>

theorem process_first_failure:
  assumes "scheme_ok W" and "w_getConfig W = None"
    and "parseFlags (commandLine (w_otherFlags W)) (w_args W) (defaultFlags, w_otherDefaults W) = Inr ((f, x), rest)"
  shows "(case first_error (startup_checks W f) of
      None \<Rightarrow> snd (process W) = 0 \<and> List.map_filter logged_error (fst (process W)) = []
    | Some (msg, err) \<Rightarrow> snd (process W) = 1 \<and> last (fst (process W)) = LogError msg err
        \<and> List.map_filter logged_error (fst (process W)) = [(msg, err)])
    \<and> (list_ex started (fst (process W)) \<longleftrightarrow> first_error (butlast (startup_checks W f)) = None)"
proof -
  note mf = List.map_filter_simps
  let ?prov = "NewProvider (w_newMetrics W) (w_newProm W) (w_transport W) (w_readFile W) (providerOptions (prometheusAddress f))"
  let ?caches = "NewSharedCacheSet (w_newClientset W) (w_policyOf W) (w_schedulingOf W)"
  let ?ctl = "SetupWithManager (startPlanner (emptyDirThresholdGi f))"
  have handler: "NewHandler fs = (case fs of Some err \<Rightarrow> Inl err
      | None \<Rightarrow> Inr \<lparr>h_client = None, h_metrics = None, h_caches = None\<rparr>)" for fs by (simp add: NewHandler_def)
  show ?thesis
    unfolding process_main [OF assms(1)] main_def assms(3) sum.case prod.case startup_checks_def handler
    using assms(2)
    by (cases "w_staticFS W"; cases "w_newManager W (managerOptions f)"; cases ?caches; cases ?prov;
        cases "w_complete W ?ctl"; cases "w_addHealthz W"; cases "w_addReadyz W"; cases "w_start W")
       (simp_all add: run_manager_def mf)
qed

subsection \<open>The arguments of the chart\<close>

text \<open>
  The arguments the deployment of the Helm chart renders from its values. Helm prints whole numbers below
  a million in decimal, and the text of an argument is read back from YAML as it stands as long as the
  address contains no white space.
\<close>

definition renderFlag :: "string \<Rightarrow> string \<Rightarrow> string" where
  "renderFlag name v = ''--'' @ name @ CHR ''='' # v"

definition chartArgs :: "int \<Rightarrow> bool \<Rightarrow> string \<Rightarrow> int \<Rightarrow> string list" where
  "chartArgs port leaderElection prometheusAddr thresholdGi =
     [renderFlag ''metrics-bind-address'' ('':'' @ show_int port),
      renderFlag ''health-probe-bind-address'' '':8081'',
      renderFlag ''leader-elect'' (if leaderElection then ''true'' else ''false''),
      renderFlag ''prometheus-address'' prometheusAddr,
      renderFlag ''emptydir-threshold-gi'' (show_int thresholdGi)]"

lemma commandLine_own:
  "ownFlags name = Some (b, put) \<Longrightarrow>
     commandLine others name = Some (b, \<lambda>v (f, x). map_option (\<lambda>f'. (f', x)) (put v f))"
  by (simp add: commandLine_def)

lemma ownFlags_simps [simp]:
  "ownFlags ''metrics-bind-address'' = Some (False, \<lambda>v f. Some (f\<lparr>metricsAddr := v\<rparr>))"
  "ownFlags ''health-probe-bind-address'' = Some (False, \<lambda>v f. Some (f\<lparr>probeAddr := v\<rparr>))"
  "ownFlags ''leader-elect'' = Some (True, \<lambda>v f. map_option (\<lambda>b. f\<lparr>enableLeaderElection := b\<rparr>) (parseBool v))"
  "ownFlags ''sync-period'' = Some (False, \<lambda>v f. map_option (\<lambda>d. f\<lparr>syncPeriod := d\<rparr>) (parseDuration v))"
  "ownFlags ''prometheus-address'' = Some (False, \<lambda>v f. Some (f\<lparr>prometheusAddress := v\<rparr>))"
  "ownFlags ''emptydir-threshold-gi'' = Some (False, \<lambda>v f. map_option (\<lambda>n. f\<lparr>emptyDirThresholdGi := n\<rparr>) (parseInt0 v))"
  by (simp_all add: ownFlags_def)

lemma parseFlags_own:
  assumes "ownFlags name \<noteq> None" and "name \<noteq> []" and "hd name \<noteq> CHR ''-''" and "CHR ''='' \<notin> set name"
  shows "parseFlags (commandLine others) (renderFlag name v # args) (f, x) =
    (case ownFlags name of Some (is_bool, put) \<Rightarrow>
       (case put v f of None \<Rightarrow> Inl (InvalidValue name v) | Some f' \<Rightarrow> parseFlags (commandLine others) args (f', x)))"
proof -
  obtain b put where own: "ownFlags name = Some (b, put)" using assms(1) by auto
  show ?thesis
    unfolding renderFlag_def
    using parseFlags_assign [where F = "commandLine others" and name = name and v = v and args = args and s = "(f, x)",
        OF assms(2-4) commandLine_own [OF own]]
    by (simp add: own split: option.split)
qed

lemma parseBool_simps [simp]: "parseBool ''true'' = Some True" "parseBool ''false'' = Some False"
  by (simp_all add: parseBool_def)

text \<open>
  C36: the chart and the binary agree. Whatever flags the libraries register beside them, the arguments
  the chart renders are accepted and read back as the values they were rendered from, the port with a
  colon before it; nothing is left over, and the flag the chart does not set keeps its default.
\<close>

theorem chart_args_roundtrip:
  assumes "\<bar>thresholdGi\<bar> < 1000000"
  shows "parseFlags (commandLine others) (chartArgs port leader address thresholdGi) (defaultFlags, x)
    = Inr ((\<lparr>metricsAddr = '':'' @ show_int port, probeAddr = '':8081'', enableLeaderElection = leader,
         syncPeriod = 30 * second, prometheusAddress = address, emptyDirThresholdGi = thresholdGi\<rparr>, x), [])"
proof -
  have "in_int64 thresholdGi" using assms by (auto simp: in_int64_def)
  then have "parseInt0 (show_int thresholdGi) = Some thresholdGi" by (rule parseInt0_show_int)
  then show ?thesis by (simp add: chartArgs_def parseFlags_own defaultFlags_def del: parseFlags.simps(2))
qed

theorem chart_args_roundtrip_witness:
  "parseFlags (commandLine (\<lambda>n. None)) (chartArgs 8080 True [] 2) (defaultFlags, ()) = Inr ((defaultFlags, ()), [])"
proof -
  have "show_int 8080 = ''8080''" by (simp add: show_int_def show_nat.simps digit_chars_def)
  with chart_args_roundtrip [of 2 "\<lambda>n. None" 8080 True "[]" "()"] show ?thesis
    by (simp add: defaultFlags_def DefaultEmptyDirThresholdGi_def)
qed

subsection \<open>The system that is started\<close>

lemma Data_initialised:
  "Data E p (ready_handler client metrics caches) \<noteq> HttpError 503 m"
  by (auto simp: Data_def ready_handler_def writeDashboardError_def Let_def split: sum.splits option.splits)

lemma extraHandlers_initialised:
  "extraHandlers E p (ready_handler client metrics caches) index path \<noteq> HttpError 503 m"
proof -
  have "Static index path \<noteq> HttpError 503 m"
    by (auto simp: Static_def Let_def split: option.splits)
  then show ?thesis using Data_initialised [of E p client metrics caches m] by (auto simp: extraHandlers_def split: option.split prod.split route.split)
qed

lemma started_in_run_manager:
  "Start sys' \<in> set (fst (run_manager W sys)) \<Longrightarrow> sys' = sys \<and>
     (\<exists>post. fst (run_manager W sys) =
       [Complete (sys_setup sys), AddHealthzCheck ''healthz'', AddReadyzCheck ''readyz'', LogInfo ''starting manager'', Start sys] @ post)"
  by (cases "w_complete W (sys_setup sys)"; cases "w_addHealthz W"; cases "w_addReadyz W"; cases "w_start W")
     (auto simp: run_manager_def)

lemma started_in_orExit:
  assumes "Start sys \<in> set (fst (orExit msg r k))"
  obtains v where "r = Inr v" and "orExit msg r k = k v" and "Start sys \<in> set (fst (k v))"
  using assms by (cases r) auto

lemma started_in_main:
  assumes "Start sys \<in> set (fst (main W))"
  obtains f x rest caches prov where
    "parseFlags (commandLine (w_otherFlags W)) (w_args W) (defaultFlags, w_otherDefaults W) = Inr ((f, x), rest)"
    and "NewSharedCacheSet (w_newClientset W) (w_policyOf W) (w_schedulingOf W) = Inr caches"
    and "NewProvider (w_newMetrics W) (w_newProm W) (w_transport W) (w_readFile W) (providerOptions (prometheusAddress f)) = Inr prov"
    and "sys = \<lparr>sys_setup = SetupWithManager (startPlanner (emptyDirThresholdGi f)), sys_provider = prov, sys_caches = caches,
      sys_dashboard = ready_handler (w_listPolicies W) (\<lambda>p. CollectNodeMetrics (w_env W) (w_apiErrors W) p prov)
        (w_listNodes W (core caches))\<rparr>"
    and "fst (main W) = NewManager (managerOptions f) # fst (run_manager W sys)"
proof -
  from assms obtain f x rest where
    flags: "parseFlags (commandLine (w_otherFlags W)) (w_args W) (defaultFlags, w_otherDefaults W) = Inr ((f, x), rest)"
    by (auto simp: main_def split: sum.splits)
  note run = assms [unfolded main_def flags sum.case prod.case]
  from run obtain h where h: "NewHandler (w_staticFS W) = Inr h" by (rule started_in_orExit)
  have config: "w_getConfig W = None" using run by (simp add: h split: if_splits)
  let ?provider = "\<lambda>kubeCaches. orExit ''unable to create metrics provider''
      (NewProvider (w_newMetrics W) (w_newProm W) (w_transport W) (w_readFile W) (providerOptions (prometheusAddress f)))
      (\<lambda>metricsProvider. run_manager W \<lparr>sys_setup = SetupWithManager (startPlanner (emptyDirThresholdGi f)),
         sys_provider = metricsProvider, sys_caches = kubeCaches,
         sys_dashboard = Attach (Some (w_listPolicies W))
           (Some (\<lambda>p. CollectNodeMetrics (w_env W) (w_apiErrors W) p metricsProvider))
           (Some (w_listNodes W (core kubeCaches))) h\<rparr>)"
  let ?clients = "orExit ''unable to construct shared cache helpers''
      (NewSharedCacheSet (w_newClientset W) (w_policyOf W) (w_schedulingOf W)) ?provider"
  from run have "Start sys \<in> set (fst (orExit ''unable to start manager'' (outcome_of (w_newManager W (managerOptions f))) (\<lambda>_. ?clients)))"
    by (simp add: h config)
  then obtain u where mgr: "outcome_of (w_newManager W (managerOptions f)) = Inr u"
    and step2: "Start sys \<in> set (fst ?clients)" by (rule started_in_orExit)
  from step2 obtain caches where caches: "NewSharedCacheSet (w_newClientset W) (w_policyOf W) (w_schedulingOf W) = Inr caches"
    by (rule started_in_orExit)
  from step2 [unfolded caches, simplified] obtain prov where
    prov: "NewProvider (w_newMetrics W) (w_newProm W) (w_transport W) (w_readFile W) (providerOptions (prometheusAddress f)) = Inr prov"
    by (rule started_in_orExit)
  let ?sys = "\<lparr>sys_setup = SetupWithManager (startPlanner (emptyDirThresholdGi f)), sys_provider = prov, sys_caches = caches,
      sys_dashboard = ready_handler (w_listPolicies W) (\<lambda>p. CollectNodeMetrics (w_env W) (w_apiErrors W) p prov)
        (w_listNodes W (core caches))\<rparr>"
  have attach: "Attach (Some a) (Some b) (Some c) h = ready_handler a b c" for a b c
    by (simp add: Attach_def ready_handler_def)
  have main: "fst (main W) = NewManager (managerOptions f) # fst (run_manager W ?sys)"
    by (simp add: main_def flags h config mgr caches prov attach)
  have "sys = ?sys" using assms started_in_run_manager [of sys W ?sys] by (simp add: main)
  with main show ?thesis by (intro that [OF flags caches prov]) simp_all
qed

lemma started_provider:
  assumes "Start sys \<in> set (fst (process W))"
  shows "metricsClient (sys_provider sys) \<noteq> None" and "customNodeQueries (sys_provider sys) = []"
proof -
  have "Start sys \<in> set (fst (main W))" using assms by (auto simp: process_def split: if_splits)
  then show "metricsClient (sys_provider sys) \<noteq> None" and "customNodeQueries (sys_provider sys) = []"
    by (rule started_in_main, simp add: manager_provider)+
qed

lemma started_dashboard:
  assumes "Start sys \<in> set (fst (process W))"
  shows "h_client (sys_dashboard sys) = Some (w_listPolicies W)"
    and "h_metrics (sys_dashboard sys) = Some (\<lambda>p. CollectNodeMetrics (w_env W) (w_apiErrors W) p (sys_provider sys))"
    and "h_caches (sys_dashboard sys) = Some (w_listNodes W (core (sys_caches sys)))"
proof -
  have "Start sys \<in> set (fst (main W))" using assms by (auto simp: process_def split: if_splits)
  then show "h_client (sys_dashboard sys) = Some (w_listPolicies W)"
    and "h_metrics (sys_dashboard sys) = Some (\<lambda>p. CollectNodeMetrics (w_env W) (w_apiErrors W) p (sys_provider sys))"
    and "h_caches (sys_dashboard sys) = Some (w_listNodes W (core (sys_caches sys)))"
    by (rule started_in_main, simp add: ready_handler_def)+
qed

text \<open>
  C12: what is started. When the manager is started, it is with one reconciliation at a time, on a new
  planner whose limit for local volumes is positive, with no eviction on record; the controller, both
  probes and the routes of the dashboard have been registered before; and the dashboard has its
  dependencies, among them the same metrics provider, so no request is ever answered that it is not
  initialised.
\<close>

theorem started_system:
  assumes "Start sys \<in> set (fst (process W))"
  shows "su_maxConcurrent (sys_setup sys) = 1
    \<and> 0 < emptyDirLimitGi (su_planner (sys_setup sys)) \<and> operator_run B (su_planner (sys_setup sys)) []
    \<and> (\<exists>f post. fst (process W) =
        [NewManager (managerOptions f), Complete (sys_setup sys), AddHealthzCheck ''healthz'', AddReadyzCheck ''readyz'',
         LogInfo ''starting manager'', Start sys] @ post)
    \<and> Ready (sys_dashboard sys) = None
    \<and> h_metrics (sys_dashboard sys) = Some (\<lambda>p. CollectNodeMetrics (w_env W) (w_apiErrors W) p (sys_provider sys))
    \<and> extraHandlers E p (sys_dashboard sys) index path \<noteq> HttpError 503 m"
proof -
  have process: "process W = main W" using assms by (auto simp: process_def split: if_splits)
  from assms [unfolded process] show ?thesis
  proof (rule started_in_main)
    fix f x rest caches prov
    assume sys: "sys = \<lparr>sys_setup = SetupWithManager (startPlanner (emptyDirThresholdGi f)), sys_provider = prov, sys_caches = caches,
        sys_dashboard = ready_handler (w_listPolicies W) (\<lambda>p. CollectNodeMetrics (w_env W) (w_apiErrors W) p prov)
          (w_listNodes W (core caches))\<rparr>"
      and main: "fst (main W) = NewManager (managerOptions f) # fst (run_manager W sys)"
    have "Start sys \<in> set (fst (run_manager W sys))" using assms by (simp add: process main)
    then obtain post where post: "fst (run_manager W sys) = [Complete (sys_setup sys), AddHealthzCheck ''healthz'',
        AddReadyzCheck ''readyz'', LogInfo ''starting manager'', Start sys] @ post"
      using started_in_run_manager by blast
    have "Ready (sys_dashboard sys) = None" by (simp add: sys Ready_def ready_handler_def)
    moreover have "extraHandlers E p (sys_dashboard sys) index path \<noteq> HttpError 503 m"
      by (simp add: sys extraHandlers_initialised)
    ultimately show ?thesis
      using startPlanner_limit(1) startPlanner_run post main
      by (auto simp: process sys SetupWithManager_def ready_handler_def)
  qed
qed

definition healthy_world :: "(unit, unit, unit, unit, unit) world" where
  "healthy_world = \<lparr>w_addToScheme = (\<lambda>pkg. None), w_args = [''-leader-elect=false''], w_otherFlags = (\<lambda>n. None),
     w_otherDefaults = (), w_staticFS = None, w_getConfig = None, w_newManager = (\<lambda>opts. None), w_listPolicies = (\<lambda>p. Inr []),
     w_newClientset = Inr (), w_policyOf = (\<lambda>k. ()), w_schedulingOf = (\<lambda>k. ()), w_listNodes = (\<lambda>k p. Inr []),
     w_newMetrics = Inr \<lparr>list_nodeMetrics = (\<lambda>p. Inr []), list_podMetrics = (\<lambda>p. Inr [])\<rparr>,
     w_newProm = (\<lambda>a t. Inl (ErrNew [])), w_transport = (\<lambda>h. ()), w_readFile = (\<lambda>f. Inr []), w_env = plain_env 0,
     w_apiErrors = \<lparr>err_notFound = (\<lambda>e. False), err_serviceUnavailable = (\<lambda>e. False)\<rparr>,
     w_complete = (\<lambda>s. None), w_addHealthz = None, w_addReadyz = None, w_start = None\<rparr>"

lemma healthy_flags:
  "parseFlags (commandLine (\<lambda>n. None)) [''-leader-elect=false''] (defaultFlags, ())
     = Inr ((defaultFlags\<lparr>enableLeaderElection := False\<rparr>, ()), [])"
  by (simp add: set_flag_def commandLine_own [OF ownFlags_simps(3)])

theorem process_first_failure_witness:
  "snd (process healthy_world) = 0
   \<and> last (fst (process (healthy_world\<lparr>w_newClientset := Inl (ErrNew ''refused'')\<rparr>)))
       = LogError ''unable to construct shared cache helpers'' (ErrWrap ''create kubernetes clientset'' (ErrNew ''refused''))"
proof -
  let ?bad = "healthy_world\<lparr>w_newClientset := Inl (ErrNew ''refused'')\<rparr>" and ?f = "defaultFlags\<lparr>enableLeaderElection := False\<rparr>"
  have flags: "parseFlags (commandLine (w_otherFlags healthy_world)) (w_args healthy_world)
      (defaultFlags, w_otherDefaults healthy_world) = Inr ((?f, ()), [])"
    using healthy_flags by (simp add: healthy_world_def)
  have ok: "scheme_ok healthy_world" "w_getConfig healthy_world = None" by (simp_all add: scheme_ok_def healthy_world_def)
  have bad: "scheme_ok ?bad" "w_getConfig ?bad = None"
      "parseFlags (commandLine (w_otherFlags ?bad)) (w_args ?bad) (defaultFlags, w_otherDefaults ?bad) = Inr ((?f, ()), [])"
    using ok flags by (simp_all add: scheme_ok_def)
  have prov: "NewProvider (Inr c) np tr rf (providerOptions []) \<noteq> Inl e" for c :: metrics_client and np :: "string \<Rightarrow> unit round_tripper \<Rightarrow> err + prom_api" and tr rf e
    by (simp add: NewProvider_def providerOptions_def)
  have "first_error (startup_checks healthy_world ?f) = None"
    using prov by (auto simp: startup_checks_def healthy_world_def NewSharedCacheSet_def defaultFlags_def error_of_def split: sum.split)
  moreover have "first_error (startup_checks ?bad ?f)
      = Some (''unable to construct shared cache helpers'', ErrWrap ''create kubernetes clientset'' (ErrNew ''refused''))"
    by (simp add: startup_checks_def healthy_world_def NewSharedCacheSet_def)
  ultimately show ?thesis
    using process_first_failure [OF ok flags] process_first_failure [OF bad] by simp
qed

theorem started_system_witness:
  "\<exists>sys. Start sys \<in> set (fst (process healthy_world)) \<and> Ready (sys_dashboard sys) = None"
proof -
  have "\<exists>sys. Start sys \<in> set (fst (process healthy_world))"
    using healthy_flags
    by (simp add: process_def main_def healthy_world_def NewHandler_def NewSharedCacheSet_def NewProvider_def
        providerOptions_def defaultFlags_def run_manager_def)
  then obtain sys where "Start sys \<in> set (fst (process healthy_world))" by blast
  with started_system [OF this] show ?thesis by blast
qed

end
