(* ===== verification/Access.thy ===== *)
theory Access
  imports Startup
begin

text \<open>
  What the API server lets the operator do when it is deployed by the Helm chart
  (\<open>charts/rebalancer/templates/role.yaml\<close>). A request is a verb on a resource, or on a subresource, of an
  API group; a cluster role grants it when one of its rules names all three, or stands for all with \<open>*\<close>.
  A request that is not granted is answered with the status \<open>403 Forbidden\<close>.

  The requests are those of the code, in its order: a typed client sends the verb it is called with, the
  client of the manager answers reads from a cache it fills by listing and watching.
\<close>

subsection \<open>Requests and roles\<close>

record api_request =
  rq_group :: string
  rq_resource :: string
  rq_subresource :: string
  rq_verb :: string

record policy_rule =
  apiGroups :: "string list"
  rule_resources :: "string list"
  rule_verbs :: "string list"

definition full_resource :: "api_request \<Rightarrow> string" where
  "full_resource rq = (if rq_subresource rq = [] then rq_resource rq else rq_resource rq @ CHR ''/'' # rq_subresource rq)"

definition rule_grants :: "api_request \<Rightarrow> policy_rule \<Rightarrow> bool" where
  "rule_grants rq rule \<longleftrightarrow>
     list_ex (\<lambda>v. v = ''*'' \<or> v = rq_verb rq) (rule_verbs rule)
   \<and> list_ex (\<lambda>g. g = ''*'' \<or> g = rq_group rq) (apiGroups rule)
   \<and> list_ex (\<lambda>r. r = ''*'' \<or> r = full_resource rq \<or> rq_subresource rq \<noteq> [] \<and> r = ''*/'' @ rq_subresource rq)
       (rule_resources rule)"

definition granted :: "policy_rule list \<Rightarrow> api_request \<Rightarrow> bool" where
  "granted rules rq \<longleftrightarrow> list_ex (rule_grants rq) rules"

definition clusterRole :: "policy_rule list" where
  "clusterRole =
     [\<lparr>apiGroups = [[]], rule_resources = [''pods'', ''pods/status'', ''nodes'', ''namespaces''],
        rule_verbs = [''get'', ''list'', ''watch'']\<rparr>,
      \<lparr>apiGroups = [''policy''], rule_resources = [''poddisruptionbudgets''], rule_verbs = [''get'', ''list'', ''watch'']\<rparr>,
      \<lparr>apiGroups = [''scheduling.k8s.io''], rule_resources = [''priorityclasses''], rule_verbs = [''get'', ''list'', ''watch'']\<rparr>,
      \<lparr>apiGroups = [''rebalancer.dev''], rule_resources = [''rebalancepolicies'', ''workloadsloes'', ''nodeclasses''],
        rule_verbs = [''get'', ''list'', ''watch'', ''update'', ''patch'']\<rparr>,
      \<lparr>apiGroups = [[]], rule_resources = [''pods/eviction''], rule_verbs = [''create'']\<rparr>]"

subsection \<open>The requests of the code\<close>

abbreviation request :: "string \<Rightarrow> string \<Rightarrow> string \<Rightarrow> api_request" where
  "request verb grp resource \<equiv> \<lparr>rq_group = grp, rq_resource = resource, rq_subresource = [], rq_verb = verb\<rparr>"

definition cached :: "string \<Rightarrow> api_request list" where
  "cached resource = [request ''list'' (fst GroupVersion) resource, request ''watch'' (fst GroupVersion) resource]"

definition nodeMetricsRequest :: api_request where
  "nodeMetricsRequest = request ''list'' ''metrics.k8s.io'' ''nodes''"

definition podMetricsRequest :: api_request where
  "podMetricsRequest = request ''list'' ''metrics.k8s.io'' ''pods''"

definition snapshotRequests :: "api_request list" where
  "snapshotRequests =
     [nodeMetricsRequest, podMetricsRequest, request ''list'' [] ''nodes'', request ''list'' [] ''pods'',
      request ''list'' ''policy'' ''poddisruptionbudgets'', request ''list'' ''scheduling.k8s.io'' ''priorityclasses'']
   @ cached ''workloadsloes'' @ cached ''nodeclasses''"

definition evictRequest :: api_request where
  "evictRequest = \<lparr>rq_group = [], rq_resource = ''pods'', rq_subresource = ''eviction'', rq_verb = ''create''\<rparr>"

definition eventRequest :: api_request where
  "eventRequest = request ''create'' [] ''events''"

definition statusRequest :: api_request where
  "statusRequest = \<lparr>rq_group = fst GroupVersion, rq_resource = ''rebalancepolicies'', rq_subresource = ''status'', rq_verb = ''patch''\<rparr>"

definition reconcileRequests :: "api_request list" where
  "reconcileRequests = cached ''rebalancepolicies'' @ snapshotRequests @ [evictRequest, eventRequest, statusRequest]"

subsection \<open>A server that enforces a role\<close>

definition forbidden :: "string \<Rightarrow> err" where
  "forbidden m = ErrStatus ''Forbidden'' 403 m"

text \<open>
  The metrics client of an operator to which the rules are all that is granted. What the message of a
  refusal says does not read like that of a missing resource, and its code is neither 404 nor 503.
\<close>

definition enforced :: "policy_rule list \<Rightarrow> api_errors \<Rightarrow> metrics_client \<Rightarrow> bool" where
  "enforced rules A client \<longleftrightarrow>
     (\<forall>m. \<not> err_notFound A (forbidden m) \<and> \<not> err_serviceUnavailable A (forbidden m))
   \<and> (\<not> granted rules nodeMetricsRequest \<longrightarrow> (\<forall>q. \<exists>m. list_nodeMetrics client q = Inl (forbidden m)
        \<and> \<not> sublist ''the server could not find the requested resource'' m))
   \<and> (\<not> granted rules podMetricsRequest \<longrightarrow> (\<forall>q. \<exists>m. list_podMetrics client q = Inl (forbidden m)
        \<and> \<not> sublist ''the server could not find the requested resource'' m))"

lemma enforced_collect:
  assumes "enforced rules A client" and "\<not> granted rules nodeMetricsRequest" and "metricsClient prov = Some client"
  shows "\<exists>m. CollectNodeMetrics E A q prov = Inl (ErrWrap ''list node metrics'' (forbidden m))"
proof -
  obtain m where m: "list_nodeMetrics client (0 # q) = Inl (forbidden m)"
    and plain: "\<not> sublist ''the server could not find the requested resource'' m"
    using assms(1,2) unfolding enforced_def by blast
  have "\<not> err_notFound A (forbidden m)" "\<not> err_serviceUnavailable A (forbidden m)"
    using assms(1) unfolding enforced_def by blast+
  then have "\<not> isMetricsAPIUnavailable A (Some (forbidden m))"
    using plain by (simp add: isMetricsAPIUnavailable_def forbidden_def)
  then have "CollectNodeMetrics E A q prov = Inl (ErrWrap ''list node metrics'' (forbidden m))"
    using m assms(3) by (simp add: CollectNodeMetrics_def)
  then show ?thesis by blast
qed

lemma Data_refused:
  assumes "h_client h = Some c" and "h_metrics h = Some m" and "h_caches h = Some k"
    and "k (0 # p) = Inr nodes" and "m (1 # p) = Inl err"
  shows "Data E p h = HttpError 500 (''collect node metrics: '' @ err_msg err)"
  using assms by (simp add: Data_def writeDashboardError_def)

lemma chart_role_denies:
  "filter (\<lambda>rq. \<not> granted clusterRole rq) reconcileRequests = [nodeMetricsRequest, podMetricsRequest, eventRequest, statusRequest]"
  by (simp add: reconcileRequests_def snapshotRequests_def cached_def nodeMetricsRequest_def podMetricsRequest_def eventRequest_def
      statusRequest_def evictRequest_def granted_def rule_grants_def clusterRole_def full_resource_def GroupVersion_def)

text \<open>
  C13: the role of the chart is too small for the operator. Of the requests of a reconciliation it grants
  all but four: listing the metrics of nodes and of pods, creating events, and patching the status of a
  policy. So with nothing granted beside the role, every reconciliation of a started system ends at the
  first of them: it returns the refusal, to be tried again after a minute, has no effect, leaves the
  planner as it is and evicts nothing; and the dashboard answers with the same refusal.
\<close>

theorem chart_role_starves:
  assumes "Start sys \<in> set (fst (process W))" and "metricsClient (sys_provider sys) = Some client"
    and "enforced clusterRole (w_apiErrors W) client"
    and "io_policy io = Inr pol"
    and "rd_nodeMetrics (io_reads io) = CollectNodeMetrics (w_env W) (w_apiErrors W) q (sys_provider sys)"
    and "w_listNodes W (core (sys_caches sys)) (0 # r) = Inr nodes"
  shows "filter (\<lambda>rq. \<not> granted clusterRole rq) reconcileRequests = [nodeMetricsRequest, podMetricsRequest, eventRequest, statusRequest]
    \<and> (\<exists>m. Reconcile E p io pl = (\<lparr>out_effects = [], out_requeueAfter = minute,
            out_error = Some (ErrWrap ''list node metrics'' (forbidden m))\<rparr>, pl))
    \<and> (\<exists>m. Data E r (sys_dashboard sys) = HttpError 500 (''collect node metrics: list node metrics: '' @ m))"
proof -
  have "nodeMetricsRequest \<in> set (filter (\<lambda>rq. \<not> granted clusterRole rq) reconcileRequests)"
    unfolding chart_role_denies by simp
  then have denied: "\<not> granted clusterRole nodeMetricsRequest" by simp
  note refused = enforced_collect [OF assms(3) denied assms(2)]
  obtain m where m: "rd_nodeMetrics (io_reads io) = Inl (ErrWrap ''list node metrics'' (forbidden m))"
    using refused [of "w_env W" q] assms(5) by auto
  have "Snapshot E (0 # p) (io_reads io) pl = Inl (ErrWrap ''list node metrics'' (forbidden m))"
    by (simp add: Snapshot_def m)
  then have "Reconcile E p io pl = (\<lparr>out_effects = [], out_requeueAfter = minute,
      out_error = Some (ErrWrap ''list node metrics'' (forbidden m))\<rparr>, pl)"
    by (simp add: Reconcile_def assms(4))
  moreover obtain m' where m': "CollectNodeMetrics (w_env W) (w_apiErrors W) (1 # r) (sys_provider sys)
      = Inl (ErrWrap ''list node metrics'' (forbidden m'))"
    using refused by blast
  have "Data E r (sys_dashboard sys) = HttpError 500 (''collect node metrics: list node metrics: '' @ m')"
    using Data_refused [OF started_dashboard [OF assms(1)] assms(6) m', of E] by (simp add: forbidden_def)
  ultimately show ?thesis using chart_role_denies by blast
qed

text \<open>A server that refuses both listings, and one reconciliation and one request under it.\<close>

definition refused_client :: metrics_client where
  "refused_client = \<lparr>list_nodeMetrics = (\<lambda>p. Inl (forbidden ''nodes.metrics.k8s.io is forbidden'')),
     list_podMetrics = (\<lambda>p. Inl (forbidden ''pods.metrics.k8s.io is forbidden''))\<rparr>"

definition refused_world :: "(unit, unit, unit, unit, unit) world" where
  "refused_world = healthy_world\<lparr>w_newMetrics := Inr refused_client\<rparr>"

definition refused_provider :: provider where
  "refused_provider = \<lparr>metricsClient = Some refused_client, prom = None, customNodeQueries = [], customPodQueries = [],
     httpTimeout = 15 * second\<rparr>"

definition refused_io :: cluster_io where
  "refused_io = example_io None\<lparr>io_reads := example_cluster_reads\<lparr>
     rd_nodeMetrics := CollectNodeMetrics (w_env refused_world) (w_apiErrors refused_world) [] refused_provider\<rparr>\<rparr>"

lemma refused_started: "\<exists>sys. Start sys \<in> set (fst (process refused_world)) \<and> sys_provider sys = refused_provider"
  using healthy_flags
  by (simp add: refused_world_def process_def main_def healthy_world_def NewHandler_def NewSharedCacheSet_def NewProvider_def
      providerOptions_def defaultFlags_def run_manager_def refused_provider_def)

theorem chart_role_starves_witness:
  "\<exists>m. Reconcile (plain_env 0) [] refused_io (New 0) = (\<lparr>out_effects = [], out_requeueAfter = minute,
     out_error = Some (ErrWrap ''list node metrics'' (forbidden m))\<rparr>, New 0)"
proof -
  obtain sys where sys: "Start sys \<in> set (fst (process refused_world))" and prov: "sys_provider sys = refused_provider"
    using refused_started by blast
  have client: "metricsClient (sys_provider sys) = Some refused_client" by (simp add: prov refused_provider_def)
  have "\<not> sublist ''the server could not find the requested resource'' ''nodes.metrics.k8s.io is forbidden''"
    and "\<not> sublist ''the server could not find the requested resource'' ''pods.metrics.k8s.io is forbidden''"
    by (auto dest!: list_emb_length sublist_imp_subseq)
  then have enforced: "enforced clusterRole (w_apiErrors refused_world) refused_client"
    unfolding enforced_def refused_client_def refused_world_def healthy_world_def by (simp, blast)
  have io: "io_policy refused_io = Inr example_policy" by (simp add: refused_io_def)
  have reads: "rd_nodeMetrics (io_reads refused_io)
      = CollectNodeMetrics (w_env refused_world) (w_apiErrors refused_world) [] (sys_provider sys)"
    by (simp add: refused_io_def prov)
  have nodes: "w_listNodes refused_world (core (sys_caches sys)) (0 # []) = Inr []"
    by (simp add: refused_world_def healthy_world_def)
  show ?thesis
    using chart_role_starves [OF sys client enforced io reads nodes, where E = "plain_env 0" and p = "[]" and pl = "New 0"]
    by blast
qed

end
