(* ===== verification/Unread.thy ===== *)
theory Unread
  imports Reconcile
begin

text \<open>
  What a reconciliation reads of the cluster and never looks at. The labels a workload objective protects,
  the weight of a node class and the workloads it is preferred for are decoded and copied, and the usage
  of pods is collected; no decision depends on them. \<open>forget\<close> erases them; the lemmas show function by
  function that erasing before gives the erased result of after, and the theorem that two clusters that
  differ in nothing else are reconciled alike.
\<close>

subsection \<open>Erasing what is not read\<close>

definition forget_slo :: "workload_slo \<Rightarrow> workload_slo" where
  "forget_slo s = s\<lparr>protectedLabels := []\<rparr>"

definition forget_class :: "node_class \<Rightarrow> node_class" where
  "forget_class c = c\<lparr>preferredFor := [], class_weight := 0\<rparr>"

definition forget_pod :: "pod_state \<Rightarrow> pod_state" where
  "forget_pod pod = pod\<lparr>ps_slo := map_option forget_slo (ps_slo pod), ps_customMetrics := None\<rparr>"

definition map_values :: "('a \<Rightarrow> 'b) \<Rightarrow> ('k \<times> 'a) list \<Rightarrow> ('k \<times> 'b) list" where
  "map_values f m = map (\<lambda>(k, v). (k, f v)) m"

definition forget :: "snapshot \<Rightarrow> snapshot" where
  "forget snap = snap\<lparr>snap_pods := map forget_pod (snap_pods snap), snap_slos := map_values forget_slo (snap_slos snap),
     snap_nodeClasses := map_values forget_class (snap_nodeClasses snap)\<rparr>"

definition forget_reads :: "cluster_reads \<Rightarrow> cluster_reads" where
  "forget_reads rd = rd\<lparr>rd_podMetrics := map_sum id (\<lambda>_. []) (rd_podMetrics rd),
     rd_slos := map_sum id (map forget_slo) (rd_slos rd), rd_nodeClasses := map_sum id (map forget_class) (rd_nodeClasses rd)\<rparr>"

lemma forget_slo_sel [simp]:
  "slo_namespace (forget_slo s) = slo_namespace s" "maxDisruptionsPerHour (forget_slo s) = maxDisruptionsPerHour s"
  "minReadySeconds (forget_slo s) = minReadySeconds s" "allowStatefulSetEviction (forget_slo s) = allowStatefulSetEviction s"
  by (simp_all add: forget_slo_def)

lemma forget_class_sel [simp]:
  "class_name (forget_class c) = class_name c" "class_labels (forget_class c) = class_labels c"
  "class_expressions (forget_class c) = class_expressions c"
  by (simp_all add: forget_class_def)

lemma forget_pod_sel [simp]:
  "ps_object (forget_pod pod) = ps_object pod" "ps_priority (forget_pod pod) = ps_priority pod"
  "ps_requests (forget_pod pod) = ps_requests pod" "ps_controllerKind (forget_pod pod) = ps_controllerKind pod"
  "ps_nodeName (forget_pod pod) = ps_nodeName pod" "ps_lastEvicted (forget_pod pod) = ps_lastEvicted pod"
  "ps_slo (forget_pod pod) = map_option forget_slo (ps_slo pod)"
  by (simp_all add: forget_pod_def)

lemma forget_sel [simp]:
  "snap_nodes (forget snap) = snap_nodes snap" "snap_pdbs (forget snap) = snap_pdbs snap"
  "snap_priorityClasses (forget snap) = snap_priorityClasses snap" "snap_pods (forget snap) = map forget_pod (snap_pods snap)"
  "snap_slos (forget snap) = map_values forget_slo (snap_slos snap)"
  by (simp_all add: forget_def)

lemma forget_nodes: "forget (snap\<lparr>snap_nodes := nodes\<rparr>) = forget snap\<lparr>snap_nodes := nodes\<rparr>"
  by (simp add: forget_def)

subsection \<open>Maps and slices\<close>

lemma map_of_map_values [simp]: "map_of (map_values f m) k = map_option f (map_of m k)"
  by (induction m) (auto simp: map_values_def)

lemma map_values_simps [simp]: "map_values f [] = []" "map_values f ((k, v) # m) = (k, f v) # map_values f m"
  by (simp_all add: map_values_def)

lemma map_fst_map_values [simp]: "map fst (map_values f m) = map fst m"
  by (induction m) (auto simp: map_values_def)

lemma update_map_values: "AList.update k (f v) (map_values f m) = map_values f (AList.update k v m)"
  by (induction m) auto

lemma index_by_map:
  "(\<And>x. key (f x) = key x) \<Longrightarrow> index_by key id (map f xs) (map_values f m) = map_values f (index_by key id xs m)"
  by (induction xs arbitrary: m) (simp_all add: update_map_values)

lemma go_range_map_values: "go_range E p (map_values f m) = map_values f (go_range E p m)"
proof -
  have "List.map_filter (\<lambda>k. map_option (Pair k) (map_option f (map_of m k))) ks
      = map_values f (List.map_filter (\<lambda>k. map_option (Pair k) (map_of m k)) ks)" for ks
    by (induction ks) (auto simp: List.map_filter_simps split: option.split)
  then show ?thesis by (simp add: go_range_def)
qed

subsection \<open>The snapshot\<close>

lemma classesOf_forget: "classesOf E node (map_values forget_class cs) acc = classesOf E node cs acc"
  by (induction cs arbitrary: acc) (auto simp: nodeMatchesClass_def)

lemma assignClasses_forget: "assignClasses E p i (map_values forget_class classes) kvs nodes = assignClasses E p i classes kvs nodes"
  by (induction kvs arbitrary: i nodes) (auto simp: go_range_map_values classesOf_forget)

lemma buildPodState_forget:
  "buildPodState E p pod use (map_option forget_slo slo) t = forget_pod (buildPodState E p pod use' slo t)
     \<longleftrightarrow> custom use = None"
  by (simp add: buildPodState_def forget_pod_def split: prod.split)

lemma buildPods_forget:
  "buildPods E p i pl [] (map_values forget_slo slos) pods = map forget_pod (buildPods E p i pl pm slos pods)"
proof -
  have none: "custom (usage_at [] k) = None" for k :: nsname by (simp add: usage_at_def zero_usage_def)
  show ?thesis by (induction pods arbitrary: i) (simp_all add: buildPodState_forget none)
qed

lemma Snapshot_forget: "Snapshot E p (forget_reads rd) pl = map_sum id forget (Snapshot E p rd pl)"
proof -
  note index = index_by_map [where m = "[]", simplified]
  show ?thesis
    by (cases "rd_nodeMetrics rd"; cases "rd_podMetrics rd"; cases "rd_nodes rd"; cases "rd_pods rd"; cases "rd_pdbs rd";
        cases "rd_priorityClasses rd"; cases "rd_slos rd"; cases "rd_nodeClasses rd")
      (simp_all add: Snapshot_def forget_reads_def Let_def index assignClasses_forget buildPods_forget forget_def)
qed


subsection \<open>The candidates\<close>

lemma considerPod_forget:
  "considerPod E gi (forget snap) spec hot rules sels d t1 t2 (forget_pod pod) = considerPod E gi snap spec hot rules sels d t1 t2 pod"
proof -
  have same: "isHighPriority (forget_pod pod) cs = isHighPriority pod cs" "hasBackoff t (forget_pod pod) b = hasBackoff t pod b" for cs t b
    by (simp_all add: isHighPriority_def hasBackoff_def)
  show ?thesis
    by (cases "ps_slo pod")
       (simp_all only: considerPod_def Let_def forget_sel forget_pod_sel same option.map option.case forget_slo_sel)
qed

lemma filterCandidates_loop_forget:
  "(\<And>i pod. keep' i (forget_pod pod) = keep i pod) \<Longrightarrow>
   filterCandidates_loop keep' i (map forget_pod pods) = map_prod (map forget_pod) (map forget_pod) (filterCandidates_loop keep i pods)"
proof (induction pods arbitrary: i)
  case (Cons pod pods)
  have mark: "mark_pod (forget_pod pod) = forget_pod (mark_pod pod)" by (simp add: forget_pod_def)
  show ?case using Cons by (cases "filterCandidates_loop keep (Suc i) pods") (simp add: mark)
qed simp

lemma filterCandidates_forget:
  assumes "go_runtime E"
  shows "filterCandidates E p pl (forget snap) spec hot = map_prod forget (map forget_pod) (filterCandidates E p pl snap spec hot)"
proof -
  let ?keep = "\<lambda>s i. considerPod E (emptyDirLimitGi pl) s spec hot (compileNamespaceRules (namespaces spec))
        (buildSelectorSet E (workloadSelectors spec)) (case backoffDuration spec of None \<Rightarrow> defaultBackoff | Some d \<Rightarrow> d)
        (now_at E (0 # i # p)) (now_at E (1 # i # p))"
  have loop: "filterCandidates_loop (?keep (forget snap)) 0 (map forget_pod (snap_pods snap))
      = map_prod (map forget_pod) (map forget_pod) (filterCandidates_loop (?keep snap) 0 (snap_pods snap))"
    by (rule filterCandidates_loop_forget) (rule considerPod_forget)
  have pods: "forget snap\<lparr>snap_pods := map forget_pod ps\<rparr> = forget (snap\<lparr>snap_pods := ps\<rparr>)" for ps
    by (simp add: forget_def)
  have sort: "sort_slice E (\<lambda>a b. ps_priority a < ps_priority b) (map forget_pod pods)
      = map forget_pod (sort_slice E (\<lambda>a b. ps_priority a < ps_priority b) pods)" for pods
    by (rule go_runtime.sort_slice_map [OF assms]) simp
  show ?thesis
    unfolding filterCandidates_def Let_def forget_sel loop
    by (simp add: sort pods split: prod.split)
qed

subsection \<open>The greedy choice\<close>

definition forget_greedy :: "greedy \<Rightarrow> greedy" where
  "forget_greedy g = g\<lparr>g_snapshot := forget (g_snapshot g)\<rparr>"

lemma forget_greedy_sel [simp]:
  "g_snapshot (forget_greedy g) = forget (g_snapshot g)" "g_util (forget_greedy g) = g_util g"
  "g_variance (forget_greedy g) = g_variance g" "g_visited (forget_greedy g) = g_visited g" "g_plan (forget_greedy g) = g_plan g"
  by (simp_all add: forget_greedy_def)

lemma same_candidate_forget: "same_candidate (forget snap) (forget_pod pod) snap pod"
  by (simp add: same_candidate_def)

lemma evaluate_loop_forget:
  "evaluate_loop E p i (forget snap) (forget_pod pod) spec util cur ns acc = evaluate_loop E p i snap pod spec util cur ns acc"
proof (induction ns arbitrary: i acc)
  case (Cons n ns)
  then show ?case
    by (cases acc; cases "map_of (snap_nodes snap) n") (simp_all add: scoreNode_cong [OF same_candidate_forget])
qed simp

lemma applyMove_forget: "applyMove E (forget snap) (forget_pod pod) t = forget (applyMove E snap pod t)"
  by (auto simp: applyMove_def requestCPU_def requestMem_def Let_def forget_nodes split: option.split)

lemma considerMove_forget:
  "considerMove E p spec cold (forget_pod c) (forget_greedy g) = map_prod forget_greedy id (considerMove E p spec cold c g)"
  by (simp add: considerMove_def evaluateCandidate_def evaluate_loop_forget applyMove_forget split: prod.split option.split)

lemma greedy_loop_forget:
  "greedy_loop E p i spec cold (map forget_pod cs) (forget_greedy g) = forget_greedy (greedy_loop E p i spec cold cs g)"
  by (induction cs arbitrary: i g) (simp_all add: considerMove_forget split: prod.split)

lemma greedyPlan_forget:
  "greedyPlan E p (forget snap) (map forget_pod cs) spec cold util = map_prod id forget (greedyPlan E p snap cs spec cold util)"
proof -
  have "greedy_init E q (forget snap) util = forget_greedy (greedy_init E q snap util)" for q
    by (simp add: greedy_init_def forget_greedy_def)
  then show ?thesis by (simp add: greedyPlan_eq greedy_loop_forget)
qed

subsection \<open>The plan\<close>

lemma canDisruptNamespace_forget:
  "canDisruptNamespace now ns spec (map_option forget_slo slo) c pl = canDisruptNamespace now ns spec slo c pl"
  by (cases slo) (simp_all add: canDisruptNamespace_def)

lemma remainingNamespaceBudget_forget:
  "remainingNamespaceBudget now ns spec (map_option forget_slo slo) pl = remainingNamespaceBudget now ns spec slo pl"
  by (cases slo) (simp_all add: remainingNamespaceBudget_def Let_def split: prod.split)

lemma grantBudgets_forget: "grantBudgets E p i spec (map_values forget_slo slos) evs st = grantBudgets E p i spec slos evs st"
proof (induction evs arbitrary: i st)
  case (Cons ev evs)
  then show ?case by (cases st) (simp add: canDisruptNamespace_forget Let_def)
qed simp

lemma budget_loop_forget: "budget_loop E p i spec (map_values forget_slo slos) counts st = budget_loop E p i spec slos counts st"
proof (induction counts arbitrary: i st)
  case (Cons c counts)
  then show ?case by (cases c; cases st) (simp add: remainingNamespaceBudget_forget Let_def)
qed simp

lemma Plan_forget:
  assumes "go_runtime E"
  shows "Plan E p pl (forget snap) spec = map_prod id (map_prod forget id) (Plan E p pl snap spec)"
  by (simp add: Plan_def Let_def forget_nodes [symmetric] filterCandidates_forget [OF assms] greedyPlan_forget grantBudgets_forget
      budget_loop_forget split: prod.split)

subsection \<open>The reconciliation\<close>

text \<open>The evictions and the update of the status read other answers only.\<close>

lemma execute_loop_reads: "execute_loop E p i (io\<lparr>io_reads := rd\<rparr>) evs st = execute_loop E p i io evs st"
proof (induction evs arbitrary: i st)
  case Nil
  show ?case by (cases st) simp
next
  case (Cons ev evs)
  then show ?case by (cases st) (simp split: prod.split option.split)
qed

lemma updateStatus_reads: "updateStatus E p (io\<lparr>io_reads := rd\<rparr>) pol pln n d = updateStatus E p io pol pln n d"
  by (simp add: updateStatus_def)

lemma RecordSnapshot_forget: "RecordSnapshot E p (forget snap) = RecordSnapshot E p snap"
  by (simp add: RecordSnapshot_def)

lemma Reconcile_forget:
  assumes "go_runtime E"
  shows "Reconcile E p (io\<lparr>io_reads := forget_reads (io_reads io)\<rparr>) pl = Reconcile E p io pl"
  by (simp add: Reconcile_def Snapshot_forget Plan_forget [OF assms] RecordSnapshot_forget execute_loop_reads updateStatus_reads
      Let_def split: sum.split prod.split)

text \<open>
  C38: what the guardrails of the cluster cannot influence. Two clusters that are alike but for the labels
  their workload objectives protect, the weight of their node classes and the workloads these are
  preferred for, and the usage of their pods, are reconciled alike: the same evictions, events, metrics
  and status, and the same memory of the planner, for every policy and in every iteration order. What is
  compared of the pod metrics is only whether collecting them fails.
\<close>

theorem unread_guardrails:
  assumes "go_runtime E" and "forget_reads rd' = forget_reads (io_reads io)"
  shows "Reconcile E p (io\<lparr>io_reads := rd'\<rparr>) pl = Reconcile E p io pl"
proof -
  have "Reconcile E p (io\<lparr>io_reads := rd'\<rparr>) pl = Reconcile E p (io\<lparr>io_reads := forget_reads (io_reads io)\<rparr>) pl"
    using Reconcile_forget [OF assms(1), of p "io\<lparr>io_reads := rd'\<rparr>" pl] assms(2) by simp
  also have "\<dots> = Reconcile E p io pl" by (rule Reconcile_forget [OF assms(1)])
  finally show ?thesis .
qed

text \<open>An objective that protects the label of the pods in question, and one that protects nothing.\<close>

definition protecting_slo :: workload_slo where
  "protecting_slo = example_slo\<lparr>protectedLabels := [(''app'', ''web'')]\<rparr>"

theorem unread_guardrails_witness:
  "Reconcile (plain_env 0) [] (example_io None\<lparr>io_reads := example_cluster_reads\<lparr>rd_slos := Inr [protecting_slo]\<rparr>\<rparr>) (New 0)
   = Reconcile (plain_env 0) [] (example_io None\<lparr>io_reads := example_cluster_reads\<lparr>rd_slos := Inr [example_slo]\<rparr>\<rparr>) (New 0)"
proof -
  let ?io = "example_io None\<lparr>io_reads := example_cluster_reads\<lparr>rd_slos := Inr [example_slo]\<rparr>\<rparr>"
  have "forget_slo protecting_slo = forget_slo example_slo" by (simp add: forget_slo_def protecting_slo_def)
  then have "forget_reads (example_cluster_reads\<lparr>rd_slos := Inr [protecting_slo]\<rparr>) = forget_reads (io_reads ?io)"
    by (simp add: forget_reads_def)
  from unread_guardrails [OF go_runtime_plain_env this, of 0 "[]" "New 0"] show ?thesis by simp
qed

end
