(* ===== verification/PlannerMemory.thy ===== *)
theory PlannerMemory
  imports OperatorLog
begin

text \<open>
  How much the planner remembers. Its map from pods to their last eviction is never pruned, its lists of
  the evictions of a namespace are; the lemmas bound both by the record of all evictions, and draw the
  consequence of the map being keyed by the name of a pod.
\<close>

subsection \<open>Size\<close>

text \<open>What one event does to the keys of the map and to the lists.\<close>

lemma history_events:
  fixes es n
  defines "pl \<equiv> fold (apply_event RecordEviction storePruned) es (New n)"
  shows "distinct (map fst (history pl)) \<and> fst ` set (history pl) = snd ` set (recordings es)
    \<and> subseq (slice_at (nsHistory pl) ns) (map fst (filter (\<lambda>(t, k). fst k = ns) (recordings es)))"
  unfolding pl_def
proof (induction es rule: rev_induct)
  case Nil
  show ?case by (simp add: New_def)
next
  case (snoc e es)
  define q where "q = fold (apply_event RecordEviction storePruned) es (New n)"
  have step: "fold (apply_event RecordEviction storePruned) (es @ [e]) (New n) = apply_event RecordEviction storePruned e q"
    by (simp add: q_def)
  have keys: "distinct (map fst (history q))" "fst ` set (history q) = snd ` set (recordings es)"
    and part: "subseq (slice_at (nsHistory q) ns) (map fst (filter (\<lambda>(t, k). fst k = ns) (recordings es)))"
    using snoc.IH by (simp_all add: q_def)
  have pruned: "subseq (filter P (slice_at (nsHistory q) ns)) (map fst (filter (\<lambda>(t, k). fst k = ns) (recordings es)))" for P
    by (rule subseq_order.trans [OF subseq_filter_left part])
  show ?case
    unfolding step using keys part pruned
    by (cases e) (auto simp: RecordEviction_def storePruned_def distinct_update dom_update intro: list_emb_append_mono)
qed

text \<open>
  C39: the memory of the planner. After any number of reconciliations its map of last evictions has
  exactly one entry for every pod that was ever evicted, so it never shrinks, and the list it keeps for a
  namespace is a part of the times the pods of the namespace were evicted at, in order, no longer than
  that.
\<close>

theorem planner_memory:
  assumes "timed_run T pl recs"
  shows "length (history pl) = card (snd ` set recs)
    \<and> subseq (slice_at (nsHistory pl) ns) (map fst (filter (\<lambda>(t, k). fst k = ns) recs))"
proof -
  from timed_run_log [OF assms] obtain n es where
    es: "pl = fold (apply_event RecordEviction storePruned) es (New n)" "recordings es = recs" by blast
  have keys: "distinct (map fst (history pl))" "fst ` set (history pl) = snd ` set recs"
    using history_events [of es n] by (simp_all add: es)
  have "length (history pl) = card (set (map fst (history pl)))"
    using distinct_card [OF keys(1)] by simp
  then show ?thesis using history_events [of es n ns] keys(2) by (simp add: es)
qed

text \<open>
  The back-off knows a pod by its name. A pod that has no eviction on record under its own name is not
  held back, whatever was evicted before it: the pod a controller creates in place of an evicted one has
  a new name, unless the controller is a stateful set.
\<close>

lemma backoff_by_name:
  assumes "timed_run T pl recs" and "pod_key pod \<notin> snd ` set recs"
  shows "\<not> hasBackoff now (buildPodState E p pod use slo (lastEvicted pl (pod_key pod))) d"
proof -
  have "lastEvicted pl (pod_key pod) = None"
  proof -
    from timed_run_log [OF assms(1)] obtain n es where
      es: "pl = fold (apply_event RecordEviction storePruned) es (New n)" "recordings es = recs" by blast
    then show ?thesis
      using history_events [of es n] assms(2) by (auto simp: lastEvicted_def map_of_eq_None_iff)
  qed
  then show ?thesis by (simp add: hasBackoff_def buildPodState_def split: prod.split)
qed

subsection \<open>After one reconciliation of the example cluster\<close>

theorem planner_memory_witness:
  "\<exists>pl. timed_run 0 pl (recorded_by (plain_env 0) [] (example_io None) (New 0)) \<and> length (history pl) = 1"
proof -
  obtain out pl' where run: "Reconcile (plain_env 0) [] (example_io None) (New 0) = (out, pl')" by fastforce
  have "timed_run 0 pl' ([] @ recorded_by (plain_env 0) [] (example_io None) (New 0))"
    by (rule timed_run.reconcile [OF timed_run.start go_runtime_plain_env _ run]) simp
  then have op: "timed_run 0 pl' (recorded_by (plain_env 0) [] (example_io None) (New 0))" by simp
  with planner_memory [OF op] show ?thesis by (auto simp: example_recorded)
qed

end
