(* ===== verification/Counters.thy ===== *)
theory Counters
  imports Reconcile
begin

text \<open>
  The two counters of the recorder against what the controller did. A trace of a reconciliation is read
  as the list of label values a counter was incremented with; the lemmas follow the loops that increment
  and show that the rest of a reconciliation does not.
\<close>

fun increment_of :: "string \<Rightarrow> effect \<Rightarrow> string list option" where
  "increment_of name (Metric (CounterInc n vs)) = (if n = name then Some vs else None)"
| "increment_of name e = None"

definition increments :: "string \<Rightarrow> effect list \<Rightarrow> string list list" where
  "increments name fx = List.map_filter (increment_of name) fx"

lemma increments_simps [simp]:
  "increments name [] = []" "increments name (fx @ fy) = increments name fx @ increments name fy"
  "increments name (Metric (CounterInc n vs) # fx) = (if n = name then [vs] else []) @ increments name fx"
  "increments name (Metric (GaugeSet n vs x) # fx) = increments name fx"
  "increments name (KubeEvent a b c # fx) = increments name fx"
  "increments name (EvictCall k g # fx) = increments name fx"
  "increments name (PatchStatus old new # fx) = increments name fx"
  "increments name (dryRunEvent ev # fx) = increments name fx"
  "increments name (failedEvent ev err # fx) = increments name fx"
  "increments name (evictedEvent ev # fx) = increments name fx"
  by (simp_all add: increments_def List.map_filter_def comp_def dryRunEvent_def failedEvent_def evictedEvent_def)

text \<open>What a reconciliation publishes about the snapshot and the plan are gauges.\<close>

fun is_gauge :: "metric_call \<Rightarrow> bool" where
  "is_gauge (GaugeSet n vs x) = True"
| "is_gauge m = False"

lemma increments_gauges: "list_all is_gauge ms \<Longrightarrow> increments name (map Metric ms) = []"
proof (induction ms)
  case (Cons m ms)
  then show ?case by (cases m) simp_all
qed simp

lemma publish_gauges: "list_all is_gauge (publish E p snap pln)"
proof -
  have "list_all is_gauge (RecordSnapshot_loop kvs)" for kvs
    by (induction kvs rule: RecordSnapshot_loop.induct) (simp_all add: RecordNodeUtil_def)
  moreover have "list_all is_gauge (recordBudgets kvs)" for kvs
    by (induction kvs rule: recordBudgets.induct) (simp_all add: RecordBudget_def)
  ultimately show ?thesis by (simp add: publish_def RecordSnapshot_def ObservePlan_def)
qed

lemmas increments_publish [simp] = increments_gauges [OF publish_gauges]

lemma increments_updateStatus [simp]: "increments name (out_effects (updateStatus E p io pol pln n d)) = []"
  by (simp add: updateStatus_def)

subsection \<open>The loops\<close>

lemma increments_dryRun_loop [simp]:
  "increments ''rebalancer_evictions_total'' (dryRun_loop evs) = []"
  "increments ''rebalancer_dry_run_evictions_total'' (dryRun_loop evs) = replicate (length evs) []"
  by (induction evs) (simp_all add: RecordEvictionMetric_def)

lemma increments_execute_loop:
  assumes "\<forall>ev\<in>set evs. ev_namespace ev = pod_namespace (ev_pod ev)"
  shows "map hd (increments ''rebalancer_evictions_total'' (fst (execute_loop E p i io evs (pl, n))))
      = map (fst \<circ> snd) (accepted E p i io (handled io i evs))
    \<and> increments ''rebalancer_dry_run_evictions_total'' (fst (execute_loop E p i io evs (pl, n))) = []"
  using assms
proof (induction evs arbitrary: i pl n)
  case (Cons ev evs)
  note IH = Cons.IH [THEN conjunct1] Cons.IH [THEN conjunct2]
  from Cons.prems show ?case
    by (cases "io_evict io i")
      (simp_all add: IH Evict_def attempted_def throttles_def RecordEvictionMetric_def pod_key_def Let_def case_prod_beta)
qed simp

subsection \<open>One reconciliation\<close>

text \<open>
  C40: what the counters count. In one reconciliation the counter of evictions is incremented once for
  every eviction that goes on record, in order, under the namespace of the pod. The counter of dry runs
  is incremented by a dry run only, once for every planned eviction, allowed or not, and by no
  other reconciliation, whether it fails, is throttled or runs to its end. When the status is written, it
  reports as executed what the first one counted and, in a dry run, as planned what the second one did.
\<close>

theorem counters_agree:
  assumes "go_runtime E" and "Reconcile E p io pl = (out, pl')"
  shows "map hd (increments ''rebalancer_evictions_total'' (out_effects out)) = map (fst \<circ> snd) (recorded_by E p io pl)
    \<and> increments ''rebalancer_dry_run_evictions_total'' (out_effects out) = (case io_policy io of
         Inl err \<Rightarrow> []
       | Inr pol \<Rightarrow> (case Snapshot E (0 # p) (io_reads io) pl of
           Inl err \<Rightarrow> []
         | Inr snap \<Rightarrow> if dryRun (policy_spec pol)
             then replicate (length (plan_evictions (fst (Plan E (1 # p) pl snap (policy_spec pol))))) [] else []))
    \<and> list_all (\<lambda>new. let st = status_plan (policy_status new) in
          st_executed st = int (length (increments ''rebalancer_evictions_total'' (out_effects out)))
        \<and> int (length (increments ''rebalancer_dry_run_evictions_total'' (out_effects out)))
            = (if st_dryRun st then st_planned st else 0)) (patches (out_effects out))"
  using assms(2)
proof (cases rule: Reconcile_cases)
  case (dry pol snap pln snap')
  then show ?thesis by (simp add: recorded_by_def updateStatus_def)
next
  case (live pol snap pln snap' pl1 fx executed throttled)
  note wf = planned_wf [OF assms(1) live(2)]
  obtain nodes hot cold util where "classifyNodes E (0 # 1 # p) (snap_nodes snap)
      (defaultWeights (resourceWeights (policy_spec pol))) (policy_spec pol) = (nodes, hot, cold, util)" by (metis prod_cases4)
  from Plan_evictions_safe_facts [OF assms(1) wf this live(3)]
  have "\<forall>ev\<in>set (plan_evictions pln). ev_namespace ev = pod_namespace (ev_pod ev)"
    by (auto simp: list_all_iff safe_eviction_def)
  from increments_execute_loop [OF this, of E "5 # p" 0 io pl1 0, unfolded live(5)]
  have inc: "map hd (increments ''rebalancer_evictions_total'' fx)
      = map (fst \<circ> snd) (accepted E (5 # p) 0 io (handled io 0 (plan_evictions pln)))"
    and dry: "increments ''rebalancer_dry_run_evictions_total'' fx = []" by simp_all
  note spec = execute_loop_spec [OF live(5)]
  have "executed = int (length (increments ''rebalancer_evictions_total'' fx))"
    using arg_cong [OF inc, of length] spec by simp
  with live inc dry spec show ?thesis by (simp add: recorded_by_def updateStatus_def)
qed (simp_all add: recorded_by_def)

theorem counters_agree_witness:
  "map hd (increments ''rebalancer_evictions_total'' (out_effects (fst (Reconcile (plain_env 0) [] (example_io None) (New 0)))))
     = [''prod'']
   \<and> increments ''rebalancer_dry_run_evictions_total'' (out_effects (fst (Reconcile (plain_env 0) [] (example_io None) (New 0)))) = []"
proof -
  obtain out pl' where run: "Reconcile (plain_env 0) [] (example_io None) (New 0) = (out, pl')" by fastforce
  obtain pln snap' pl1 where plan: "Plan (plain_env 0) [1] (New 0) example_cluster (policy_spec example_policy) = (pln, snap', pl1)"
    and evs: "plan_evictions pln = [example_eviction\<lparr>ev_allowed := True\<rparr>]" by (rule example_run)
  from plan have "recorded_by (plain_env 0) [] (example_io None) (New 0) = [(0, (''prod'', ''web''))]"
    by (simp add: recorded_by_def example_snapshot evs throttles_def Evict_def attempted_def)
  then show ?thesis using counters_agree [OF go_runtime_plain_env run] by (simp add: run example_snapshot)
qed

end
