(* ===== verification/RepoTests.thy ===== *)
theory RepoTests
  imports MetricsProvider Dashboard
begin

text \<open>
  The unit tests of the repository on the model: what the tests of \<open>controllers/planner\<close>, \<open>pkg/metrics\<close> and
  \<open>pkg/dashboard\<close> assert of the code holds of the definitions, with the inputs of the tests. The current
  time of a test is arbitrary.
\<close>

subsection \<open>\<open>predicates_test.go\<close>\<close>

lemma TestToleratesTaints:
  fixes node pod
  defines "node \<equiv> blank_node\<lparr>node_taints := [\<lparr>taint_key = ''node-role.kubernetes.io/infra'', taint_value = [], taint_effect = ''NoSchedule''\<rparr>]\<rparr>"
    and "pod \<equiv> blank_pod\<lparr>pod_tolerations :=
      [\<lparr>tol_key = ''node-role.kubernetes.io/infra'', tol_operator = ''Equal'', tol_value = [], tol_effect = []\<rparr>]\<rparr>"
  shows "toleratesTaints pod node" and "\<not> toleratesTaints (pod\<lparr>pod_tolerations := []\<rparr>) node"
  by (simp_all add: node_def pod_def toleratesTaints_def)

lemma TestMatchesNodeSelector:
  fixes pod
  defines "pod \<equiv> blank_pod\<lparr>pod_nodeSelector := [(''kubernetes.io/arch'', ''arm64'')]\<rparr>"
  shows "matchesNodeSelector (plain_env t) p pod (blank_node\<lparr>node_labels := [(''kubernetes.io/arch'', ''arm64'')]\<rparr>)"
    and "\<not> matchesNodeSelector (plain_env t) p pod (blank_node\<lparr>node_labels := [(''kubernetes.io/arch'', ''amd64'')]\<rparr>)"
  by (simp_all add: pod_def matchesNodeSelector_def wf_map_def str_at_def)

subsection \<open>\<open>planner_test.go\<close>\<close>

lemma TestNamespaceRules:
  fixes rules
  defines "rules \<equiv> compileNamespaceRules \<lparr>ns_include = [''*''], ns_exclude = [''kube-system'']\<rparr>"
  shows "Allow rules ''default''" and "\<not> Allow rules ''kube-system''"
  by (simp_all add: rules_def compileNamespaceRules_def Allow_def)

lemma TestPDBAllows:
  fixes pdb pod
  defines "pdb \<equiv> \<lparr>pdb_namespace = ''default'',
      pdb_selector = Some \<lparr>sel_labels = [(''app'', ''web'')], sel_expressions = []\<rparr>, pdb_allowed = 0\<rparr>"
    and "pod \<equiv> blank_pod\<lparr>pod_namespace := ''default'', pod_labels := [(''app'', ''web'')]\<rparr>"
  shows "\<not> pdbAllows (plain_env t) [pdb] pod" and "pdbAllows (plain_env t) [pdb\<lparr>pdb_allowed := 1\<rparr>] pod"
  by (simp_all add: pdb_def pod_def pdbAllows_def)

lemma TestIsHighPriority:
  fixes classes pod
  defines "classes \<equiv> [(''system-critical'', \<lparr>pc_name = ''system-critical'', pc_value = systemCriticalPriority\<rparr>)]"
    and "pod \<equiv> blank_pod_state\<lparr>ps_priority := systemCriticalPriority,
      ps_object := blank_pod\<lparr>pod_priorityClass := ''system-critical''\<rparr>\<rparr>"
  shows "isHighPriority pod classes"
    and "\<not> isHighPriority (pod\<lparr>ps_priority := 0, ps_object := (ps_object pod)\<lparr>pod_priorityClass := []\<rparr>\<rparr>) classes"
  by (simp_all add: classes_def pod_def isHighPriority_def systemCriticalPriority_def)

lemma TestMeetsMinReady:
  fixes pod now
  defines "pod \<equiv> blank_pod\<lparr>pod_conditions :=
      [\<lparr>cond_type = ''Ready'', cond_status = ''True'', cond_transition = now - 2 * minute\<rparr>]\<rparr>"
  shows "meetsMinReady now pod 30" and "\<not> meetsMinReady now pod 600"
  by (simp_all add: pod_def meetsMinReady_def time_sub_def wrap64_def duration_defs)

lemma TestRemainingNamespaceBudget:
  fixes now pl spec slo
  defines "pl \<equiv> (New 0)\<lparr>nsHistory := [(''prod'', [now - 10 * minute])]\<rparr>"
    and "spec \<equiv> zero_policy_spec\<lparr>maxEvictionsPerNamespace := 3\<rparr>"
    and "slo \<equiv> \<lparr>slo_namespace = [], maxDisruptionsPerHour = 2, minReadySeconds = 0, allowStatefulSetEviction = False,
      protectedLabels = []\<rparr>"
  shows "fst (remainingNamespaceBudget now ''prod'' spec (Some slo) pl) = 1"
    and "fst (remainingNamespaceBudget now ''prod'' spec (Some slo)
      (pl\<lparr>nsHistory := AList.update ''prod'' [now - 30 * minute, now - 20 * minute] (nsHistory pl)\<rparr>)) = 0"
  by (simp_all add: pl_def spec_def slo_def remainingNamespaceBudget_def slice_at_def Let_def duration_defs)

subsection \<open>\<open>provider_test.go\<close>\<close>

text \<open>What the test asks of \<open>apierrors\<close>: the error \<open>NewNotFound\<close> makes is one, an error with a message only is not.\<close>

lemma TestIsMetricsAPIUnavailable:
  assumes "err_notFound A notFound" and "\<And>m. \<not> err_notFound A (ErrNew m)" and "\<And>m. \<not> err_serviceUnavailable A (ErrNew m)"
  shows "isMetricsAPIUnavailable A (Some notFound)"
    and "isMetricsAPIUnavailable A
      (Some (ErrNew ''the server could not find the requested resource (get nodes.metrics.k8s.io)''))"
    and "\<not> isMetricsAPIUnavailable A (Some (ErrNew ''boom''))"
proof -
  have "sublist ''the server could not find the requested resource''
      (''the server could not find the requested resource'' @ '' (get nodes.metrics.k8s.io)'')"
    by (rule sublist_append_rightI)
  moreover have "sublist ''metrics.k8s.io''
      (''the server could not find the requested resource (get nodes.'' @ ''metrics.k8s.io'' @ '')'')"
    by (rule sublist_appendI)
  moreover have "\<not> sublist ''the server could not find the requested resource'' ''boom''"
    by (auto dest!: list_emb_length sublist_imp_subseq)
  ultimately show "isMetricsAPIUnavailable A (Some notFound)"
    and "isMetricsAPIUnavailable A
      (Some (ErrNew ''the server could not find the requested resource (get nodes.metrics.k8s.io)''))"
    and "\<not> isMetricsAPIUnavailable A (Some (ErrNew ''boom''))"
    by (simp_all add: isMetricsAPIUnavailable_def assms)
qed

subsection \<open>\<open>handler_test.go\<close>\<close>

lemma TestStaticRoutesServeIndex:
  "path \<in> set [''/'', ''/dashboard'', ''/dashboard/''] \<Longrightarrow> Static (Some page) path = Html page"
  by (auto simp: Static_def)

end
