(* ===== verification/Spec2Isabelle.thy ===== *)
theory Spec2Isabelle
  imports Disruptions StatusPatch Defaults DeepCopy Access Unread PlannerMemory Counters RepoTests
begin

text \<open>
  Verification of the rebalancer operator, a Kubernetes controller in Go that evicts pods from overloaded
  nodes so that the scheduler moves them to idle ones.

  \<^bold>\<open>The program.\<close> On every reconciliation of a \<open>RebalancePolicy\<close> the controller
  (\<open>controllers/policy_controller.go\<close>) asks the planner (\<open>controllers/planner\<close>) for a snapshot of the
  cluster, built from what the metrics provider (\<open>pkg/metrics\<close>) and the API server report, and for a plan.
  Planning classifies the nodes by their weighted utilisation, filters the pods of hot nodes down to the
  movable ones, chooses moves greedily that lower the variance of the utilisation, and allows as many of
  them as the budgets of the policy and of the namespaces permit. The controller then evicts the allowed
  pods (\<open>controllers/executors\<close>), records the accepted evictions with the planner, whose histories the
  budgets and the back-off read in later rounds, publishes metrics (\<open>pkg/observability\<close>) and patches the
  status. A dashboard (\<open>pkg/dashboard\<close>) shows nodes and policies.

  \<^bold>\<open>Foundations.\<close>
  \<^item> \<open>Prelude\<close>: 64-bit integers, time, maps, slices filtered in place.
  \<^item> \<open>GoFloat\<close>: \<open>float64\<close> with rounding, comparison and conversion; monotonicity, sign, exactness, magnitude.
  \<^item> \<open>GoRuntime\<close>: what the runtime decides: the order of a \<open>range\<close> over a map, of \<open>sort.Slice\<close>, the clock.
    The locales \<open>go_sort\<close> and \<open>go_runtime\<close> state their contracts and are interpreted on the insertion sort
    of the package \<open>sort\<close> and on runtimes built from it; every theorem that says something about an
    iteration order has \<open>go_runtime E\<close> as its hypothesis and so holds for all orders.
  \<^item> \<open>GoStrconv\<close>: decimal text, with printing and parsing inverse.
  \<^item> \<open>GoFlag\<close>: the package \<open>flag\<close> with \<open>strconv.ParseInt\<close>, \<open>ParseBool\<close> and \<open>time.ParseDuration\<close>.
  \<^item> \<open>GoJson\<close>: JSON documents and the encoding of structs by the tags of their fields. The locale \<open>json_codec\<close>
    is the contract of encoding and decoding, interpreted on the types of the language; a struct whose
    fields keep it keeps it.
  \<^item> \<open>KubeTypes\<close>: the Kubernetes objects the program reads; the operations of those packages are the
    fields of the environment \<open>kube_env\<close>. Errors, and \<open>attempt\<close> for \<open>if err != nil\<close>.
  \<^item> \<open>ApiTypes\<close>: the custom resources (\<open>api/v1\<close>) and the types of the planner.
  \<^item> \<open>ApiJson\<close>: the tags of the custom resources; what survives the way through JSON and what cannot be encoded.
  \<^item> \<open>Defaults\<close>: the defaults and bounds the markers of the policy type give to the schema; what a policy a Go
    client wrote is once an API server has stored it. The server is a parameter with its documented behaviour.

  \<^bold>\<open>Components.\<close>
  \<^item> \<open>EvictionHistory\<close>: the state of the planner and its methods (\<open>planner.go\<close>). The pruned histories refine
    the full log of evictions: what they answer is a function of that log.
  \<^item> \<open>SnapshotBuild\<close>: \<open>Snapshot\<close> and its helpers; what a snapshot holds of each listed object.
  \<^item> \<open>Predicates\<close>: \<open>predicates.go\<close> against the Kubernetes rules, with the exact places where they differ.
  \<^item> \<open>Candidates\<close>: \<open>filterCandidates\<close> and each of its checks; the candidates as a sorted permutation of the pods that
    are \<open>evictable\<close>, a predicate that states each requirement without the code's checks.
  \<^item> \<open>Variance\<close>: classification, variance, simulated and applied moves in rounded arithmetic.
  \<^item> \<open>Greedy\<close>: \<open>evaluateCandidate\<close> and \<open>greedyPlan\<close>, the latter as a loop over a record of its variables with
    an invariant: usage is all that changes, the variance falls with each accepted move, no pod twice; the
    chosen target as the best \<open>admitted_move\<close>, a relation stated without the loop.
  \<^item> \<open>Planning\<close>: \<open>Plan\<close>; what every planned eviction fulfils, when exactly one is allowed, the caps, progress.
  \<^item> \<open>Recorder\<close>: the metrics recorder as the list of calls on its collectors.
  \<^item> \<open>Reconcile\<close>: \<open>Reconcile\<close>, \<open>updateStatus\<close> and \<open>Evict\<close> as one step on the planner with a trace of effects;
    \<open>operator_run\<close> is the step relation of any number of reconciliations, and the back-off between two
    evictions of a pod an invariant of its reachable states.
  \<^item> \<open>OperatorLog\<close>: the histories over the life of the operator refine the record of all its evictions.
  \<^item> \<open>Disruptions\<close>: what the hourly cap of a namespace guarantees over such a life.
  \<^item> \<open>PlannerMemory\<close>: how much the planner remembers over such a life, and by what name the back-off knows a pod.
  \<^item> \<open>Counters\<close>: the counters of the recorder count what goes on record and what the status reports.
  \<^item> \<open>Unread\<close>: what no reconciliation depends on: the protected labels of objectives, the weights and
    preferences of node classes, the usage of pods. Each function from the snapshot to the status is shown
    to commute with forgetting them.
  \<^item> \<open>StatusPatch\<close>: the two documents of a status update can be encoded, as the variance that is reported is
    finite, and differ in the status only.
  \<^item> \<open>Heap\<close> and \<open>DeepCopy\<close>: the copying methods of \<open>api/v1\<close> on a heap of typed cells. The locales \<open>go_copy\<close>
    and \<open>go_deep_copy\<close> are the contract of a copying method, \<open>api_machinery\<close> the contracts of the methods
    of the library that are called; every method of the program is shown to keep the contract.
  \<^item> \<open>MetricsProvider\<close>: \<open>provider.go\<close>; what is collected, in every order of the queries, and on errors.
  \<^item> \<open>Dashboard\<close>: \<open>handler.go\<close>; what a response shows, the JSON document it is sent as, and how it relates to
    what the planner does.
  \<^item> \<open>Manager\<close>: the decisions \<open>main\<close> makes itself: limit, options of the provider, routes of the dashboard.
  \<^item> \<open>Startup\<close>: the process from \<open>init\<close> to the start of the manager (\<open>cmd/manager/main.go\<close>) with the
    registration of types and of the controller (\<open>api/v1\<close>, \<open>controllers/setup.go\<close>), the construction of
    clients (\<open>pkg/kube\<close>) and the flags; which failure ends it how, what is started, and that the arguments
    of the Helm chart arrive.
  \<^item> \<open>Access\<close>: the requests of a reconciliation against the cluster role of the Helm chart.
  \<^item> \<open>RepoTests\<close>: the unit tests of the repository, as lemmas about the definitions.

  This theory adds what spans the components.

  \<^bold>\<open>Conventions.\<close> A definition has the name of the function it models; \<open>f_loop\<close> is a loop of \<open>f\<close>. State is
  passed explicitly, the receiver last or next to last. A position (\<open>pos\<close>) names a point of an execution
  wherever the runtime or the world picks a value afresh. Recursion is structural on the lists the
  loops visit, or terminates by the length of the text that is left (\<open>duration_loop\<close>), so no fuel is needed
  and every function is total. Integers the code lets wrap are wrapped
  (\<open>wrap64\<close>); conversions of floats out of range are left to the environment, as the language does.

  \<^bold>\<open>Not modelled.\<close> Logging; contexts and timeouts other than the one handed to Prometheus; the mutexes,
  whose critical sections are single steps here, with one reconciliation at a time as the controller is
  configured; the embedded files of the dashboard; what the constructors of the libraries do with the
  options \<open>main\<close> hands them. Of \<open>resource.Quantity\<close>, label selectors, the API server, the metrics API and
  Prometheus only the answers appear, as parameters, and so does the JSON form of the types of the API
  machinery. Floats in JSON are values, not digits. White space outside ASCII in a token file, and the quoting of unprintable
  characters in an error message, are left out.
\<close>

section \<open>Properties that span components\<close>

text \<open>
  C17: a metrics outage is safe. Take a system the process has started, with the provider it was started
  with, whatever its address for Prometheus, and let the metrics API be unavailable: a reconciliation of
  any policy whose threshold for hot nodes exceeds its hysteresis evicts no pod, and the planner's record
  of evictions does not grow.
\<close>

theorem metrics_outage_evicts_nothing:
  assumes "go_runtime E" and "Start sys \<in> set (fst (process W))"
    and "metricsClient (sys_provider sys) = Some client" and "list_nodeMetrics client (0 # q) = Inl err"
    and "isMetricsAPIUnavailable A (Some err)"
    and "io_policy io = Inr pol" and "rd_nodeMetrics (io_reads io) = CollectNodeMetrics E A q (sys_provider sys)"
    and "resourceWeights (policy_spec pol) = \<lparr>weight_cpu = Fin a, weight_memory = Fin b\<rparr>"
    and "flt (Fin 0) (fsub (hotThreshold (policy_spec pol)) (hysteresis (policy_spec pol)))"
  shows "evict_calls (out_effects (fst (Reconcile E p io pl))) = [] \<and> prunes_to pl (snd (Reconcile E p io pl))"
proof -
  obtain out pl' where run: "Reconcile E p io pl = (out, pl')" by fastforce
  have "prom (sys_provider sys) = None \<or> customNodeQueries (sys_provider sys) = []" using started_provider(2) [OF assms(2)] by blast
  note quiet = no_metrics_no_evictions [OF assms(1,3-5) this assms(7) _ assms(8,9)]
  from run have "evict_calls (out_effects out) = [] \<and> prunes_to pl pl'"
  proof (cases rule: Reconcile_cases)
    case (dry pol' snap pln snap')
    then show ?thesis
      using Plan_prunes [OF assms(1) planned_wf [OF assms(1) dry(2)] dry(3)] by simp
  next
    case (live pol' snap pln snap' pl1 fx executed throttled)
    then have pol: "pol' = pol" using assms(6) by simp
    have "plan_evictions pln = []"
      using quiet [OF live(2), of "1 # p"] live(3) by (simp add: pol)
    then have "fx = []" "pl' = pl1" using live(5) by simp_all
    moreover have "prunes_to pl pl1" by (rule Plan_prunes [OF assms(1) planned_wf [OF assms(1) live(2)] live(3)])
    ultimately show ?thesis using live(6) by simp
  qed (simp_all add: prunes_to_refl)
  then show ?thesis by (simp add: run)
qed

definition broken_client :: metrics_client where
  "broken_client = \<lparr>list_nodeMetrics = (\<lambda>p. Inl (ErrStatus ''NotFound'' 404 ''not found'')), list_podMetrics = (\<lambda>p. Inr [])\<rparr>"

definition outage_errors :: api_errors where
  "outage_errors = \<lparr>err_notFound = (\<lambda>e. case e of ErrStatus r c m \<Rightarrow> c = 404 | _ \<Rightarrow> False),
     err_serviceUnavailable = (\<lambda>e. case e of ErrStatus r c m \<Rightarrow> c = 503 | _ \<Rightarrow> False)\<rparr>"

definition outage_provider :: provider where
  "outage_provider = \<lparr>metricsClient = Some broken_client, prom = None, customNodeQueries = [], customPodQueries = [],
     httpTimeout = 15 * second\<rparr>"

definition outage_io :: cluster_io where
  "outage_io = example_io None\<lparr>io_reads := example_cluster_reads\<lparr>
     rd_nodeMetrics := CollectNodeMetrics (plain_env 0) outage_errors [] outage_provider\<rparr>\<rparr>"

definition outage_world :: "(unit, unit, unit, unit, unit) world" where
  "outage_world = healthy_world\<lparr>w_newMetrics := Inr broken_client\<rparr>"

lemma outage_started: "\<exists>sys. Start sys \<in> set (fst (process outage_world)) \<and> sys_provider sys = outage_provider"
  using healthy_flags
  by (simp add: outage_world_def process_def main_def healthy_world_def NewHandler_def NewSharedCacheSet_def NewProvider_def
      providerOptions_def defaultFlags_def run_manager_def outage_provider_def)

theorem metrics_outage_evicts_nothing_witness:
  "evict_calls (out_effects (fst (Reconcile (plain_env 0) [] outage_io (New 0)))) = []"
proof -
  obtain sys where sys: "Start sys \<in> set (fst (process outage_world))" and prov: "sys_provider sys = outage_provider"
    using outage_started by blast
  have un: "isMetricsAPIUnavailable outage_errors (Some (ErrStatus ''NotFound'' 404 ''not found''))"
    by (simp add: isMetricsAPIUnavailable_def outage_errors_def)
  have client: "metricsClient (sys_provider sys) = Some broken_client"
    and answer: "list_nodeMetrics broken_client (0 # []) = Inl (ErrStatus ''NotFound'' 404 ''not found'')"
    by (simp_all add: prov outage_provider_def broken_client_def)
  have io: "io_policy outage_io = Inr example_policy"
    "rd_nodeMetrics (io_reads outage_io) = CollectNodeMetrics (plain_env 0) outage_errors [] (sys_provider sys)"
    by (simp_all add: outage_io_def prov)
  have w: "resourceWeights (policy_spec example_policy) = \<lparr>weight_cpu = Fin (3 / 4), weight_memory = Fin (1 / 4)\<rparr>"
    and hot: "flt (Fin 0) (fsub (hotThreshold (policy_spec example_policy)) (hysteresis (policy_spec example_policy)))"
    by (simp_all add: example_policy_def example_spec_def fsub_def)
  show ?thesis
    using metrics_outage_evicts_nothing [OF go_runtime_plain_env sys client answer un io w hot] by blast
qed

end
